(* ===== verification/Prelude.thy ===== *)
theory Prelude
  imports Main "HOL-Library.Word"
begin

text \<open>
  What the components share.  JavaScript strings are \<open>string\<close> (one \<open>char\<close> per code
  unit, so the model covers code units below 256); Node buffers are lists of \<open>8 word\<close>;
  a database table is the list of its rows in insertion order.  The theory holds the
  fragments of the JavaScript and Node standard library the server uses (hexadecimal
  encoding, \<open>split\<close>, \<open>startsWith\<close>, \<open>parseInt\<close>, character classes of the
  regular expressions), the generic table operations behind the SQL statements, the
  error type of fallible steps, and the lemma collections the proofs draw on.
\<close>

named_theorems run_simps \<open>equations that evaluate one asynchronous program\<close>
named_theorems guar_intros \<open>introduction rules for guarantees of programs\<close>
named_theorems table_simps \<open>facts about table operations\<close>

type_synonym bytes = "8 word list"
type_synonym timestamp = nat

section \<open>Fallible values\<close>

primrec ebind :: "'e + 'a \<Rightarrow> ('a \<Rightarrow> 'e + 'b) \<Rightarrow> 'e + 'b" where
  "ebind (Inl e) k = Inl e"
| "ebind (Inr a) k = k a"

lemma ebind_Inr_iff [simp]: "ebind m k = Inr b \<longleftrightarrow> (\<exists>a. m = Inr a \<and> k a = Inr b)"
  by (cases m) auto

lemma ebind_Inl_iff: "ebind m k = Inl e \<longleftrightarrow> m = Inl e \<or> (\<exists>a. m = Inr a \<and> k a = Inl e)"
  by (cases m) auto

section \<open>JavaScript strings\<close>

definition starts_with :: "string \<Rightarrow> string \<Rightarrow> bool" where
  "starts_with p s \<longleftrightarrow> take (length p) s = p"

lemma starts_with_append: "starts_with p s \<Longrightarrow> s = p @ drop (length p) s"
  by (metis append_take_drop_id starts_with_def)

text \<open>\<open>s.split(sep)\<close> for a one-character separator.\<close>

fun split_on :: "char \<Rightarrow> string \<Rightarrow> string list" where
  "split_on c [] = [[]]"
| "split_on c (x # xs) =
     (if x = c then [] # split_on c xs
      else (case split_on c xs of [] \<Rightarrow> [[x]] | w # ws \<Rightarrow> (x # w) # ws))"

lemma split_on_nonempty [simp]: "split_on c s \<noteq> []"
  by (induction s) (auto split: list.splits)

lemma split_on_no_sep: "c \<notin> set s \<Longrightarrow> split_on c s = [s]"
  by (induction s) auto

lemma split_on_append: "c \<notin> set s \<Longrightarrow> split_on c (s @ c # t) = s # split_on c t"
  by (induction s) auto

text \<open>The \<open>||\<close> of the source on an optional string: absent and empty both take the default.\<close>

definition or_default :: "string option \<Rightarrow> string \<Rightarrow> string" where
  "or_default x d = (case x of None \<Rightarrow> d | Some s \<Rightarrow> if s = [] then d else s)"

definition or_null :: "string option \<Rightarrow> string option" where
  "or_null x = (case x of None \<Rightarrow> None | Some s \<Rightarrow> if s = [] then None else Some s)"

subsection \<open>Hexadecimal\<close>

definition hex_chars :: string where
  "hex_chars = ''0123456789abcdef''"

definition hex_digit :: "nat \<Rightarrow> char" where
  "hex_digit n = hex_chars ! n"

definition is_hex :: "char \<Rightarrow> bool" where
  "is_hex c \<longleftrightarrow> c \<in> set hex_chars"

text \<open>The regular expression \<open>/^[0-9a-f]{n}$/\<close>.\<close>

definition hex_string :: "nat \<Rightarrow> string \<Rightarrow> bool" where
  "hex_string n s \<longleftrightarrow> length s = n \<and> list_all is_hex s"

text \<open>\<open>buffer.toString('hex')\<close>\<close>

primrec to_hex :: "bytes \<Rightarrow> string" where
  "to_hex [] = []"
| "to_hex (b # bs) = hex_digit (unat b div 16) # hex_digit (unat b mod 16) # to_hex bs"

definition hex_value :: "char \<Rightarrow> nat option" where
  "hex_value c =
     (let n = of_char c :: nat in
      if 48 \<le> n \<and> n \<le> 57 then Some (n - 48)
      else if 97 \<le> n \<and> n \<le> 102 then Some (n - 87)
      else if 65 \<le> n \<and> n \<le> 70 then Some (n - 55)
      else None)"

text \<open>\<open>Buffer.from(s, 'hex')\<close>: decoding stops at the first pair that is not hexadecimal.\<close>

fun from_hex :: "string \<Rightarrow> bytes" where
  "from_hex (a # b # s) =
     (case (hex_value a, hex_value b) of
        (Some x, Some y) \<Rightarrow> of_nat (16 * x + y) # from_hex s
      | _ \<Rightarrow> [])"
| "from_hex _ = []"

lemma nibble_values:
  "list_all (\<lambda>n. hex_value (hex_digit n) = Some n \<and> is_hex (hex_digit n)) [0..<16]"
  by code_simp

lemma hex_value_hex_digit [simp]: "n < 16 \<Longrightarrow> hex_value (hex_digit n) = Some n"
  using nibble_values by (simp add: list_all_iff)

lemma is_hex_hex_digit [simp]: "n < 16 \<Longrightarrow> is_hex (hex_digit n)"
  using nibble_values by (simp add: list_all_iff)

lemma unat_byte_nibbles [simp]: "unat (b :: 8 word) div 16 < 16"
proof -
  have "unat b < 2 ^ LENGTH(8)" by (rule unsigned_less)
  then show ?thesis by (simp add: less_mult_imp_div_less)
qed

lemma length_to_hex [simp]: "length (to_hex bs) = 2 * length bs"
  by (induction bs) auto

lemma hex_string_to_hex: "hex_string (2 * length bs) (to_hex bs)"
  by (induction bs) (auto simp: hex_string_def)

lemma to_hex_is_hex: "c \<in> set (to_hex bs) \<Longrightarrow> is_hex c"
  using hex_string_to_hex [of bs] by (auto simp: hex_string_def list_all_iff)

lemma from_to_hex [simp]: "from_hex (to_hex bs) = bs"
proof (induction bs)
  case (Cons b bs)
  have "of_nat (16 * (unat b div 16) + unat b mod 16) = b" by simp
  with Cons show ?case by simp
qed simp

lemma to_hex_inject [simp]: "to_hex a = to_hex b \<longleftrightarrow> a = b"
  by (metis from_to_hex)

lemma colon_not_hex [simp]: "CHR '':'' \<notin> set (to_hex bs)"
  by (auto dest: to_hex_is_hex simp: is_hex_def hex_chars_def)

subsection \<open>parseInt\<close>

definition js_space :: "char \<Rightarrow> bool" where
  "js_space c \<longleftrightarrow> (let n = of_char c :: nat in n = 32 \<or> (9 \<le> n \<and> n \<le> 13) \<or> n = 160)"

definition digit_value :: "nat \<Rightarrow> char \<Rightarrow> nat option" where
  "digit_value radix c =
     (case hex_value c of Some v \<Rightarrow> if v < radix then Some v else None | None \<Rightarrow> None)"

fun read_digits :: "nat \<Rightarrow> nat \<Rightarrow> string \<Rightarrow> nat" where
  "read_digits radix acc [] = acc"
| "read_digits radix acc (c # s) =
     (case digit_value radix c of
        Some v \<Rightarrow> read_digits radix (radix * acc + v) s
      | None \<Rightarrow> acc)"

definition read_radix :: "nat \<Rightarrow> string \<Rightarrow> nat option" where
  "read_radix radix s =
     (case s of [] \<Rightarrow> None
      | c # _ \<Rightarrow> if digit_value radix c = None then None else Some (read_digits radix 0 s))"

text \<open>\<open>parseInt(s)\<close> without a radix; \<open>None\<close> is \<open>NaN\<close>.\<close>

definition parse_int :: "string \<Rightarrow> int option" where
  "parse_int s0 =
     (let s1 = dropWhile js_space s0;
          neg = (starts_with ''-'' s1);
          s2 = (if starts_with ''-'' s1 \<or> starts_with ''+'' s1 then tl s1 else s1);
          r = (if starts_with ''0x'' s2 \<or> starts_with ''0X'' s2
               then read_radix 16 (drop 2 s2) else read_radix 10 s2)
      in map_option (\<lambda>n. if neg then - int n else int n) r)"

text \<open>\<open>parseInt(q) || d\<close> on an optional query parameter: \<open>NaN\<close> and 0 take the default.\<close>

definition parse_int_or :: "string option \<Rightarrow> int \<Rightarrow> int" where
  "parse_int_or q d =
     (case Option.bind q parse_int of None \<Rightarrow> d | Some n \<Rightarrow> if n = 0 then d else n)"

section \<open>Tables\<close>

definition update_where :: "('r \<Rightarrow> bool) \<Rightarrow> ('r \<Rightarrow> 'r) \<Rightarrow> 'r list \<Rightarrow> 'r list" where
  "update_where P f t = map (\<lambda>r. if P r then f r else r) t"

definition delete_where :: "('r \<Rightarrow> bool) \<Rightarrow> 'r list \<Rightarrow> 'r list" where
  "delete_where P t = filter (\<lambda>r. \<not> P r) t"

definition has_key :: "('r \<Rightarrow> 'k) \<Rightarrow> 'k \<Rightarrow> 'r list \<Rightarrow> bool" where
  "has_key key k t \<longleftrightarrow> list_ex (\<lambda>r. key r = k) t"

lemma has_key_iff: "has_key key k t \<longleftrightarrow> k \<in> key ` set t"
  by (auto simp: has_key_def list_ex_iff)

lemma update_where_Nil [simp]: "update_where P f [] = []"
  by (simp add: update_where_def)

lemma update_where_Cons [simp]:
  "update_where P f (r # t) = (if P r then f r else r) # update_where P f t"
  by (simp add: update_where_def)

lemma set_update_where: "set (update_where P f t) = (\<lambda>r. if P r then f r else r) ` set t"
  by (simp add: update_where_def)

lemma update_where_none [table_simps]: "(\<And>r. r \<in> set t \<Longrightarrow> \<not> P r) \<Longrightarrow> update_where P f t = t"
  by (induction t) auto

lemma set_delete_where [table_simps]: "set (delete_where P t) = {r \<in> set t. \<not> P r}"
  by (auto simp: delete_where_def)

lemma map_update_where [table_simps]:
  "(\<And>r. key (f r) = key r) \<Longrightarrow> map key (update_where P f t) = map key t"
  by (simp add: update_where_def)

lemma image_update_where [table_simps]:
  "(\<And>r. key (f r) = key r) \<Longrightarrow> key ` set (update_where P f t) = key ` set t"
  by (metis map_update_where list.set_map)

lemma distinct_map_delete_where [table_simps]:
  "distinct (map key t) \<Longrightarrow> distinct (map key (delete_where P t))"
  by (simp add: delete_where_def distinct_map_filter)

lemma distinct_map_snoc [table_simps]:
  "distinct (map key (t @ [r])) \<longleftrightarrow> distinct (map key t) \<and> \<not> has_key key (key r) t"
  by (auto simp: has_key_iff)

lemma key_unique:
  "distinct (map key t) \<Longrightarrow> r \<in> set t \<Longrightarrow> r' \<in> set t \<Longrightarrow> key r = key r' \<Longrightarrow> r = r'"
  by (auto simp: distinct_map inj_on_def)

lemma filter_key_singleton:
  assumes "distinct (map key t)" and "r \<in> set t"
  shows "filter (\<lambda>x. key x = key r) t = [r]"
  using assms
proof (induction t)
  case (Cons x t)
  show ?case
  proof (cases "x = r")
    case True
    with Cons.prems have "filter (\<lambda>x. key x = key r) t = []"
      by (auto simp: filter_empty_conv image_iff)
    with True show ?thesis by simp
  next
    case False
    with Cons.prems have "key x \<noteq> key r" by (auto simp: image_iff)
    with False Cons show ?thesis by simp
  qed
qed simp

lemma filter_key_length:
  assumes "distinct (map key t)"
  shows "length (filter (\<lambda>r. key r = k \<and> P r) t) \<le> 1"
  using assms
proof (induction t)
  case (Cons x t)
  then have "key x = k \<Longrightarrow> filter (\<lambda>r. key r = k \<and> P r) t = []"
    by (auto simp: filter_empty_conv image_iff)
  with Cons show ?case by auto
qed simp

text \<open>Joins along a key, and updates outside a filter.\<close>

lemma concat_unique:
  assumes "distinct (map key us)" and "u \<in> set us" and "\<And>y. y \<in> set us \<Longrightarrow> key y \<noteq> key u \<Longrightarrow> f y = []"
  shows "concat (map f us) = f u"
  using assms
proof (induction us)
  case (Cons x us)
  show ?case
  proof (cases "x = u")
    case True
    with Cons.prems have "\<forall>y \<in> set us. f y = []" by (auto simp: image_iff)
    with True show ?thesis by (simp add: concat_eq_Nil_conv)
  next
    case False
    with Cons.prems have "u \<in> set us" "f x = []" by (auto simp: image_iff)
    with Cons show ?thesis by simp
  qed
qed simp

lemma join_unique:
  assumes "distinct (map key us)" and "u \<in> set us"
  shows "concat (map (\<lambda>y. if key y = key u \<and> P y then [h y] else []) us) = (if P u then [h u] else [])"
proof -
  have "concat (map (\<lambda>y. if key y = key u \<and> P y then [h y] else []) ys) =
      map h (filter P (filter (\<lambda>y. key y = key u) ys))" for ys
    by (induction ys) auto
  then show ?thesis by (simp del: filter_filter add: filter_key_singleton [OF assms])
qed

lemma filter_update_where:
  "(\<And>r. P r \<Longrightarrow> \<not> Q r) \<Longrightarrow> (\<And>r. P r \<Longrightarrow> \<not> Q (f r)) \<Longrightarrow> filter Q (update_where P f t) = filter Q t"
  by (induction t) auto

end
