(* ===== verification/Async.thy ===== *)
theory Async
  imports Prelude
begin

text \<open>
  Asynchronous handlers.  An \<open>async\<close> function of the source runs without interruption
  between two \<open>await\<close>s and gives up control at each of them.  A program is a tree of
  such atomic actions on the shared state: \<open>Act f\<close> performs one action and goes on with
  the program it returns; \<open>Throw e\<close> is a rejected promise.  \<open>run\<close> executes a program
  alone; \<open>guar\<close> says that each of its actions, whatever the others did in between, is a
  step of a given relation; \<open>rg\<close> is the rely/guarantee weakest precondition, in which the
  other programs may take steps of the rely before each action.
\<close>

datatype ('s, 'e, 'a) prog =
  Return 'a
| Throw 'e
| Act "'s \<Rightarrow> ('s, 'e, 'a) prog \<times> 's"

primrec await :: "('s, 'e, 'a) prog \<Rightarrow> ('a \<Rightarrow> ('s, 'e, 'b) prog) \<Rightarrow> ('s, 'e, 'b) prog" where
  "await (Return a) k = k a"
| "await (Throw e) k = Throw e"
| "await (Act f) k = Act (\<lambda>s. map_prod (\<lambda>p. await p k) id (f s))"

text \<open>\<open>try { m } catch (e) { h e }\<close>\<close>

primrec try_catch :: "('s, 'e, 'a) prog \<Rightarrow> ('e \<Rightarrow> ('s, 'e, 'a) prog) \<Rightarrow> ('s, 'e, 'a) prog" where
  "try_catch (Return a) h = Return a"
| "try_catch (Throw e) h = h e"
| "try_catch (Act f) h = Act (\<lambda>s. map_prod (\<lambda>p. try_catch p h) id (f s))"

definition gets :: "('s \<Rightarrow> 'a) \<Rightarrow> ('s, 'e, 'a) prog" where
  "gets f = Act (\<lambda>s. (Return (f s), s))"

definition modify :: "('s \<Rightarrow> 's) \<Rightarrow> ('s, 'e, unit) prog" where
  "modify f = Act (\<lambda>s. (Return (), f s))"

fun for_each :: "'x list \<Rightarrow> ('x \<Rightarrow> ('s, 'e, unit) prog) \<Rightarrow> ('s, 'e, unit) prog" where
  "for_each [] body = Return ()"
| "for_each (x # xs) body = await (body x) (\<lambda>_. for_each xs body)"

section \<open>Running one program\<close>

primrec run :: "('s, 'e, 'a) prog \<Rightarrow> 's \<Rightarrow> ('e + 'a) \<times> 's" where
  "run (Return a) = (\<lambda>s. (Inr a, s))"
| "run (Throw e) = (\<lambda>s. (Inl e, s))"
| "run (Act f) = (\<lambda>s. case map_prod run id (f s) of (g, t) \<Rightarrow> g t)"

lemma run_Act [run_simps]: "run (Act f) s = run (fst (f s)) (snd (f s))"
  by (simp add: case_prod_beta)

lemma run_await [run_simps]:
  "run (await m k) s =
     (case run m s of (Inl e, t) \<Rightarrow> (Inl e, t) | (Inr a, t) \<Rightarrow> run (k a) t)"
proof (induction m arbitrary: s)
  case (Act f)
  have "run (await (fst (f s)) k) (snd (f s)) =
      (case run (fst (f s)) (snd (f s)) of (Inl e, t) \<Rightarrow> (Inl e, t) | (Inr a, t) \<Rightarrow> run (k a) t)"
    by (rule Act.IH [of "f s"]) (auto simp: prod_set_simps intro: fsts.intros)
  then show ?case by (simp add: case_prod_beta)
qed simp_all

lemma run_try_catch [run_simps]:
  "run (try_catch m h) s =
     (case run m s of (Inl e, t) \<Rightarrow> run (h e) t | (Inr a, t) \<Rightarrow> (Inr a, t))"
proof (induction m arbitrary: s)
  case (Act f)
  have "run (try_catch (fst (f s)) h) (snd (f s)) =
      (case run (fst (f s)) (snd (f s)) of (Inl e, t) \<Rightarrow> run (h e) t | (Inr a, t) \<Rightarrow> (Inr a, t))"
    by (rule Act.IH [of "f s"]) (auto simp: prod_set_simps intro: fsts.intros)
  then show ?case by (simp add: case_prod_beta)
qed simp_all

lemma run_gets [run_simps, simp]: "run (gets f) s = (Inr (f s), s)"
  by (simp add: gets_def)

lemma run_modify [run_simps, simp]: "run (modify f) s = (Inr (), f s)"
  by (simp add: modify_def)

declare run.simps(3) [simp del]

section \<open>Guarantees\<close>

inductive guar :: "('s \<Rightarrow> 's \<Rightarrow> bool) \<Rightarrow> ('s, 'e, 'a) prog \<Rightarrow> bool" for G where
  guar_Return [intro!, simp]: "guar G (Return a)"
| guar_Throw [intro!, simp]: "guar G (Throw e)"
| guar_Act: "(\<And>s. G s (snd (f s))) \<Longrightarrow> (\<And>s. guar G (fst (f s))) \<Longrightarrow> guar G (Act f)"

inductive_cases guar_ActE: "guar G (Act f)"

lemma guar_await [guar_intros]:
  assumes "guar G m" and "\<And>a. guar G (k a)"
  shows "guar G (await m k)"
  using assms(1) by induction (auto intro: guar_Act assms(2))

lemma guar_try_catch [guar_intros]:
  assumes "guar G m" and "\<And>e. guar G (h e)"
  shows "guar G (try_catch m h)"
  using assms(1) by induction (auto intro: guar_Act assms(2))

lemma guar_for_each [guar_intros]:
  "(\<And>x. x \<in> set xs \<Longrightarrow> guar G (body x)) \<Longrightarrow> guar G (for_each xs body)"
  by (induction xs) (auto intro: guar_await)

lemma guar_gets [guar_intros]: "(\<And>s. G s s) \<Longrightarrow> guar G (gets f)"
  by (auto simp: gets_def intro: guar_Act)

lemma guar_modify [guar_intros]: "(\<And>s. G s (f s)) \<Longrightarrow> guar G (modify f)"
  by (auto simp: modify_def intro: guar_Act)

lemma guar_mono: "guar G p \<Longrightarrow> (\<And>s t. G s t \<Longrightarrow> H s t) \<Longrightarrow> guar H p"
  by (induction rule: guar.induct) (auto intro: guar_Act)

lemma guar_if [guar_intros]: "(b \<Longrightarrow> guar G p) \<Longrightarrow> (\<not> b \<Longrightarrow> guar G q) \<Longrightarrow> guar G (if b then p else q)"
  by simp

lemma guar_run:
  assumes "guar G p" and "\<And>s. G s s" and "\<And>s t u. G s t \<Longrightarrow> G t u \<Longrightarrow> G s u"
  shows "G s (snd (run p s))"
  using assms(1)
proof (induction arbitrary: s)
  case (guar_Act f)
  then show ?case by (simp add: run_Act) (blast intro: assms(3))
qed (auto intro: assms(2))

section \<open>Rely and guarantee\<close>

primrec rg ::
  "('s \<Rightarrow> 's \<Rightarrow> bool) \<Rightarrow> ('s \<Rightarrow> 's \<Rightarrow> bool) \<Rightarrow> ('e + 'a \<Rightarrow> 's \<Rightarrow> bool) \<Rightarrow> ('s, 'e, 'a) prog \<Rightarrow> 's \<Rightarrow> bool"
where
  "rg R G Q (Return a) = Q (Inr a)"
| "rg R G Q (Throw e) = Q (Inl e)"
| "rg R G Q (Act f) =
     (\<lambda>s. \<forall>t. R s t \<longrightarrow> G t (snd (f t)) \<and> (case map_prod (rg R G Q) id (f t) of (h, u) \<Rightarrow> h u))"

lemma rg_Act: "rg R G Q (Act f) s \<longleftrightarrow>
    (\<forall>t. R s t \<longrightarrow> G t (snd (f t)) \<and> rg R G Q (fst (f t)) (snd (f t)))"
  by (simp add: case_prod_beta)

declare rg.simps(3) [simp del]

lemma rg_await: "rg R G Q (await m k) s =
    rg R G (\<lambda>r. case r of Inl e \<Rightarrow> Q (Inl e) | Inr a \<Rightarrow> rg R G Q (k a)) m s"
proof (induction m arbitrary: s)
  case (Act f)
  have "rg R G Q (await (fst (f t)) k) (snd (f t)) =
      rg R G (\<lambda>r. case r of Inl e \<Rightarrow> Q (Inl e) | Inr a \<Rightarrow> rg R G Q (k a)) (fst (f t)) (snd (f t))" for t
    by (rule Act.IH [of "f t"]) (auto intro: fsts.intros)
  then show ?case by (simp add: rg_Act)
qed simp_all

lemma rg_try_catch: "rg R G Q (try_catch m h) s =
    rg R G (\<lambda>r. case r of Inl e \<Rightarrow> rg R G Q (h e) | Inr a \<Rightarrow> Q (Inr a)) m s"
proof (induction m arbitrary: s)
  case (Act f)
  have "rg R G Q (try_catch (fst (f t)) h) (snd (f t)) =
      rg R G (\<lambda>r. case r of Inl e \<Rightarrow> rg R G Q (h e) | Inr a \<Rightarrow> Q (Inr a)) (fst (f t)) (snd (f t))" for t
    by (rule Act.IH [of "f t"]) (auto intro: fsts.intros)
  then show ?case by (simp add: rg_Act)
qed simp_all

lemma rg_mono:
  "rg R G Q p s \<Longrightarrow> (\<And>r s. Q r s \<Longrightarrow> Q' r s) \<Longrightarrow> rg R G Q' p s"
proof (induction p arbitrary: s)
  case (Act f)
  have "rg R G Q' (fst (f t)) (snd (f t))" if "R s t" for t
    by (rule Act.IH [of "f t"]) (use Act.prems that in \<open>auto simp: rg_Act intro: fsts.intros\<close>)
  with Act.prems(1) show ?case by (simp add: rg_Act)
qed simp_all

lemma rg_guar:
  assumes "guar G p" and "\<And>s. Q s"
  shows "rg R G (\<lambda>_. Q) p s"
  using assms(1) by (induction arbitrary: s) (auto simp: rg_Act assms(2))

text \<open>What a program establishes under interference it establishes when it runs alone.\<close>

lemma rg_run:
  assumes "rg R G Q p s" and "\<And>s. R s s"
  shows "Q (fst (run p s)) (snd (run p s))"
  using assms(1)
proof (induction p arbitrary: s)
  case (Act f)
  have "Q (fst (run (fst (f s)) (snd (f s)))) (snd (run (fst (f s)) (snd (f s))))"
    by (rule Act.IH [of "f s"]) (use Act.prems assms(2) in \<open>auto simp: rg_Act intro: fsts.intros\<close>)
  then show ?case by (simp add: run_Act)
qed simp_all

section \<open>Pools of programs\<close>

text \<open>
  The event loop: any started program may perform its next action, the environment may
  change the state (time passes, sockets come and go), and new programs may start.
\<close>

inductive pool_step ::
  "('s \<Rightarrow> 's \<Rightarrow> bool) \<Rightarrow> (('s, 'e, 'a) prog \<Rightarrow> bool) \<Rightarrow>
   's \<times> ('s, 'e, 'a) prog list \<Rightarrow> 's \<times> ('s, 'e, 'a) prog list \<Rightarrow> bool"
  for env progs where
  pool_act: "i < length ps \<Longrightarrow> ps ! i = Act f \<Longrightarrow>
     pool_step env progs (s, ps) (snd (f s), ps[i := fst (f s)])"
| pool_env: "env s t \<Longrightarrow> pool_step env progs (s, ps) (t, ps)"
| pool_start: "progs p \<Longrightarrow> pool_step env progs (s, ps) (s, ps @ [p])"

abbreviation pool_steps where
  "pool_steps env progs \<equiv> (pool_step env progs)\<^sup>*\<^sup>*"

inductive_cases pool_stepE: "pool_step env progs (s, ps) (t, qs)"

locale interference =
  fixes R :: "'s \<Rightarrow> 's \<Rightarrow> bool"
    and env :: "'s \<Rightarrow> 's \<Rightarrow> bool"
    and progs :: "('s, 'e, 'a) prog \<Rightarrow> bool"
    and Q :: "'e + 'a \<Rightarrow> 's \<Rightarrow> bool"
  assumes R_refl: "R s s"
    and R_trans: "R s t \<Longrightarrow> R t u \<Longrightarrow> R s u"
    and env_R: "env s t \<Longrightarrow> R s t"
    and progs_rg: "progs p \<Longrightarrow> rg R R Q p s"
    and Q_stable: "Q r s \<Longrightarrow> R s t \<Longrightarrow> Q r t"
begin

lemma rg_stable: "rg R R Q p s \<Longrightarrow> R s t \<Longrightarrow> rg R R Q p t"
  by (cases p) (auto simp: rg_Act intro: Q_stable R_trans)

lemma step_keeps:
  assumes "pool_step env progs (s, ps) (t, qs)" and "\<forall>p \<in> set ps. rg R R Q p s"
  shows "R s t \<and> (\<forall>p \<in> set qs. rg R R Q p t)"
  using assms(1)
proof (cases rule: pool_step.cases)
  case (pool_act i f)
  from pool_act have "Act f \<in> set ps" by (metis nth_mem)
  with assms(2) R_refl [of s] have "R s t" and "rg R R Q (fst (f s)) t"
    using pool_act by (auto simp: rg_Act)
  with assms(2) pool_act show ?thesis
    by (auto dest!: set_update_subset_insert [THEN subsetD] intro: rg_stable)
next
  case pool_env
  with assms(2) show ?thesis by (auto intro: env_R rg_stable)
next
  case (pool_start p)
  with assms(2) show ?thesis by (auto intro: R_refl progs_rg)
qed

lemma steps_keep:
  assumes "pool_steps env progs (s, ps) (t, qs)" and "\<forall>p \<in> set ps. rg R R Q p s"
  shows "R s t \<and> (\<forall>p \<in> set qs. rg R R Q p t)"
  using assms
proof (induction "(s, ps)" "(t, qs)" arbitrary: t qs rule: rtranclp.induct)
  case rtrancl_refl
  then show ?case by (simp add: R_refl)
next
  case (rtrancl_into_rtrancl b)
  obtain u rs where b: "b = (u, rs)" by (cases b)
  with rtrancl_into_rtrancl have "R s u \<and> (\<forall>p \<in> set rs. rg R R Q p u)" by blast
  with step_keeps [of u rs t qs] rtrancl_into_rtrancl.hyps(3) b show ?case
    by (auto intro: R_trans)
qed

text \<open>From an empty pool: the state moves along \<open>R\<close> and finished programs satisfy \<open>Q\<close>.\<close>

lemma reachable_R: "pool_steps env progs (s, []) (t, qs) \<Longrightarrow> R s t"
  using steps_keep [of s "[]"] by simp

lemma finished_Q: "pool_steps env progs (s, []) (t, qs) \<Longrightarrow> Return a \<in> set qs \<Longrightarrow> Q (Inr a) t"
  using steps_keep [of s "[]"] by fastforce

end

end
