(* ===== verification/Externals.thy ===== *)
theory Externals
  imports Prelude
begin

text \<open>
  The code the server calls and this repository does not hold, as a record of functions
  that every definition using them takes as an argument: the string formats of the
  validation package, the input syntax of PostgreSQL's types and the rank of a text in
  the database's collation, and the cryptographic
  primitives of Node.  \<open>externals_ok\<close> states the documented behaviour the server relies
  on: digest lengths, Diffie-Hellman agreement, and that the database reads every text
  the validator accepts as a UUID, to one canonical text per value.
\<close>

record externals =
  zod_uuid :: "string \<Rightarrow> bool"
  zod_url :: "string \<Rightarrow> bool"
  zod_datetime :: "string \<Rightarrow> bool"
  pg_uuid :: "string \<Rightarrow> string option"
  pg_bytea :: "string \<Rightarrow> bytes option"
  pg_timestamptz :: "string \<Rightarrow> timestamp option"
  pg_collation_rank :: "string \<Rightarrow> nat"
  sha256 :: "string \<Rightarrow> bytes"
  scrypt :: "string \<Rightarrow> string \<Rightarrow> nat \<Rightarrow> bytes"
  hmac_sha256 :: "bytes \<Rightarrow> string \<Rightarrow> bytes"
  x25519_public :: "bytes \<Rightarrow> bytes"
  x25519 :: "bytes \<Rightarrow> bytes \<Rightarrow> bytes"

definition externals_ok :: "externals \<Rightarrow> bool" where
  "externals_ok E \<longleftrightarrow>
     (\<forall>s. length (sha256 E s) = 32) \<and>
     (\<forall>p s n. length (scrypt E p s n) = n) \<and>
     (\<forall>k s. length (hmac_sha256 E k s) = 32) \<and>
     (\<forall>a. length (x25519_public E a) = 32) \<and>
     (\<forall>a b. x25519 E a (x25519_public E b) = x25519 E b (x25519_public E a)) \<and>
     (\<forall>s. zod_uuid E s \<longrightarrow> pg_uuid E s \<noteq> None) \<and>
     (\<forall>s u. pg_uuid E s = Some u \<longrightarrow> pg_uuid E u = Some u)"

lemma externals_okD:
  assumes "externals_ok E"
  shows "length (sha256 E s) = 32" and "length (scrypt E p s n) = n"
    and "length (hmac_sha256 E k s) = 32" and "length (x25519_public E a) = 32"
    and "x25519 E a (x25519_public E b) = x25519 E b (x25519_public E a)"
    and "zod_uuid E s \<Longrightarrow> \<exists>u. pg_uuid E s = Some u"
    and "pg_uuid E s = Some u \<Longrightarrow> pg_uuid E u = Some u"
  using assms by (auto simp: externals_ok_def)

section \<open>A concrete instance\<close>

text \<open>
  Functions with the documented laws, on which the witnesses are evaluated: texts of 36
  characters are UUIDs and upper case is read as lower case, a digest is the text padded
  with zeros, and the Diffie-Hellman function adds bytewise.
\<close>

definition to_lower :: "char \<Rightarrow> char" where
  "to_lower c = (let n = of_char c :: nat in if 65 \<le> n \<and> n \<le> 90 then char_of (n + 32) else c)"

definition pad :: "nat \<Rightarrow> bytes \<Rightarrow> bytes" where
  "pad n bs = take n (bs @ replicate n 0)"

definition text_bytes :: "string \<Rightarrow> bytes" where
  "text_bytes s = map of_char s"

definition sample_externals :: externals where
  "sample_externals =
     \<lparr>zod_uuid = (\<lambda>s. length s = 36),
      zod_url = (\<lambda>s. starts_with ''https://'' s),
      zod_datetime = (\<lambda>s. s \<noteq> []),
      pg_uuid = (\<lambda>s. if length s = 36 then Some (map to_lower s) else None),
      pg_bytea = (\<lambda>s. Some (text_bytes s)),
      pg_timestamptz = (\<lambda>s. Some (length s)),
      pg_collation_rank = length,
      sha256 = (\<lambda>s. pad 32 (text_bytes s)),
      scrypt = (\<lambda>p s n. pad n (text_bytes p)),
      hmac_sha256 = (\<lambda>k s. pad 32 k),
      x25519_public = (\<lambda>a. pad 32 a),
      x25519 = (\<lambda>a b. map2 (+) (pad 32 a) (pad 32 b))\<rparr>"

lemma length_pad [simp]: "length (pad n bs) = n"
  by (simp add: pad_def)

lemma pad_pad [simp]: "pad n (pad n bs) = pad n bs"
  by (simp add: pad_def)

lemma to_lower_idem [simp]: "to_lower (to_lower c) = to_lower c"
proof -
  have "of_char (char_of (n + 32) :: char) = n + 32" if "n \<le> 90" for n :: nat
    using that by simp
  then show ?thesis by (auto simp: to_lower_def Let_def)
qed

lemma sample_externals_ok: "externals_ok sample_externals"
proof -
  have "map2 (+) xs ys = map2 (+) ys xs" for xs ys :: bytes
    by (rule nth_equalityI) (auto simp: add.commute)
  then show ?thesis
    by (auto simp: externals_ok_def sample_externals_def split: if_splits)
qed

end
