(* ===== verification/Validation.thy ===== *)
theory Validation
  imports Complex_Main Externals "HOL-Library.Monad_Syntax"
begin

text \<open>
  Request bodies and their validation (the schemas at the head of \<open>routes.ts\<close>).  A body
  is a JSON value; a schema is a parser from JSON to the record of the fields it lists,
  \<open>None\<close> being the \<open>ZodError\<close> the real schema throws.  Unknown fields are dropped, an
  optional field may be absent but not \<open>null\<close>.
\<close>

datatype json =
  JNull
| JBool bool
| JNum rat
| JStr string
| JArr "json list"
| JObj "(string \<times> json) list"

text \<open>JavaScript truth of a value that may be \<open>undefined\<close>.\<close>

fun truthy :: "json option \<Rightarrow> bool" where
  "truthy None = False"
| "truthy (Some JNull) = False"
| "truthy (Some (JBool b)) = b"
| "truthy (Some (JNum n)) = (n \<noteq> 0)"
| "truthy (Some (JStr s)) = (s \<noteq> [])"
| "truthy (Some _) = True"

text \<open>Property access \<open>v?.k\<close>: \<open>None\<close> is \<open>undefined\<close>.\<close>

fun json_prop :: "string \<Rightarrow> json option \<Rightarrow> json option" where
  "json_prop k (Some (JObj fs)) = map_of fs k"
| "json_prop k _ = None"

section \<open>The schema combinators\<close>

fun z_object :: "json \<Rightarrow> (string \<times> json) list option" where
  "z_object (JObj fs) = Some fs"
| "z_object _ = None"

fun z_string :: "(string \<Rightarrow> bool) \<Rightarrow> json \<Rightarrow> string option" where
  "z_string P (JStr s) = (if P s then Some s else None)"
| "z_string P _ = None"

fun z_boolean :: "json \<Rightarrow> bool option" where
  "z_boolean (JBool b) = Some b"
| "z_boolean _ = None"

fun z_number :: "(rat \<Rightarrow> bool) \<Rightarrow> json \<Rightarrow> rat option" where
  "z_number P (JNum n) = (if P n then Some n else None)"
| "z_number P _ = None"

fun z_record :: "json \<Rightarrow> json option" where
  "z_record (JObj fs) = Some (JObj fs)"
| "z_record _ = None"

fun all_some :: "'a option list \<Rightarrow> 'a list option" where
  "all_some [] = Some []"
| "all_some (x # xs) = do { a \<leftarrow> x; as \<leftarrow> all_some xs; Some (a # as) }"

fun z_array :: "(json \<Rightarrow> 'a option) \<Rightarrow> ('a list \<Rightarrow> bool) \<Rightarrow> json \<Rightarrow> 'a list option" where
  "z_array p P (JArr xs) =
     (case all_some (map p xs) of Some as \<Rightarrow> if P as then Some as else None | None \<Rightarrow> None)"
| "z_array p P _ = None"

definition required :: "(json \<Rightarrow> 'a option) \<Rightarrow> string \<Rightarrow> (string \<times> json) list \<Rightarrow> 'a option" where
  "required p k fs = Option.bind (map_of fs k) p"

definition optional ::
  "(json \<Rightarrow> 'a option) \<Rightarrow> string \<Rightarrow> (string \<times> json) list \<Rightarrow> 'a option option" where
  "optional p k fs = (case map_of fs k of None \<Rightarrow> Some None | Some v \<Rightarrow> map_option Some (p v))"

definition defaulted ::
  "'a \<Rightarrow> (json \<Rightarrow> 'a option) \<Rightarrow> string \<Rightarrow> (string \<times> json) list \<Rightarrow> 'a option" where
  "defaulted d p k fs = (case map_of fs k of None \<Rightarrow> Some d | Some v \<Rightarrow> p v)"

definition hex64 :: "string \<Rightarrow> bool" where
  "hex64 = hex_string 64"

text \<open>\<open>/^05[0-9a-f]{64}$/\<close>\<close>

definition chhaya_id_format :: "string \<Rightarrow> bool" where
  "chhaya_id_format s \<longleftrightarrow> take 2 s = ''05'' \<and> hex64 (drop 2 s)"

definition len_between :: "nat \<Rightarrow> nat \<Rightarrow> string \<Rightarrow> bool" where
  "len_between a b s \<longleftrightarrow> a \<le> length s \<and> length s \<le> b"

abbreviation any_string :: "string \<Rightarrow> bool" where
  "any_string \<equiv> \<lambda>_. True"

section \<open>The schemas\<close>

record challenge_data =
  ch_publicKey :: string
  ch_deviceId :: string
  ch_purpose :: string

definition challenge_schema :: "externals \<Rightarrow> json \<Rightarrow> challenge_data option" where
  "challenge_schema E j = do {
     fs \<leftarrow> z_object j;
     publicKey \<leftarrow> required (z_string hex64) ''publicKey'' fs;
     deviceId \<leftarrow> required (z_string (zod_uuid E)) ''deviceId'' fs;
     purpose \<leftarrow> required (z_string (\<lambda>s. s \<in> {''register'', ''login''})) ''purpose'' fs;
     Some \<lparr>ch_publicKey = publicKey, ch_deviceId = deviceId, ch_purpose = purpose\<rparr> }"

record register_data =
  rs_challengeId :: string
  rs_identityProof :: string
  rs_chhayaId :: string
  rs_displayName :: string
  rs_publicKey :: string
  rs_encryptedPrivateKey :: string
  rs_recoveryPhraseHash :: string
  rs_deviceId :: string
  rs_deviceName :: "string option"
  rs_platform :: "string option"
  rs_fcmToken :: "string option"

definition registerSchema :: "externals \<Rightarrow> json \<Rightarrow> register_data option" where
  "registerSchema E j = do {
     fs \<leftarrow> z_object j;
     challengeId \<leftarrow> required (z_string (zod_uuid E)) ''challengeId'' fs;
     identityProof \<leftarrow> required (z_string hex64) ''identityProof'' fs;
     chhayaId \<leftarrow> required (z_string chhaya_id_format) ''chhayaId'' fs;
     displayName \<leftarrow> required (z_string (len_between 1 100)) ''displayName'' fs;
     publicKey \<leftarrow> required (z_string hex64) ''publicKey'' fs;
     encryptedPrivateKey \<leftarrow> required (z_string (\<lambda>s. 1 \<le> length s)) ''encryptedPrivateKey'' fs;
     recoveryPhraseHash \<leftarrow> required (z_string (\<lambda>s. length s = 64)) ''recoveryPhraseHash'' fs;
     deviceId \<leftarrow> required (z_string (zod_uuid E)) ''deviceId'' fs;
     deviceName \<leftarrow> optional (z_string any_string) ''deviceName'' fs;
     platform \<leftarrow> optional (z_string any_string) ''platform'' fs;
     fcmToken \<leftarrow> optional (z_string any_string) ''fcmToken'' fs;
     Some \<lparr>rs_challengeId = challengeId, rs_identityProof = identityProof,
           rs_chhayaId = chhayaId, rs_displayName = displayName, rs_publicKey = publicKey,
           rs_encryptedPrivateKey = encryptedPrivateKey,
           rs_recoveryPhraseHash = recoveryPhraseHash, rs_deviceId = deviceId,
           rs_deviceName = deviceName, rs_platform = platform, rs_fcmToken = fcmToken\<rparr> }"

record login_data =
  lg_challengeId :: string
  lg_identityProof :: string
  lg_chhayaId :: string
  lg_recoveryPhraseHash :: string
  lg_deviceId :: string
  lg_deviceName :: "string option"
  lg_platform :: "string option"
  lg_fcmToken :: "string option"

definition loginSchema :: "externals \<Rightarrow> json \<Rightarrow> login_data option" where
  "loginSchema E j = do {
     fs \<leftarrow> z_object j;
     challengeId \<leftarrow> required (z_string (zod_uuid E)) ''challengeId'' fs;
     identityProof \<leftarrow> required (z_string hex64) ''identityProof'' fs;
     chhayaId \<leftarrow> required (z_string chhaya_id_format) ''chhayaId'' fs;
     recoveryPhraseHash \<leftarrow> required (z_string (\<lambda>s. length s = 64)) ''recoveryPhraseHash'' fs;
     deviceId \<leftarrow> required (z_string (zod_uuid E)) ''deviceId'' fs;
     deviceName \<leftarrow> optional (z_string any_string) ''deviceName'' fs;
     platform \<leftarrow> optional (z_string any_string) ''platform'' fs;
     fcmToken \<leftarrow> optional (z_string any_string) ''fcmToken'' fs;
     Some \<lparr>lg_challengeId = challengeId, lg_identityProof = identityProof,
           lg_chhayaId = chhayaId, lg_recoveryPhraseHash = recoveryPhraseHash,
           lg_deviceId = deviceId, lg_deviceName = deviceName, lg_platform = platform,
           lg_fcmToken = fcmToken\<rparr> }"

record contact_data =
  ct_chhayaId :: string
  ct_displayName :: string

definition addContactSchema :: "json \<Rightarrow> contact_data option" where
  "addContactSchema j = do {
     fs \<leftarrow> z_object j;
     chhayaId \<leftarrow> required (z_string chhaya_id_format) ''chhayaId'' fs;
     displayName \<leftarrow> required (z_string (len_between 1 100)) ''displayName'' fs;
     Some \<lparr>ct_chhayaId = chhayaId, ct_displayName = displayName\<rparr> }"

record conversation_data =
  cv_type :: string
  cv_participantIds :: "string list"
  cv_name :: "string option"
  cv_avatarUrl :: "string option"

definition createConversationSchema :: "externals \<Rightarrow> json \<Rightarrow> conversation_data option" where
  "createConversationSchema E j = do {
     fs \<leftarrow> z_object j;
     type \<leftarrow> required (z_string (\<lambda>s. s \<in> {''direct'', ''group''})) ''type'' fs;
     participantIds \<leftarrow> required (z_array (z_string (zod_uuid E))
       (\<lambda>xs. 1 \<le> length xs \<and> length xs \<le> 32)) ''participantIds'' fs;
     name \<leftarrow> optional (z_string any_string) ''name'' fs;
     avatarUrl \<leftarrow> optional (z_string (zod_url E)) ''avatarUrl'' fs;
     Some \<lparr>cv_type = type, cv_participantIds = participantIds, cv_name = name,
           cv_avatarUrl = avatarUrl\<rparr> }"

record message_data =
  ms_messageId :: "string option"
  ms_conversationId :: string
  ms_content :: string
  ms_messageType :: string
  ms_mediaUrl :: "string option"
  ms_mediaMeta :: "json option"
  ms_replyToId :: "string option"

definition sendMessageSchema :: "externals \<Rightarrow> json \<Rightarrow> message_data option" where
  "sendMessageSchema E j = do {
     fs \<leftarrow> z_object j;
     messageId \<leftarrow> optional (z_string (zod_uuid E)) ''messageId'' fs;
     conversationId \<leftarrow> required (z_string (zod_uuid E)) ''conversationId'' fs;
     content \<leftarrow> required (z_string (len_between 1 10000)) ''content'' fs;
     messageType \<leftarrow> defaulted ''text''
       (z_string (\<lambda>s. s \<in> {''text'', ''image'', ''file'', ''voice'', ''location''})) ''messageType'' fs;
     mediaUrl \<leftarrow> optional (z_string (zod_url E)) ''mediaUrl'' fs;
     mediaMeta \<leftarrow> optional z_record ''mediaMeta'' fs;
     replyToId \<leftarrow> optional (z_string (zod_uuid E)) ''replyToId'' fs;
     Some \<lparr>ms_messageId = messageId, ms_conversationId = conversationId, ms_content = content,
           ms_messageType = messageType, ms_mediaUrl = mediaUrl, ms_mediaMeta = mediaMeta,
           ms_replyToId = replyToId\<rparr> }"

record settings_data =
  st_biometricEnabled :: "bool option"
  st_pin :: "string option"
  st_panicPin :: "string option"
  st_readReceipts :: "bool option"
  st_disappearingDuration :: "rat option"
  st_onionRouting :: "bool option"
  st_notifications :: "bool option"

definition updateSettingsSchema :: "json \<Rightarrow> settings_data option" where
  "updateSettingsSchema j = do {
     fs \<leftarrow> z_object j;
     biometricEnabled \<leftarrow> optional z_boolean ''biometricEnabled'' fs;
     pin \<leftarrow> optional (z_string (\<lambda>s. length s = 4)) ''pin'' fs;
     panicPin \<leftarrow> optional (z_string (\<lambda>s. length s = 4)) ''panicPin'' fs;
     readReceipts \<leftarrow> optional z_boolean ''readReceipts'' fs;
     disappearingDuration \<leftarrow>
       optional (z_number (\<lambda>n. 0 \<le> n \<and> n \<le> 604800)) ''disappearingDuration'' fs;
     onionRouting \<leftarrow> optional z_boolean ''onionRouting'' fs;
     notifications \<leftarrow> optional z_boolean ''notifications'' fs;
     Some \<lparr>st_biometricEnabled = biometricEnabled, st_pin = pin, st_panicPin = panicPin,
           st_readReceipts = readReceipts, st_disappearingDuration = disappearingDuration,
           st_onionRouting = onionRouting, st_notifications = notifications\<rparr> }"

record link_data =
  lk_deviceId :: string
  lk_deviceName :: "string option"
  lk_platform :: "string option"
  lk_publicKey :: string

definition linkSchema :: "externals \<Rightarrow> json \<Rightarrow> link_data option" where
  "linkSchema E j = do {
     fs \<leftarrow> z_object j;
     deviceId \<leftarrow> required (z_string (zod_uuid E)) ''deviceId'' fs;
     deviceName \<leftarrow> optional (z_string (\<lambda>s. length s \<le> 100)) ''deviceName'' fs;
     platform \<leftarrow> optional (z_string (\<lambda>s. length s \<le> 30)) ''platform'' fs;
     publicKey \<leftarrow> required (z_string hex64) ''publicKey'' fs;
     Some \<lparr>lk_deviceId = deviceId, lk_deviceName = deviceName, lk_platform = platform,
           lk_publicKey = publicKey\<rparr> }"

section \<open>What a parsed body satisfies\<close>

lemma z_object_Some [simp]: "z_object j = Some fs \<longleftrightarrow> j = JObj fs"
  by (cases j) auto

lemma z_string_Some [simp]: "z_string P j = Some s \<longleftrightarrow> j = JStr s \<and> P s"
  by (cases j) auto

lemma required_Some [simp]:
  "required p k fs = Some a \<longleftrightarrow> (\<exists>v. map_of fs k = Some v \<and> p v = Some a)"
  by (auto simp: required_def bind_eq_Some_conv)

lemma all_some_iff: "all_some xs = Some as \<longleftrightarrow> xs = map Some as"
  by (induction xs arbitrary: as) (auto simp: bind_eq_Some_conv Cons_eq_map_conv)

lemma all_some_strings: "all_some (map (z_string P) js) = Some as \<Longrightarrow> x \<in> set as \<Longrightarrow> P x"
  by (induction js arbitrary: as) (auto simp: bind_eq_Some_conv)

lemma z_array_strings: "z_array (z_string P) L j = Some as \<Longrightarrow> L as \<and> (\<forall>x \<in> set as. P x)"
  by (cases j) (auto split: option.splits if_splits dest: all_some_strings)

lemma challenge_schema_ok:
  assumes "challenge_schema E j = Some d"
  shows "hex64 (ch_publicKey d)" and "zod_uuid E (ch_deviceId d)"
    and "ch_purpose d = ''register'' \<or> ch_purpose d = ''login''"
  using assms by (auto simp: challenge_schema_def bind_eq_Some_conv)

lemma registerSchema_ok:
  assumes "registerSchema E j = Some d"
  shows "zod_uuid E (rs_challengeId d)" and "hex64 (rs_identityProof d)"
    and "chhaya_id_format (rs_chhayaId d)" and "hex64 (rs_publicKey d)"
    and "zod_uuid E (rs_deviceId d)" and "length (rs_displayName d) \<le> 100"
  using assms by (auto simp: registerSchema_def bind_eq_Some_conv len_between_def)

lemma loginSchema_ok:
  assumes "loginSchema E j = Some d"
  shows "zod_uuid E (lg_challengeId d)" and "hex64 (lg_identityProof d)"
    and "chhaya_id_format (lg_chhayaId d)" and "zod_uuid E (lg_deviceId d)"
  using assms by (auto simp: loginSchema_def bind_eq_Some_conv)

lemma createConversationSchema_ok:
  assumes "createConversationSchema E j = Some d"
  shows "cv_type d = ''direct'' \<or> cv_type d = ''group''"
    and "1 \<le> length (cv_participantIds d)" and "length (cv_participantIds d) \<le> 32"
    and "x \<in> set (cv_participantIds d) \<Longrightarrow> zod_uuid E x"
  using assms by (auto simp: createConversationSchema_def bind_eq_Some_conv dest: z_array_strings)

end
