(* ===== verification/Database.thy ===== *)
theory Database
  imports Prelude Validation
begin

text \<open>
  The PostgreSQL schema of \<open>db.ts\<close>: one record per table, the constraints the migrations
  declare, and statements.  A statement takes the value of \<open>NOW()\<close> and the database and
  gives an error, which leaves the database as it was, or a result with the new
  database.  The surrogate keys of \<open>contacts\<close>, \<open>conversation_participants\<close> and
  \<open>push_subscriptions\<close>, which no statement reads, are left out, as are the tables
  \<open>circuits\<close> and \<open>rate_limits\<close>, which no statement touches.
\<close>

section \<open>Rows\<close>

record user =
  u_id :: string
  u_chhaya_id :: string
  u_display_name :: string
  u_public_key :: string
  u_encrypted_private_key :: bytes
  u_recovery_phrase_hash :: string
  u_biometric_enabled :: bool
  u_pin_hash :: "string option"
  u_panic_pin_hash :: "string option"
  u_created_at :: timestamp
  u_updated_at :: timestamp
  u_last_seen_at :: "timestamp option"
  u_is_active :: bool

record contact =
  k_user_id :: string
  k_contact_id :: string
  k_display_name :: string
  k_verification_level :: int
  k_is_blocked :: bool
  k_created_at :: timestamp

record conversation =
  c_id :: string
  c_type :: string
  c_name :: "string option"
  c_avatar_url :: "string option"
  c_created_by :: string
  c_created_at :: timestamp
  c_updated_at :: timestamp

record participant =
  p_conversation_id :: string
  p_user_id :: string
  p_joined_at :: timestamp
  p_left_at :: "timestamp option"
  p_is_admin :: bool
  p_last_read_at :: "timestamp option"
  p_last_active_at :: timestamp

record message =
  m_id :: string
  m_conversation_id :: string
  m_sender_id :: string
  m_content :: string
  m_message_type :: string
  m_media_url :: "string option"
  m_media_meta :: "json option"
  m_reply_to_id :: "string option"
  m_sent_at :: timestamp
  m_delivered_at :: "timestamp option"
  m_read_at :: "timestamp option"
  m_is_deleted :: bool

record device =
  d_id :: string
  d_user_id :: string
  d_device_name :: "string option"
  d_platform :: "string option"
  d_fcm_token :: "string option"
  d_public_key :: string
  d_last_active_at :: timestamp
  d_is_linked :: bool
  d_created_at :: timestamp

record push_subscription =
  s_user_id :: string
  s_endpoint :: string
  s_p256dh :: string
  s_auth :: string

text \<open>\<open>reliability DECIMAL(3,2)\<close> is kept in hundredths.\<close>

record onion_row =
  n_id :: string
  n_address :: string
  n_public_key :: bytes
  n_region :: string
  n_latency_ms :: int
  n_reliability :: int
  n_is_active :: bool
  n_last_health_check :: "timestamp option"

record challenge =
  ic_id :: string
  ic_public_key :: string
  ic_device_id :: string
  ic_purpose :: string
  ic_proof_hash :: string
  ic_expires_at :: timestamp

record auth_session =
  as_token_hash :: string
  as_user_id :: string
  as_expires_at :: timestamp

record db =
  users :: "user list"
  contacts :: "contact list"
  conversations :: "conversation list"
  participants :: "participant list"
  messages :: "message list"
  devices :: "device list"
  push_subscriptions :: "push_subscription list"
  onion_nodes :: "onion_row list"
  identity_challenges :: "challenge list"
  auth_sessions :: "auth_session list"

definition empty_db :: db where
  "empty_db = \<lparr>users = [], contacts = [], conversations = [], participants = [], messages = [],
     devices = [], push_subscriptions = [], onion_nodes = [], identity_challenges = [],
     auth_sessions = []\<rparr>"

abbreviation participant_key :: "participant \<Rightarrow> string \<times> string" where
  "participant_key \<equiv> (\<lambda>p. (p_conversation_id p, p_user_id p))"

abbreviation contact_key :: "contact \<Rightarrow> string \<times> string" where
  "contact_key \<equiv> (\<lambda>k. (k_user_id k, k_contact_id k))"

section \<open>Errors and column types\<close>

datatype pg_error =
  UniqueViolation
| ForeignKeyViolation
| NotNullViolation
| StringTooLong
| InvalidText
| NoArbiterIndex

text \<open>Text columns reject a zero byte; \<open>VARCHAR(n)\<close> rejects a longer text unless only
  spaces are lost.\<close>

definition pg_text :: "string \<Rightarrow> pg_error + string" where
  "pg_text s = (if list_ex (\<lambda>c. (of_char c :: nat) = 0) s then Inl InvalidText else Inr s)"

definition varchar :: "nat \<Rightarrow> string \<Rightarrow> pg_error + string" where
  "varchar n s = ebind (pg_text s) (\<lambda>s.
     if length s \<le> n then Inr s
     else if list_all (\<lambda>c. c = CHR '' '') (drop n s) then Inr (take n s)
     else Inl StringTooLong)"

text \<open>A nullable column.\<close>

primrec nullable :: "('a \<Rightarrow> pg_error + 'b) \<Rightarrow> 'a option \<Rightarrow> pg_error + 'b option" where
  "nullable f None = Inr None"
| "nullable f (Some a) = ebind (f a) (\<lambda>b. Inr (Some b))"

primrec not_null :: "'a option \<Rightarrow> pg_error + 'a" where
  "not_null None = Inl NotNullViolation"
| "not_null (Some a) = Inr a"

definition uuid_param :: "externals \<Rightarrow> string \<Rightarrow> pg_error + string" where
  "uuid_param E s = (case pg_uuid E s of None \<Rightarrow> Inl InvalidText | Some u \<Rightarrow> Inr u)"

section \<open>Statements\<close>

type_synonym 'a stmt = "timestamp \<Rightarrow> db \<Rightarrow> pg_error + 'a \<times> db"

definition stmt_return :: "'a \<Rightarrow> 'a stmt" where
  "stmt_return a now d = Inr (a, d)"

definition stmt_bind :: "'a stmt \<Rightarrow> ('a \<Rightarrow> 'b stmt) \<Rightarrow> 'b stmt" where
  "stmt_bind m k now d = (case m now d of Inl e \<Rightarrow> Inl e | Inr (a, d') \<Rightarrow> k a now d')"

definition select_stmt :: "(timestamp \<Rightarrow> db \<Rightarrow> 'a) \<Rightarrow> 'a stmt" where
  "select_stmt f now d = Inr (f now d, d)"

definition exec_stmt :: "(timestamp \<Rightarrow> db \<Rightarrow> db) \<Rightarrow> unit stmt" where
  "exec_stmt f now d = Inr ((), f now d)"

text \<open>Reading a parameter of type \<open>UUID\<close> before the statement runs.\<close>

definition with_uuid :: "externals \<Rightarrow> string \<Rightarrow> (string \<Rightarrow> 'a stmt) \<Rightarrow> 'a stmt" where
  "with_uuid E s k now d = ebind (uuid_param E s) (\<lambda>u. k u now d)"

fun stmt_for_each :: "'x list \<Rightarrow> ('x \<Rightarrow> unit stmt) \<Rightarrow> unit stmt" where
  "stmt_for_each [] body = stmt_return ()"
| "stmt_for_each (x # xs) body = stmt_bind (body x) (\<lambda>_. stmt_for_each xs body)"

section \<open>Insertion under the constraints\<close>

definition insert_user :: "user \<Rightarrow> unit stmt" where
  "insert_user u now d =
     ebind (varchar 66 (u_chhaya_id u)) (\<lambda>chhaya_id.
     ebind (varchar 100 (u_display_name u)) (\<lambda>display_name.
     ebind (varchar 66 (u_public_key u)) (\<lambda>public_key.
     ebind (pg_text (u_recovery_phrase_hash u)) (\<lambda>recovery_phrase_hash.
     if has_key u_id (u_id u) (users d) \<or> has_key u_chhaya_id chhaya_id (users d)
     then Inl UniqueViolation
     else Inr ((), d\<lparr>users := users d @ [u\<lparr>u_chhaya_id := chhaya_id,
            u_display_name := display_name, u_public_key := public_key,
            u_recovery_phrase_hash := recovery_phrase_hash\<rparr>]\<rparr>)))))"

definition insert_contact :: "contact \<Rightarrow> unit stmt" where
  "insert_contact k now d =
     ebind (varchar 100 (k_display_name k)) (\<lambda>display_name.
     if has_key contact_key (contact_key k) (contacts d) then Inl UniqueViolation
     else if \<not> has_key u_id (k_user_id k) (users d) \<or> \<not> has_key u_id (k_contact_id k) (users d)
     then Inl ForeignKeyViolation
     else Inr ((), d\<lparr>contacts := contacts d @ [k\<lparr>k_display_name := display_name\<rparr>]\<rparr>))"

definition insert_conversation :: "conversation \<Rightarrow> unit stmt" where
  "insert_conversation c now d =
     ebind (varchar 20 (c_type c)) (\<lambda>type.
     ebind (nullable (varchar 100) (c_name c)) (\<lambda>name.
     ebind (nullable pg_text (c_avatar_url c)) (\<lambda>avatar_url.
     if has_key c_id (c_id c) (conversations d) then Inl UniqueViolation
     else if \<not> has_key u_id (c_created_by c) (users d) then Inl ForeignKeyViolation
     else Inr ((), d\<lparr>conversations := conversations d @
            [c\<lparr>c_type := type, c_name := name, c_avatar_url := avatar_url\<rparr>]\<rparr>))))"

definition insert_participant :: "participant \<Rightarrow> unit stmt" where
  "insert_participant p now d =
     (if has_key participant_key (participant_key p) (participants d) then Inl UniqueViolation
      else if \<not> has_key c_id (p_conversation_id p) (conversations d) \<or>
              \<not> has_key u_id (p_user_id p) (users d) then Inl ForeignKeyViolation
      else Inr ((), d\<lparr>participants := participants d @ [p]\<rparr>))"

text \<open>\<open>INSERT INTO messages ... ON CONFLICT (id) DO NOTHING RETURNING *\<close>\<close>

definition message_row :: "message \<Rightarrow> pg_error + message" where
  "message_row m =
     ebind (pg_text (m_content m)) (\<lambda>content.
     ebind (varchar 20 (m_message_type m)) (\<lambda>message_type.
     ebind (nullable pg_text (m_media_url m)) (\<lambda>media_url.
     Inr (m\<lparr>m_content := content, m_message_type := message_type, m_media_url := media_url\<rparr>))))"

definition insert_message_or_nothing :: "message \<Rightarrow> message list stmt" where
  "insert_message_or_nothing m now d =
     ebind (message_row m) (\<lambda>row.
     if has_key m_id (m_id row) (messages d) then Inr ([], d)
     else if \<not> has_key c_id (m_conversation_id row) (conversations d) \<or>
             \<not> has_key u_id (m_sender_id row) (users d) \<or>
             \<not> (case m_reply_to_id row of None \<Rightarrow> True
                 | Some r \<Rightarrow> r = m_id row \<or> has_key m_id r (messages d))
     then Inl ForeignKeyViolation
     else Inr ([row], d\<lparr>messages := messages d @ [row]\<rparr>))"

text \<open>
  \<open>INSERT INTO devices ... ON CONFLICT (id) DO UPDATE SET ... WHERE ...\<close>: the new row
  is checked against the \<open>NOT NULL\<close> columns first, then a conflict on the key updates
  the present row if it passes the \<open>WHERE\<close>.  The result is the number of rows written.
  \<open>None\<close> for the conflict action is a plain \<open>INSERT\<close>.
\<close>

record device_values =
  dv_user_id :: string
  dv_id :: string
  dv_device_name :: "string option"
  dv_platform :: "string option"
  dv_fcm_token :: "string option"
  dv_public_key :: "string option"
  dv_is_linked :: bool

definition device_row :: "device_values \<Rightarrow> timestamp \<Rightarrow> pg_error + device" where
  "device_row v now =
     ebind (nullable (varchar 100) (dv_device_name v)) (\<lambda>device_name.
     ebind (nullable (varchar 20) (dv_platform v)) (\<lambda>platform.
     ebind (nullable pg_text (dv_fcm_token v)) (\<lambda>fcm_token.
     ebind (ebind (not_null (dv_public_key v)) (varchar 66)) (\<lambda>public_key.
     Inr \<lparr>d_id = dv_id v, d_user_id = dv_user_id v, d_device_name = device_name,
           d_platform = platform, d_fcm_token = fcm_token, d_public_key = public_key,
           d_last_active_at = now, d_is_linked = dv_is_linked v, d_created_at = now\<rparr>))))"

definition insert_device ::
  "device_values \<Rightarrow> ((device \<Rightarrow> device \<Rightarrow> bool) \<times> (device \<Rightarrow> device \<Rightarrow> device)) option \<Rightarrow> nat stmt" where
  "insert_device v conflict now d =
     ebind (device_row v now) (\<lambda>excluded.
     if has_key d_id (d_id excluded) (devices d)
     then (case conflict of
             None \<Rightarrow> Inl UniqueViolation
           | Some (wher, upd) \<Rightarrow>
               let hit = (\<lambda>r. d_id r = d_id excluded \<and> wher r excluded) in
               Inr (length (filter hit (devices d)),
                    d\<lparr>devices := update_where hit (\<lambda>r. upd r excluded) (devices d)\<rparr>))
     else if \<not> has_key u_id (d_user_id excluded) (users d) then Inl ForeignKeyViolation
     else Inr (1, d\<lparr>devices := devices d @ [excluded]\<rparr>))"

definition insert_challenge :: "challenge \<Rightarrow> unit stmt" where
  "insert_challenge c now d =
     (if has_key ic_id (ic_id c) (identity_challenges d) then Inl UniqueViolation
      else Inr ((), d\<lparr>identity_challenges := identity_challenges d @ [c]\<rparr>))"

definition insert_session :: "auth_session \<Rightarrow> unit stmt" where
  "insert_session s now d =
     (if has_key as_token_hash (as_token_hash s) (auth_sessions d) then Inl UniqueViolation
      else if \<not> has_key u_id (as_user_id s) (users d) then Inl ForeignKeyViolation
      else Inr ((), d\<lparr>auth_sessions := auth_sessions d @ [s]\<rparr>))"

section \<open>Integrity\<close>

text \<open>What the primary keys, unique constraints and references of the migrations say.\<close>

definition keys_ok :: "db \<Rightarrow> bool" where
  "keys_ok d \<longleftrightarrow>
     distinct (map u_id (users d)) \<and>
     distinct (map u_chhaya_id (users d)) \<and>
     distinct (map contact_key (contacts d)) \<and>
     distinct (map c_id (conversations d)) \<and>
     distinct (map participant_key (participants d)) \<and>
     distinct (map m_id (messages d)) \<and>
     distinct (map d_id (devices d)) \<and>
     distinct (map ic_id (identity_challenges d)) \<and>
     distinct (map as_token_hash (auth_sessions d))"

definition references_ok :: "db \<Rightarrow> bool" where
  "references_ok d \<longleftrightarrow>
     set (map k_user_id (contacts d)) \<subseteq> set (map u_id (users d)) \<and>
     set (map k_contact_id (contacts d)) \<subseteq> set (map u_id (users d)) \<and>
     set (map c_created_by (conversations d)) \<subseteq> set (map u_id (users d)) \<and>
     set (map p_conversation_id (participants d)) \<subseteq> set (map c_id (conversations d)) \<and>
     set (map p_user_id (participants d)) \<subseteq> set (map u_id (users d)) \<and>
     set (map m_conversation_id (messages d)) \<subseteq> set (map c_id (conversations d)) \<and>
     set (map m_sender_id (messages d)) \<subseteq> set (map u_id (users d)) \<and>
     Option.these (set (map m_reply_to_id (messages d))) \<subseteq> set (map m_id (messages d)) \<and>
     set (map d_user_id (devices d)) \<subseteq> set (map u_id (users d)) \<and>
     set (map as_user_id (auth_sessions d)) \<subseteq> set (map u_id (users d))"

definition db_ok :: "db \<Rightarrow> bool" where
  "db_ok d \<longleftrightarrow> keys_ok d \<and> references_ok d"

definition keeps :: "(db \<Rightarrow> bool) \<Rightarrow> 'a stmt \<Rightarrow> bool" where
  "keeps I q \<longleftrightarrow> (\<forall>now d r d'. I d \<longrightarrow> q now d = Inr (r, d') \<longrightarrow> I d')"

named_theorems keeps_intros \<open>statements that keep an invariant\<close>

lemma keepsI: "(\<And>now d r d'. I d \<Longrightarrow> q now d = Inr (r, d') \<Longrightarrow> I d') \<Longrightarrow> keeps I q"
  by (auto simp: keeps_def)

lemma keepsD: "keeps I q \<Longrightarrow> I d \<Longrightarrow> q now d = Inr (r, d') \<Longrightarrow> I d'"
  by (auto simp: keeps_def)

lemma keeps_return [keeps_intros]: "keeps I (stmt_return a)"
  by (auto simp: keeps_def stmt_return_def)

lemma keeps_bind [keeps_intros]: "keeps I m \<Longrightarrow> (\<And>a. keeps I (k a)) \<Longrightarrow> keeps I (stmt_bind m k)"
proof (rule keepsI)
  fix now d r d'
  assume m: "keeps I m" and k: "\<And>a. keeps I (k a)"
    and "I d" and "stmt_bind m k now d = Inr (r, d')"
  then obtain a d1 where "m now d = Inr (a, d1)" and "k a now d1 = Inr (r, d')"
    by (auto simp: stmt_bind_def split: sum.splits prod.splits)
  with m k \<open>I d\<close> show "I d'" by (blast dest: keepsD)
qed

lemma keeps_select [keeps_intros]: "keeps I (select_stmt f)"
  by (auto simp: keeps_def select_stmt_def)

lemma keeps_exec [keeps_intros]: "(\<And>now d. I d \<Longrightarrow> I (f now d)) \<Longrightarrow> keeps I (exec_stmt f)"
  by (auto simp: keeps_def exec_stmt_def)

lemma keeps_with_uuid [keeps_intros]: "(\<And>u. keeps I (k u)) \<Longrightarrow> keeps I (with_uuid E s k)"
  by (auto simp: keeps_def with_uuid_def)

lemma keeps_for_each [keeps_intros]: "(\<And>x. keeps I (body x)) \<Longrightarrow> keeps I (stmt_for_each xs body)"
  by (induction xs) (auto intro: keeps_intros)

lemmas insert_defs = insert_user_def insert_contact_def insert_conversation_def
  insert_participant_def insert_message_or_nothing_def insert_device_def insert_challenge_def
  insert_session_def

lemma db_ok_empty: "db_ok empty_db"
  by (simp add: db_ok_def keys_ok_def references_ok_def empty_db_def)

lemma device_row_Inr:
  "device_row v now = Inr x \<Longrightarrow>
   d_id x = dv_id v \<and> d_user_id x = dv_user_id v \<and> dv_public_key v \<noteq> None"
  by (cases "dv_public_key v") (auto simp: device_row_def)

lemma insert_device_cases:
  assumes "insert_device v conflict now d = Inr (n, d')"
  obtains (new) excluded where "device_row v now = Inr excluded"
      and "d' = d\<lparr>devices := devices d @ [excluded]\<rparr>" and "n = 1"
      and "\<not> has_key d_id (dv_id v) (devices d)" and "has_key u_id (dv_user_id v) (users d)"
  | (old) wher upd excluded where "device_row v now = Inr excluded"
      and "conflict = Some (wher, upd)" and "has_key d_id (dv_id v) (devices d)"
      and "n = length (filter (\<lambda>r. d_id r = dv_id v \<and> wher r excluded) (devices d))"
      and "d' = d\<lparr>devices := update_where (\<lambda>r. d_id r = dv_id v \<and> wher r excluded)
                   (\<lambda>r. upd r excluded) (devices d)\<rparr>"
proof -
  from assms obtain x where x: "device_row v now = Inr x"
    by (auto simp: insert_device_def)
  then have [simp]: "d_id x = dv_id v" "d_user_id x = dv_user_id v"
    by (auto dest: device_row_Inr)
  show thesis
  proof (cases "has_key d_id (dv_id v) (devices d)")
    case True
    with assms x show thesis
      by (auto simp: insert_device_def Let_def split: option.splits intro: old)
  next
    case False
    with assms x show thesis
      by (auto simp: insert_device_def split: if_splits intro: new)
  qed
qed

lemma insert_device_needs_key:
  "dv_public_key v = None \<Longrightarrow> \<exists>e. insert_device v conflict now d = Inl e"
  by (cases "insert_device v conflict now d") (auto simp: insert_device_def dest: device_row_Inr)

lemma insert_user_Inr:
  "insert_user u now d = Inr (r, d') \<Longrightarrow>
   \<exists>row. d' = d\<lparr>users := users d @ [row]\<rparr> \<and> u_id row = u_id u \<and>
     \<not> has_key u_id (u_id row) (users d) \<and> \<not> has_key u_chhaya_id (u_chhaya_id row) (users d)"
  by (auto simp: insert_user_def split: if_splits)

lemma insert_contact_Inr:
  "insert_contact k now d = Inr (r, d') \<Longrightarrow>
   \<exists>row. d' = d\<lparr>contacts := contacts d @ [row]\<rparr> \<and> contact_key row = contact_key k \<and>
     \<not> has_key contact_key (contact_key k) (contacts d) \<and>
     has_key u_id (k_user_id k) (users d) \<and> has_key u_id (k_contact_id k) (users d)"
  by (auto simp: insert_contact_def split: if_splits)

lemma insert_conversation_Inr:
  "insert_conversation c now d = Inr (r, d') \<Longrightarrow>
   \<exists>row. d' = d\<lparr>conversations := conversations d @ [row]\<rparr> \<and> c_id row = c_id c \<and>
     c_created_by row = c_created_by c \<and>
     \<not> has_key c_id (c_id c) (conversations d) \<and> has_key u_id (c_created_by c) (users d)"
  by (auto simp: insert_conversation_def split: if_splits)

lemma insert_participant_Inr:
  "insert_participant p now d = Inr (r, d') \<Longrightarrow>
   d' = d\<lparr>participants := participants d @ [p]\<rparr> \<and>
   \<not> has_key participant_key (participant_key p) (participants d) \<and>
   has_key c_id (p_conversation_id p) (conversations d) \<and> has_key u_id (p_user_id p) (users d)"
  by (auto simp: insert_participant_def split: if_splits)

lemma message_row_Inr:
  "message_row m = Inr row \<Longrightarrow>
   row = m\<lparr>m_message_type := m_message_type row\<rparr>"
  by (cases "m_media_url m") (auto simp: message_row_def pg_text_def split: if_splits)

lemma message_row_same:
  assumes "message_row m = Inr row"
  shows "m_id row = m_id m" and "m_conversation_id row = m_conversation_id m"
    and "m_sender_id row = m_sender_id m" and "m_content row = m_content m"
    and "m_sent_at row = m_sent_at m" and "m_reply_to_id row = m_reply_to_id m"
    and "m_delivered_at row = m_delivered_at m" and "m_read_at row = m_read_at m"
    and "m_is_deleted row = m_is_deleted m"
  by (subst message_row_Inr [OF assms], simp)+

lemma insert_message_cases:
  assumes "insert_message_or_nothing m now d = Inr (rows, d')"
  obtains (new) row where "message_row m = Inr row"
      and "rows = [row]" and "d' = d\<lparr>messages := messages d @ [row]\<rparr>"
      and "\<not> has_key m_id (m_id m) (messages d)"
      and "has_key c_id (m_conversation_id m) (conversations d)"
      and "has_key u_id (m_sender_id m) (users d)"
      and "\<And>r. m_reply_to_id m = Some r \<Longrightarrow> r = m_id m \<or> has_key m_id r (messages d)"
  | (old) "rows = []" and "d' = d" and "has_key m_id (m_id m) (messages d)"
proof -
  from assms obtain row where row: "message_row m = Inr row"
    by (auto simp: insert_message_or_nothing_def)
  with assms show thesis
    by (auto simp: insert_message_or_nothing_def message_row_same split: if_splits option.splits
        intro: new old)
qed

lemma insert_challenge_Inr:
  "insert_challenge c now d = Inr (r, d') \<Longrightarrow>
   d' = d\<lparr>identity_challenges := identity_challenges d @ [c]\<rparr> \<and>
   \<not> has_key ic_id (ic_id c) (identity_challenges d)"
  by (auto simp: insert_challenge_def split: if_splits)

lemma insert_session_Inr:
  "insert_session s now d = Inr (r, d') \<Longrightarrow>
   d' = d\<lparr>auth_sessions := auth_sessions d @ [s]\<rparr> \<and>
   \<not> has_key as_token_hash (as_token_hash s) (auth_sessions d) \<and>
   has_key u_id (as_user_id s) (users d)"
  by (auto simp: insert_session_def split: if_splits)

lemmas integrity_defs = db_ok_def keys_ok_def references_ok_def

lemma keeps_insert_user [keeps_intros]: "keeps db_ok (insert_user u)"
  by (rule keepsI, drule insert_user_Inr)
    (clarsimp simp: integrity_defs has_key_iff subset_insertI2)

lemma keeps_insert_contact [keeps_intros]: "keeps db_ok (insert_contact k)"
  by (rule keepsI, drule insert_contact_Inr)
    (clarsimp simp: integrity_defs has_key_iff subset_insertI2)

lemma keeps_insert_conversation [keeps_intros]: "keeps db_ok (insert_conversation c)"
  by (rule keepsI, drule insert_conversation_Inr)
    (clarsimp simp: integrity_defs has_key_iff subset_insertI2)

lemma keeps_insert_participant [keeps_intros]: "keeps db_ok (insert_participant p)"
  by (rule keepsI, drule insert_participant_Inr)
    (clarsimp simp: integrity_defs has_key_iff subset_insertI2)

lemma keeps_insert_challenge [keeps_intros]: "keeps db_ok (insert_challenge c)"
  by (rule keepsI, drule insert_challenge_Inr)
    (clarsimp simp: integrity_defs has_key_iff subset_insertI2)

lemma keeps_insert_session [keeps_intros]: "keeps db_ok (insert_session s)"
  by (rule keepsI, drule insert_session_Inr)
    (clarsimp simp: integrity_defs has_key_iff subset_insertI2)

lemma keeps_insert_message [keeps_intros]: "keeps db_ok (insert_message_or_nothing m)"
proof (rule keepsI)
  fix now d rows d'
  assume ok: "db_ok d" and "insert_message_or_nothing m now d = Inr (rows, d')"
  from this(2) show "db_ok d'"
  proof (cases rule: insert_message_cases)
    case (new row)
    then have "Option.these (insert (m_reply_to_id m) (m_reply_to_id ` set (messages d)))
        \<subseteq> insert (m_id m) (m_id ` set (messages d))"
      using ok by (cases "m_reply_to_id m")
        (auto simp: integrity_defs has_key_iff these_insert_None these_insert_Some)
    with new ok show ?thesis
      by (simp add: integrity_defs has_key_iff message_row_same)
  qed (use ok in simp)
qed

lemma keeps_insert_device [keeps_intros]:
  assumes "\<And>wher upd r x. conflict = Some (wher, upd) \<Longrightarrow>
      d_id (upd r x) = d_id r \<and> d_user_id (upd r x) = d_user_id r"
  shows "keeps db_ok (insert_device v conflict)"
proof (rule keepsI)
  fix now d n d'
  assume ok: "db_ok d" and "insert_device v conflict now d = Inr (n, d')"
  from this(2) show "db_ok d'"
  proof (cases rule: insert_device_cases)
    case new
    with ok device_row_Inr [OF new(1)] show ?thesis
      by (simp add: integrity_defs has_key_iff)
  next
    case (old wher upd excluded)
    with ok assms show ?thesis
      by (simp add: db_ok_def keys_ok_def references_ok_def map_update_where)
  qed
qed

end
