(* ===== verification/World.thy ===== *)
theory World
  imports Async Database
begin

text \<open>
  The state the server's programs share: the database, the module variables of
  \<open>signaling.ts\<close>, \<open>push.ts\<close> and \<open>onion-relay.ts\<close>, the sockets and what was
  written to them, and the clock.  The clock counts microseconds and serves both
  \<open>NOW()\<close> and \<open>Date.now()\<close>.  The theory also lifts statements to programs
  (\<open>query\<close> and \<open>withTransaction\<close> of \<open>db.ts\<close>) and fixes the HTTP responses.
\<close>

section \<open>State\<close>

text \<open>\<open>SignalingMessage\<close> as the server sends it.\<close>

record signal =
  sg_type :: string
  sg_payload :: json
  sg_from :: string
  sg_to :: "string option"
  sg_timestamp :: nat

text \<open>\<open>ConnectedClient\<close>; the socket of a client is named by the client's id.\<close>

record client =
  cl_id :: string
  cl_user_id :: string
  cl_device_id :: json
  cl_conversation_id :: "json option"
  cl_last_ping :: nat
  cl_session_token :: "json option"

text \<open>A notification handed to \<open>sendPushNotification\<close> and not awaited.\<close>

record push_job =
  pj_user_id :: string
  pj_title :: string
  pj_body :: string
  pj_data :: "(string \<times> string) list"

text \<open>\<open>connections\<close> are the identifiers given out so far, \<open>ping_intervals\<close> those whose heartbeat
  timer is set.\<close>

record world =
  clock :: timestamp
  database :: db
  clients :: "client list"
  user_clients :: "(string \<times> string list) list"
  open_sockets :: "string list"
  connections :: "string list"
  ping_intervals :: "string list"
  frames :: "(string \<times> signal) list"
  push_ready :: bool
  push_jobs :: "push_job list"

definition date_now :: "world \<Rightarrow> nat" where
  "date_now w = clock w div 1000"

section \<open>Exceptions and statements as programs\<close>

datatype exn =
  ZodError
| DbError pg_error
| CryptoError
| TypeError

type_synonym 'a io = "(world, exn, 'a) prog"

primrec lift :: "exn + 'a \<Rightarrow> 'a io" where
  "lift (Inl e) = Throw e"
| "lift (Inr a) = Return a"

text \<open>\<open>schema.parse(...)\<close>\<close>

primrec parsed :: "'a option \<Rightarrow> 'a io" where
  "parsed None = Throw ZodError"
| "parsed (Some a) = Return a"

definition query :: "'a stmt \<Rightarrow> 'a io" where
  "query q = Act (\<lambda>w.
     case q (clock w) (database w) of
       Inl e \<Rightarrow> (Throw (DbError e), w)
     | Inr (result, d) \<Rightarrow> (Return result, w\<lparr>database := d\<rparr>))"

text \<open>
  \<open>withTransaction\<close>: the callback's statements run on the connection's own view, which
  \<open>COMMIT\<close> makes the database; an error rolls back to the database before \<open>BEGIN\<close> and
  is thrown again.  The transaction is one action: its writes become visible together.
\<close>

definition withTransaction :: "'a stmt \<Rightarrow> 'a io" where
  "withTransaction callback = Act (\<lambda>w.
     let before = database w in
     case callback (clock w) before of
       Inr (result, working) \<Rightarrow> (Return result, w\<lparr>database := working\<rparr>)
     | Inl e \<Rightarrow> (Throw (DbError e), w\<lparr>database := before\<rparr>))"

lemma run_lift [run_simps]: "run (lift r) w = (r, w)"
  by (cases r) auto

lemma run_parsed [run_simps]:
  "run (parsed r) w = ((case r of None \<Rightarrow> Inl ZodError | Some a \<Rightarrow> Inr a), w)"
  by (cases r) auto

lemma run_query [run_simps]:
  "run (query q) w =
     (case q (clock w) (database w) of
        Inl e \<Rightarrow> (Inl (DbError e), w)
      | Inr (r, d) \<Rightarrow> (Inr r, w\<lparr>database := d\<rparr>))"
  by (auto simp: query_def run_Act split: sum.splits)

lemma withTransaction_eq_query: "withTransaction q = query q"
  by (simp add: withTransaction_def query_def fun_eq_iff split: sum.splits)

lemma run_withTransaction [run_simps]:
  "run (withTransaction q) w =
     (case q (clock w) (database w) of
        Inl e \<Rightarrow> (Inl (DbError e), w)
      | Inr (r, d) \<Rightarrow> (Inr r, w\<lparr>database := d\<rparr>))"
  by (simp add: withTransaction_eq_query run_query)

lemma guar_lift [guar_intros]: "guar G (lift r)"
  by (cases r) auto

lemma guar_parsed [guar_intros]: "guar G (parsed r)"
  by (cases r) auto

lemma guar_query:
  assumes "\<And>w r d. q (clock w) (database w) = Inr (r, d) \<Longrightarrow> G w (w\<lparr>database := d\<rparr>)"
    and "\<And>w. G w w"
  shows "guar G (query q)"
  unfolding query_def by (rule guar_Act) (auto split: sum.splits intro: assms)

text \<open>A relation on databases, lifted to the state: the guarantee of a statement.\<close>

definition on_db :: "(db \<Rightarrow> db \<Rightarrow> bool) \<Rightarrow> world \<Rightarrow> world \<Rightarrow> bool" where
  "on_db D w w' \<longleftrightarrow> D (database w) (database w')"

definition steps :: "(db \<Rightarrow> db \<Rightarrow> bool) \<Rightarrow> 'a stmt \<Rightarrow> bool" where
  "steps D q \<longleftrightarrow> (\<forall>now d r d'. q now d = Inr (r, d') \<longrightarrow> D d d')"

lemma stepsI: "(\<And>now d r d'. q now d = Inr (r, d') \<Longrightarrow> D d d') \<Longrightarrow> steps D q"
  by (auto simp: steps_def)

lemma stepsD: "steps D q \<Longrightarrow> q now d = Inr (r, d') \<Longrightarrow> D d d'"
  by (auto simp: steps_def)

lemma keeps_steps: "keeps I q \<Longrightarrow> steps (\<lambda>d d'. I d \<longrightarrow> I d') q"
  by (auto simp: keeps_def steps_def)

lemma guar_on_db_query [guar_intros]:
  "steps D q \<Longrightarrow> (\<And>d. D d d) \<Longrightarrow> guar (on_db D) (query q)"
  by (rule guar_query) (auto simp: on_db_def dest: stepsD)

section \<open>HTTP\<close>

record node_view =
  nv_id :: string
  nv_address :: string
  nv_region :: string
  nv_latency_ms :: int
  nv_reliability :: int

record contact_view =
  kv_id :: string
  kv_display_name :: string
  kv_verification_level :: int
  kv_is_blocked :: bool
  kv_created_at :: timestamp
  kv_chhaya_id :: string
  kv_public_key :: string
  kv_last_seen_at :: "timestamp option"

record profile_view =
  pv_id :: string
  pv_chhaya_id :: string
  pv_display_name :: string
  pv_public_key :: string
  pv_biometric_enabled :: bool
  pv_created_at :: timestamp
  pv_last_seen_at :: "timestamp option"

record member_view =
  mv_id :: string
  mv_display_name :: string
  mv_chhaya_id :: string
  mv_public_key :: string

record last_message_view =
  lm_id :: string
  lm_conversation_id :: string
  lm_content :: string
  lm_sender_id :: string
  lm_sent_at :: timestamp
  lm_message_type :: string

record conversation_view =
  vw_id :: string
  vw_type :: string
  vw_name :: "string option"
  vw_avatar_url :: "string option"
  vw_created_at :: timestamp
  vw_updated_at :: timestamp
  vw_participants :: "member_view list"
  vw_last_message :: "last_message_view option"
  vw_unread_count :: nat

record public_challenge =
  pc_challengeId :: string
  pc_serverPublicKey :: string
  pc_nonce :: string
  pc_context :: string

datatype body =
  BError string
| BInvalidInput
| BSuccess
| BChallenge public_challenge
| BSession string string
| BProfile profile_view
| BContact string string string
| BContacts "contact_view list"
| BConversation string
| BConversations "conversation_view list"
| BMessage message
| BMessages "(message \<times> string) list"
| BNodes "node_view list"
| BHealth nat
| BMetrics
| BNoRoute

record response =
  status :: nat
  body :: body

definition reply :: "nat \<Rightarrow> body \<Rightarrow> response io" where
  "reply s b = Return \<lparr>status = s, body = b\<rparr>"

lemma run_reply [run_simps]: "run (reply s b) w = (Inr \<lparr>status = s, body = b\<rparr>, w)"
  by (simp add: reply_def)

lemma guar_reply [guar_intros]: "guar G (reply s b)"
  by (simp add: reply_def)

end
