(* ===== verification/Session.thy ===== *)
theory Session
  imports World
begin

text \<open>
  \<open>session.ts\<close>: salted credentials and opaque session tokens, of which the database
  holds only the hash.
\<close>

section \<open>Credentials\<close>

definition tokenHash :: "externals \<Rightarrow> string \<Rightarrow> string" where
  "tokenHash E token = to_hex (sha256 E token)"

text \<open>\<open>salt\<close> is what \<open>randomBytes(16)\<close> returned.\<close>

definition hashCredential :: "externals \<Rightarrow> bytes \<Rightarrow> string \<Rightarrow> string" where
  "hashCredential E rnd proof =
     (let salt = to_hex rnd
      in ''scrypt:'' @ salt @ '':'' @ to_hex (scrypt E proof salt 32))"

text \<open>Node's \<open>timingSafeEqual\<close> throws on buffers of different lengths.\<close>

definition timingSafeEqual :: "bytes \<Rightarrow> bytes \<Rightarrow> exn + bool" where
  "timingSafeEqual a b = (if length a = length b then Inr (a = b) else Inl CryptoError)"

definition verifyCredential :: "externals \<Rightarrow> string \<Rightarrow> string \<Rightarrow> exn + bool" where
  "verifyCredential E proof stored =
     (case split_on (CHR '':'') stored of
        algorithm # salt # digest # _ \<Rightarrow>
          if algorithm \<noteq> ''scrypt'' \<or> salt = [] \<or> digest = [] \<or> \<not> hex64 digest
          then Inr False
          else timingSafeEqual (scrypt E proof salt 32) (from_hex digest)
      | _ \<Rightarrow> Inr False)"

section \<open>Sessions\<close>

definition session_days :: timestamp where
  "session_days = 30 * 24 * 60 * 60 * 1000000"

definition insert_session_stmt :: "externals \<Rightarrow> string \<Rightarrow> string \<Rightarrow> unit stmt" where
  "insert_session_stmt E token userId now =
     insert_session \<lparr>as_token_hash = tokenHash E token, as_user_id = userId,
                     as_expires_at = now + session_days\<rparr> now"

text \<open>\<open>rnd\<close> is what \<open>randomBytes(32)\<close> returned.\<close>

definition issueSession :: "externals \<Rightarrow> bytes \<Rightarrow> string \<Rightarrow> string io" where
  "issueSession E rnd userId =
     (let token = to_hex rnd in
      await (query (insert_session_stmt E token userId)) (\<lambda>_. Return token))"

definition session_users :: "string \<Rightarrow> timestamp \<Rightarrow> db \<Rightarrow> string list" where
  "session_users h now d =
     [u_id u. s \<leftarrow> auth_sessions d, u \<leftarrow> users d,
        u_id u = as_user_id s \<and> as_token_hash s = h \<and> now < as_expires_at s \<and> u_is_active u]"

definition authenticateToken :: "externals \<Rightarrow> json option \<Rightarrow> string option io" where
  "authenticateToken E token =
     (case token of
        Some (JStr t) \<Rightarrow>
          if \<not> hex64 t then Return None
          else await (query (select_stmt (session_users (tokenHash E t)))) (\<lambda>rows.
                 Return (case rows of [] \<Rightarrow> None | userId # _ \<Rightarrow> Some userId))
      | _ \<Rightarrow> Return None)"

text \<open>The statement of the logout handler.\<close>

definition delete_session :: "string \<Rightarrow> unit stmt" where
  "delete_session h = exec_stmt (\<lambda>now d.
     d\<lparr>auth_sessions := delete_where (\<lambda>s. as_token_hash s = h) (auth_sessions d)\<rparr>)"

section \<open>Properties of credentials\<close>

lemma is_hex_value: "is_hex c \<Longrightarrow> \<exists>n. hex_value c = Some n"
  by (auto simp: is_hex_def hex_chars_def hex_value_def)

lemma from_hex_length_aux: "hex_string (2 * n) s \<Longrightarrow> length (from_hex s) = n"
proof (induction n arbitrary: s)
  case (Suc n)
  then obtain a b t where s: "s = a # b # t" and t: "hex_string (2 * n) t" "is_hex a" "is_hex b"
    by (cases s; cases "tl s") (auto simp: hex_string_def)
  from t(2,3) obtain x y where "hex_value a = Some x" "hex_value b = Some y"
    by (meson is_hex_value)
  with s Suc.IH [OF t(1)] show ?case by simp
qed (auto simp: hex_string_def)

lemma from_hex_length: "hex64 s \<Longrightarrow> length (from_hex s) = 32"
  by (rule from_hex_length_aux) (simp add: hex64_def)

lemma hex64_to_hex [simp]: "length bs = 32 \<Longrightarrow> hex64 (to_hex bs)"
  using hex_string_to_hex [of bs] by (simp add: hex64_def)

lemma verify_hash:
  assumes "externals_ok E" and "rnd \<noteq> []"
  shows "verifyCredential E pf' (hashCredential E rnd pf) =
    Inr (scrypt E pf' (to_hex rnd) 32 = scrypt E pf (to_hex rnd) 32)"
proof -
  note len = externals_okD(2) [OF assms(1)]
  have "split_on (CHR '':'') (hashCredential E rnd pf) =
      [''scrypt'', to_hex rnd, to_hex (scrypt E pf (to_hex rnd) 32)]"
    by (simp add: hashCredential_def Let_def split_on_append split_on_no_sep)
  moreover have "to_hex rnd \<noteq> []" and "to_hex (scrypt E pf (to_hex rnd) 32) \<noteq> []"
    using assms(2) length_to_hex [of rnd] len [of pf "to_hex rnd" 32]
      length_to_hex [of "scrypt E pf (to_hex rnd) 32"] by (auto simp del: length_to_hex)
  ultimately show ?thesis
    by (simp add: verifyCredential_def timingSafeEqual_def len)
qed

lemma verify_total:
  assumes "externals_ok E"
  shows "\<exists>b. verifyCredential E proof stored = Inr b"
  using externals_okD(2) [OF assms]
  by (auto simp: verifyCredential_def timingSafeEqual_def from_hex_length split: list.splits)

section \<open>The session store\<close>

text \<open>
  The abstract store maps the hash of a token to its user and expiry; its events are tokens
  issued, \<open>Inl (h, u, t)\<close>, and revoked, \<open>Inr h\<close>.  What the clients of the session table rely on.  \<open>auth h n d\<close> is the user whom the token
  with hash \<open>h\<close> authenticates at time \<open>n\<close>.
\<close>

fun session_map ::
  "timestamp \<Rightarrow> ('h \<times> 'u \<times> timestamp + 'h) list \<Rightarrow> ('h \<rightharpoonup> 'u \<times> timestamp) \<Rightarrow> ('h \<rightharpoonup> 'u \<times> timestamp)" where
  "session_map life [] m = m"
| "session_map life (Inl (h, u, t) # es) m = session_map life es (m(h \<mapsto> (u, t + life)))"
| "session_map life (Inr h # es) m = session_map life es (m(h := None))"

definition session_at :: "('h \<rightharpoonup> 'u \<times> timestamp) \<Rightarrow> 'h \<Rightarrow> timestamp \<Rightarrow> 'u option" where
  "session_at m h n = (case m h of None \<Rightarrow> None | Some (u, e) \<Rightarrow> if n < e then Some u else None)"

locale session_store =
  fixes issue :: "'h \<Rightarrow> 'u \<Rightarrow> timestamp \<Rightarrow> 'd \<Rightarrow> 'd option"
    and revoke :: "'h \<Rightarrow> 'd \<Rightarrow> 'd"
    and auth :: "'h \<Rightarrow> timestamp \<Rightarrow> 'd \<Rightarrow> 'u option"
    and usable :: "'u \<Rightarrow> 'd \<Rightarrow> bool"
    and life :: timestamp
    and invar :: "'d \<Rightarrow> bool"
  assumes auth_issue: "invar d \<Longrightarrow> issue h u t d = Some d' \<Longrightarrow> usable u d \<Longrightarrow>
            auth h n d' = (if n < t + life then Some u else None)"
    and auth_issue_other: "invar d \<Longrightarrow> issue h u t d = Some d' \<Longrightarrow> h' \<noteq> h \<Longrightarrow>
            auth h' n d' = auth h' n d"
    and auth_revoke: "auth h n (revoke h d) = None"
    and auth_revoke_other: "h' \<noteq> h \<Longrightarrow> auth h' n (revoke h d) = auth h' n d"
    and invar_issue: "invar d \<Longrightarrow> issue h u t d = Some d' \<Longrightarrow> invar d'"
    and invar_revoke: "invar d \<Longrightarrow> invar (revoke h d)"
    and usable_issue: "issue h u t d = Some d' \<Longrightarrow> usable v d' = usable v d"
    and usable_revoke: "usable v (revoke h d) = usable v d"
begin

text \<open>A history of the store.\<close>

fun history :: "('h \<times> 'u \<times> timestamp + 'h) list \<Rightarrow> 'd \<Rightarrow> 'd option" where
  "history [] d = Some d"
| "history (Inl (h, u, t) # es) d = Option.bind (issue h u t d) (history es)"
| "history (Inr h # es) d = history es (revoke h d)"

lemma history_invar: "invar d \<Longrightarrow> history es d = Some d' \<Longrightarrow> invar d'"
  by (induction es d rule: history.induct)
    (auto simp: bind_eq_Some_conv intro: invar_issue invar_revoke)

text \<open>A history refines the abstract one.\<close>

lemma history_refines:
  assumes "invar d" and "history es d = Some d'"
    and "\<And>h u t. Inl (h, u, t) \<in> set es \<Longrightarrow> usable u d" and "\<And>h n. auth h n d = session_at m h n"
  shows "auth h n d' = session_at (session_map life es m) h n"
  using assms
proof (induction es arbitrary: d m)
  case (Cons e es)
  show ?case
  proof (cases e)
    case (Inl x)
    obtain h' u t where x: "x = (h', u, t)" by (cases x)
    from Cons.prems(2) obtain d1 where d1: "issue h' u t d = Some d1" "history es d1 = Some d'"
      by (auto simp: Inl x bind_eq_Some_conv)
    have usable: "usable u d" using Cons.prems(3) by (auto simp: Inl x)
    have view: "auth k n d1 = session_at (m(h' \<mapsto> (u, t + life))) k n" for k n
      using Cons.prems(4) auth_issue [OF Cons.prems(1) d1(1) usable]
        auth_issue_other [OF Cons.prems(1) d1(1)]
      by (cases "k = h'") (simp_all add: session_at_def)
    have issued: "usable v d1" if "Inl (k, v, r) \<in> set es" for k v r
      using Cons.prems(3) that usable_issue [OF d1(1)] by auto
    from Cons.IH [OF invar_issue [OF Cons.prems(1) d1(1)] d1(2) issued view] show ?thesis
      unfolding Inl x session_map.simps .
  next
    case (Inr h')
    have view: "auth k n (revoke h' d) = session_at (m(h' := None)) k n" for k n
      using Cons.prems(4) by (cases "k = h'") (simp_all add: session_at_def auth_revoke auth_revoke_other)
    have issued: "usable v (revoke h' d)" if "Inl (k, v, r) \<in> set es" for k v r
      using Cons.prems(3) that by (auto simp: usable_revoke)
    from Cons.prems(2) have "history es (revoke h' d) = Some d'" by (simp add: Inr)
    from Cons.IH [OF invar_revoke [OF Cons.prems(1)] this issued view] show ?thesis
      unfolding Inr session_map.simps .
  qed
qed simp

text \<open>A token no event names authenticates as before.\<close>

lemma history_other:
  assumes "invar d" and "history es d = Some d'"
    and "\<And>u t. Inl (h, u, t) \<notin> set es" and "Inr h \<notin> set es"
  shows "auth h n d' = auth h n d"
  using assms
proof (induction es d rule: history.induct)
  case (2 h' u t es d)
  then obtain d1 where d1: "issue h' u t d = Some d1" "history es d1 = Some d'"
    by (auto simp: bind_eq_Some_conv)
  with 2 have "auth h n d' = auth h n d1" by (auto intro: invar_issue)
  moreover from 2 have "h \<noteq> h'" by auto
  ultimately show ?case using d1(1) 2(2) by (simp add: auth_issue_other)
next
  case (3 h' es d)
  then have "auth h n d' = auth h n (revoke h' d)" by (auto intro: invar_revoke)
  with 3 show ?case by (auto simp: auth_revoke_other)
qed auto

text \<open>A revoked token stays dead until the same token is issued again.\<close>

lemma revoked_stays_dead:
  assumes "invar d" and "history es (revoke h d) = Some d'" and "\<And>u t. Inl (h, u, t) \<notin> set es"
  shows "auth h n d' = None"
  using assms
proof (induction es arbitrary: d d' rule: rev_induct)
  case Nil
  then show ?case using auth_revoke [of h n d] by simp
next
  case (snoc e es)
  have split: "history (xs @ [e]) d0 = Option.bind (history xs d0) (history [e])" for xs d0
    by (induction xs d0 rule: history.induct) (auto split: Option.bind_splits)
  from snoc.prems(2) obtain d1 where d1: "history es (revoke h d) = Some d1" "history [e] d1 = Some d'"
    by (auto simp: split bind_eq_Some_conv)
  have dead: "auth h n d1 = None"
    by (rule snoc.IH [OF snoc.prems(1) d1(1)]) (use snoc.prems(3) in auto)
  from snoc.prems(1) d1(1) have inv: "invar d1" by (blast intro: history_invar invar_revoke)
  show ?case
  proof (cases e)
    case (Inl a)
    obtain h' u t where a: "a = (h', u, t)" by (cases a)
    with Inl snoc.prems(3) [of u t] have "h \<noteq> h'" by auto
    with Inl a d1 inv dead show ?thesis by (auto simp: bind_eq_Some_conv auth_issue_other)
  next
    case (Inr h')
    with d1 dead show ?thesis by (cases "h = h'") (auto simp: auth_revoke auth_revoke_other)
  qed
qed

end

section \<open>The model provides the session store\<close>

definition issue_row :: "string \<Rightarrow> string \<Rightarrow> timestamp \<Rightarrow> db \<Rightarrow> db option" where
  "issue_row h userId now d =
     (case insert_session \<lparr>as_token_hash = h, as_user_id = userId,
             as_expires_at = now + session_days\<rparr> now d of
        Inl _ \<Rightarrow> None | Inr (_, d') \<Rightarrow> Some d')"

definition revoke_row :: "string \<Rightarrow> db \<Rightarrow> db" where
  "revoke_row h d =
     d\<lparr>auth_sessions := delete_where (\<lambda>s. as_token_hash s = h) (auth_sessions d)\<rparr>"

definition first_user :: "string list \<Rightarrow> string option" where
  "first_user rows = (case rows of [] \<Rightarrow> None | userId # _ \<Rightarrow> Some userId)"

definition auth_user :: "string \<Rightarrow> timestamp \<Rightarrow> db \<Rightarrow> string option" where
  "auth_user h now d = first_user (session_users h now d)"

definition active_user :: "string \<Rightarrow> db \<Rightarrow> bool" where
  "active_user userId d \<longleftrightarrow> list_ex (\<lambda>u. u_id u = userId \<and> u_is_active u) (users d)"

lemma session_users_append:
  "session_users h n (d\<lparr>auth_sessions := ss @ ts\<rparr>) =
   session_users h n (d\<lparr>auth_sessions := ss\<rparr>) @ session_users h n (d\<lparr>auth_sessions := ts\<rparr>)"
  by (simp add: session_users_def)

lemma session_users_absent: "\<not> has_key as_token_hash h (auth_sessions d) \<Longrightarrow> session_users h n d = []"
  by (auto simp: session_users_def has_key_iff)

lemma session_users_delete:
  "session_users h n (d\<lparr>auth_sessions := delete_where (\<lambda>s. as_token_hash s = h') (auth_sessions d)\<rparr>) =
   (if h = h' then [] else session_users h n d)"
proof -
  have "concat (map f (filter (\<lambda>s. as_token_hash s \<noteq> h') ss)) = concat (map f ss)"
    if "\<And>s. as_token_hash s = h' \<Longrightarrow> f s = []" for f :: "auth_session \<Rightarrow> string list" and ss
    using that by (induction ss) auto
  then show ?thesis
    by (auto simp: session_users_def delete_where_def concat_eq_Nil_conv)
qed

lemma session_users_new:
  assumes "distinct (map u_id (users d))" and "u \<in> set (users d)"
  shows "session_users h n (d\<lparr>auth_sessions := [\<lparr>as_token_hash = h', as_user_id = u_id u,
            as_expires_at = e\<rparr>]\<rparr>) =
    (if h = h' \<and> n < e \<and> u_is_active u then [u_id u] else [])"
proof -
  have "concat (map (\<lambda>x. if u_id x = u_id u \<and> P x then [u_id x] else []) us) =
      map u_id (filter P (filter (\<lambda>x. u_id x = u_id u) us))" for P us
    by (induction us) auto
  note * = this [of "\<lambda>x. h' = h \<and> n < e \<and> u_is_active x" "users d"]
  show ?thesis
    using * filter_key_singleton [OF assms] by (auto simp: session_users_def)
qed

lemma session_users_single:
  assumes "u \<in> set (session_users h n d)"
  shows "\<exists>s \<in> set (auth_sessions d). \<exists>x \<in> set (users d). as_token_hash s = h \<and>
    as_user_id s = u \<and> u_id x = u \<and> u_is_active x \<and> n < as_expires_at s"
  using assms by (auto simp: session_users_def split: if_splits)

interpretation store: session_store issue_row revoke_row auth_user active_user session_days keys_ok
proof
  fix d d' :: db and h h' u t n
  assume ok: "keys_ok d" and issue: "issue_row h u t d = Some d'"
  then have d': "d' = d\<lparr>auth_sessions := auth_sessions d @ [\<lparr>as_token_hash = h, as_user_id = u,
      as_expires_at = t + session_days\<rparr>]\<rparr>"
    and new: "\<not> has_key as_token_hash h (auth_sessions d)" and u: "u \<in> u_id ` set (users d)"
    by (auto simp: issue_row_def has_key_iff split: sum.splits prod.splits dest!: insert_session_Inr)
  from u obtain x where x: "x \<in> set (users d)" "u = u_id x" by auto
  from ok have dist: "distinct (map u_id (users d))" by (simp add: keys_ok_def)
  have rows: "session_users k n d' = session_users k n d @
      (if k = h \<and> n < t + session_days \<and> u_is_active x then [u] else [])" for k n
    using session_users_append [where h = k and n = n and d = d and ss = "auth_sessions d"] session_users_new [OF dist x(1)] x(2)
    by (auto simp: d')
  show "keys_ok d'" using ok new by (simp add: d' keys_ok_def has_key_iff)
  show "auth_user h n d' = (if n < t + session_days then Some u else None)" if "active_user u d"
  proof -
    from that obtain y where "y \<in> set (users d)" "u_id y = u" "u_is_active y"
      by (auto simp: active_user_def list_ex_iff)
    with x key_unique [OF dist, of y x] have "u_is_active x" by simp
    then show ?thesis
      by (simp add: auth_user_def rows session_users_absent [OF new] first_user_def)
  qed
  show "auth_user h' n d' = auth_user h' n d" if "h' \<noteq> h"
    using that by (simp add: auth_user_def rows)
next
  show "active_user v d' = active_user v d" if "issue_row h u t d = Some d'" for h u t v and d d' :: db
    using that by (auto simp: issue_row_def active_user_def split: sum.splits prod.splits dest!: insert_session_Inr)
next
  show "active_user v (revoke_row h d) = active_user v d" for v h and d :: db
    by (simp add: active_user_def revoke_row_def)
next
  fix d :: db and h h' n
  show "auth_user h n (revoke_row h d) = None"
    by (simp add: auth_user_def revoke_row_def session_users_delete first_user_def)
  show "auth_user h' n (revoke_row h d) = auth_user h' n d" if "h' \<noteq> h"
    using that by (simp add: auth_user_def revoke_row_def session_users_delete)
  show "keys_ok (revoke_row h d)" if "keys_ok d"
    using that by (simp add: keys_ok_def revoke_row_def distinct_map_delete_where)
qed

section \<open>Session programs\<close>

lemma run_issueSession [run_simps]:
  "run (issueSession E rnd userId) w =
     (case insert_session_stmt E (to_hex rnd) userId (clock w) (database w) of
        Inl e \<Rightarrow> (Inl (DbError e), w)
      | Inr (_, d) \<Rightarrow> (Inr (to_hex rnd), w\<lparr>database := d\<rparr>))"
  by (auto simp: issueSession_def run_simps Let_def split: sum.splits prod.splits)

lemma insert_session_stmt_Inr:
  "insert_session_stmt E t u now d = Inr (r, d') \<Longrightarrow> issue_row (tokenHash E t) u now d = Some d'"
  by (simp add: insert_session_stmt_def issue_row_def)

lemma run_authenticateToken [run_simps]:
  "run (authenticateToken E token) w =
     (Inr (case token of
             Some (JStr t) \<Rightarrow> if hex64 t then auth_user (tokenHash E t) (clock w) (database w) else None
           | _ \<Rightarrow> None), w)"
  by (auto simp: authenticateToken_def run_simps select_stmt_def auth_user_def first_user_def
      split: option.splits json.splits)

lemma keeps_insert_session_stmt [keeps_intros]: "keeps db_ok (insert_session_stmt E t u)"
  using keepsD [OF keeps_insert_session] by (auto simp: keeps_def insert_session_stmt_def)

lemma keeps_delete_session [keeps_intros]: "keeps db_ok (delete_session h)"
  unfolding delete_session_def
  by (rule keeps_exec)
    (auto simp: integrity_defs distinct_map_delete_where set_delete_where)

end
