(* ===== verification/Identity.thy ===== *)
theory Identity
  imports Session
begin

text \<open>
  \<open>identity-proof.ts\<close>: the challenge that binds account registration and login to the
  possession of the identity's private key.  The server keeps only the hash of the
  expected proof, for two minutes and one attempt.
\<close>

text \<open>What the random generators returned for one challenge.\<close>

record challenge_draw =
  cd_private :: bytes
  cd_id :: string
  cd_nonce :: bytes

definition challenge_context ::
  "string \<Rightarrow> string \<Rightarrow> string \<Rightarrow> string \<Rightarrow> string \<Rightarrow> string \<Rightarrow> string" where
  "challenge_context purpose challengeId deviceId publicKey serverPublicKey nonce =
     ''chhaya-auth-v1|'' @ purpose @ ''|'' @ challengeId @ ''|'' @ deviceId @ ''|'' @ publicKey
     @ ''|'' @ serverPublicKey @ ''|'' @ nonce"

text \<open>Node refuses an X25519 key that is not 32 bytes long.\<close>

definition createIdentityChallenge ::
  "externals \<Rightarrow> challenge_draw \<Rightarrow> string \<Rightarrow> string \<Rightarrow> string \<Rightarrow> exn + public_challenge \<times> string" where
  "createIdentityChallenge E draw publicKey deviceId purpose =
     (let peer = from_hex publicKey;
          shared = x25519 E (cd_private draw) peer
      in if length peer \<noteq> 32 then Inl CryptoError
         else if list_all (\<lambda>byte. byte = 0) shared then Inl CryptoError
         else
           let challengeId = cd_id draw;
               serverPublicKey = to_hex (x25519_public E (cd_private draw));
               nonce = to_hex (cd_nonce draw);
               context = challenge_context purpose challengeId deviceId publicKey
                           serverPublicKey nonce;
               expected = to_hex (hmac_sha256 E shared context)
           in Inr (\<lparr>pc_challengeId = challengeId, pc_serverPublicKey = serverPublicKey,
                    pc_nonce = nonce, pc_context = context\<rparr>, tokenHash E expected))"

definition challenge_life :: timestamp where
  "challenge_life = 2 * 60 * 1000000"

definition delete_expired_challenges :: "unit stmt" where
  "delete_expired_challenges = exec_stmt (\<lambda>now d.
     d\<lparr>identity_challenges := delete_where (\<lambda>c. ic_expires_at c \<le> now) (identity_challenges d)\<rparr>)"

definition insert_challenge_stmt ::
  "externals \<Rightarrow> string \<Rightarrow> string \<Rightarrow> string \<Rightarrow> string \<Rightarrow> string \<Rightarrow> unit stmt" where
  "insert_challenge_stmt E challengeId publicKey deviceId purpose proofHash =
     with_uuid E deviceId (\<lambda>device now.
       insert_challenge \<lparr>ic_id = challengeId, ic_public_key = publicKey, ic_device_id = device,
         ic_purpose = purpose, ic_proof_hash = proofHash,
         ic_expires_at = now + challenge_life\<rparr> now)"

definition issueIdentityChallenge ::
  "externals \<Rightarrow> challenge_draw \<Rightarrow> string \<Rightarrow> string \<Rightarrow> string \<Rightarrow> public_challenge io" where
  "issueIdentityChallenge E draw publicKey deviceId purpose =
     await (lift (createIdentityChallenge E draw publicKey deviceId purpose)) (\<lambda>(challenge, proofHash).
     await (query delete_expired_challenges) (\<lambda>_.
     await (query (insert_challenge_stmt E (pc_challengeId challenge) publicKey deviceId purpose
                    proofHash)) (\<lambda>_.
     Return challenge)))"

definition challenge_matches ::
  "string \<Rightarrow> string \<Rightarrow> string \<Rightarrow> string \<Rightarrow> timestamp \<Rightarrow> challenge \<Rightarrow> bool" where
  "challenge_matches challengeId publicKey deviceId purpose now c \<longleftrightarrow>
     ic_id c = challengeId \<and> ic_public_key c = publicKey \<and> ic_device_id c = deviceId \<and>
     ic_purpose c = purpose \<and> now < ic_expires_at c"

text \<open>\<open>DELETE ... RETURNING proof_hash\<close>\<close>

definition take_challenge :: "externals \<Rightarrow> string \<Rightarrow> string \<Rightarrow> string \<Rightarrow> string \<Rightarrow> string list stmt" where
  "take_challenge E challengeId publicKey deviceId purpose =
     with_uuid E challengeId (\<lambda>c. with_uuid E deviceId (\<lambda>device now d.
       let hit = challenge_matches c publicKey device purpose now in
       Inr (map ic_proof_hash (filter hit (identity_challenges d)),
            d\<lparr>identity_challenges := delete_where hit (identity_challenges d)\<rparr>)))"

definition consumeIdentityChallenge ::
  "externals \<Rightarrow> string \<Rightarrow> string \<Rightarrow> string \<Rightarrow> string \<Rightarrow> string \<Rightarrow> bool io" where
  "consumeIdentityChallenge E challengeId publicKey deviceId purpose proof =
     await (query (take_challenge E challengeId publicKey deviceId purpose)) (\<lambda>rows.
     case rows of
       [proof_hash] \<Rightarrow>
         lift (timingSafeEqual (from_hex proof_hash) (from_hex (tokenHash E proof)))
     | _ \<Rightarrow> Return False)"

text \<open>What the client computes from the challenge (\<open>docs/authentication.md\<close>).\<close>

definition client_proof :: "externals \<Rightarrow> bytes \<Rightarrow> public_challenge \<Rightarrow> string" where
  "client_proof E private c =
     to_hex (hmac_sha256 E (x25519 E private (from_hex (pc_serverPublicKey c))) (pc_context c))"

section \<open>Challenges are single-use\<close>

lemma take_challenge_Inr:
  assumes "take_challenge E challengeId publicKey deviceId purpose now d = Inr (hs, d')"
  obtains c device where "pg_uuid E challengeId = Some c" and "pg_uuid E deviceId = Some device"
    and "hs = map ic_proof_hash
           (filter (challenge_matches c publicKey device purpose now) (identity_challenges d))"
    and "d' = d\<lparr>identity_challenges :=
           delete_where (challenge_matches c publicKey device purpose now) (identity_challenges d)\<rparr>"
  using assms
  by (auto simp: take_challenge_def with_uuid_def uuid_param_def Let_def split: option.splits)

lemma take_challenge_gone:
  assumes "keys_ok d" and "hs \<noteq> []"
    and "take_challenge E challengeId publicKey deviceId purpose now d = Inr (hs, d')"
    and "pg_uuid E challengeId = Some c"
  shows "\<not> has_key ic_id c (identity_challenges d')"
  using assms(3)
proof (rule take_challenge_Inr)
  fix c' device
  let ?hit = "challenge_matches c' publicKey device purpose now"
  assume c': "pg_uuid E challengeId = Some c'"
    and hs: "hs = map ic_proof_hash (filter ?hit (identity_challenges d))"
    and d': "d' = d\<lparr>identity_challenges := delete_where ?hit (identity_challenges d)\<rparr>"
  from hs assms(2) obtain x where x: "x \<in> set (identity_challenges d)" "?hit x"
    by (auto simp: filter_empty_conv)
  have "?hit y" if "y \<in> set (identity_challenges d)" "ic_id y = c'" for y
    using key_unique [of ic_id "identity_challenges d" y x] that x assms(1)
    by (auto simp: keys_ok_def challenge_matches_def)
  with c' assms(4) show ?thesis by (auto simp: d' has_key_iff set_delete_where)
qed

lemma take_challenge_absent:
  assumes "pg_uuid E challengeId = Some c" and "\<not> has_key ic_id c (identity_challenges d)"
    and "take_challenge E challengeId publicKey deviceId purpose now d = Inr (hs, d')"
  shows "hs = []"
  using assms(3)
  by (rule take_challenge_Inr)
    (use assms in \<open>auto simp: has_key_iff challenge_matches_def filter_empty_conv\<close>)

lemma take_challenge_length:
  assumes "keys_ok d" and "take_challenge E challengeId publicKey deviceId purpose now d = Inr (hs, d')"
  shows "length hs \<le> 1"
  using assms(2)
proof (rule take_challenge_Inr)
  fix c device
  assume "hs = map ic_proof_hash
           (filter (challenge_matches c publicKey device purpose now) (identity_challenges d))"
  moreover have "challenge_matches c publicKey device purpose now =
      (\<lambda>x. ic_id x = c \<and> (ic_public_key x = publicKey \<and> ic_device_id x = device \<and>
          ic_purpose x = purpose \<and> now < ic_expires_at x))"
    by (auto simp: challenge_matches_def)
  ultimately show ?thesis
    using assms(1) filter_key_length [of ic_id "identity_challenges d" c]
    by (simp add: keys_ok_def)
qed

lemma keeps_delete_expired [keeps_intros]: "keeps db_ok delete_expired_challenges"
  unfolding delete_expired_challenges_def
  by (rule keeps_exec) (simp add: integrity_defs distinct_map_delete_where)

lemma keeps_insert_challenge_stmt [keeps_intros]: "keeps db_ok (insert_challenge_stmt E i k v p h)"
  unfolding insert_challenge_stmt_def
  by (rule keeps_with_uuid) (use keepsD [OF keeps_insert_challenge] in \<open>auto simp: keeps_def\<close>)

lemma keeps_take_challenge [keeps_intros]: "keeps db_ok (take_challenge E i k v p)"
  by (rule keepsI, erule take_challenge_Inr) (simp add: integrity_defs distinct_map_delete_where)

end
