(* ===== verification/Push.thy ===== *)
theory Push
  imports World
begin

text \<open>
  \<open>push.ts\<close>: device tokens, subscriptions and notifications.  Firebase is a parameter:
  \<open>fcm\<close> maps the multicast message to one outcome per token, in the tokens' order, or
  \<open>None\<close> where the promise is rejected.
\<close>

datatype fcm_outcome = Delivered | Failed "string option"

record fcm_message =
  fm_tokens :: "string list"
  fm_title :: string
  fm_body :: string
  fm_data :: "(string \<times> string) list"

type_synonym fcm = "fcm_message \<Rightarrow> fcm_outcome list option"

section \<open>Start-up\<close>

text \<open>\<open>s.replace(/\\n/g, '\n')\<close>: backslash-n becomes a line feed.\<close>

fun unescape_newlines :: "string \<Rightarrow> string" where
  "unescape_newlines (a # b # s) =
     (if a = CHR 0x5C \<and> b = CHR ''n'' then CHR 0x0A # unescape_newlines s
      else a # unescape_newlines (b # s))"
| "unescape_newlines s = s"

definition initPushNotifications ::
  "(string \<Rightarrow> string \<Rightarrow> string \<Rightarrow> bool) \<Rightarrow> string option \<Rightarrow> string option \<Rightarrow> string option \<Rightarrow> world \<Rightarrow> world" where
  "initPushNotifications admin_init projectId clientEmail privateKey w =
     (case (or_null projectId, or_null clientEmail, or_null privateKey) of
        (Some project, Some email, Some key) \<Rightarrow>
          if admin_init project email (unescape_newlines key) then w\<lparr>push_ready := True\<rparr> else w
      | _ \<Rightarrow> w)"

section \<open>Tokens\<close>

text \<open>The statement names no public key, so the new row has none.\<close>

definition registerFCMToken_stmt :: "externals \<Rightarrow> string \<Rightarrow> string \<Rightarrow> string \<Rightarrow> nat stmt" where
  "registerFCMToken_stmt E userId deviceId token =
     with_uuid E deviceId (\<lambda>device.
       insert_device
         \<lparr>dv_user_id = userId, dv_id = device, dv_device_name = None, dv_platform = None,
          dv_fcm_token = Some token, dv_public_key = None, dv_is_linked = False\<rparr>
         (Some (\<lambda>row excluded. True,
                \<lambda>row excluded. row\<lparr>d_fcm_token := d_fcm_token excluded,
                                     d_last_active_at := d_last_active_at excluded\<rparr>)))"

definition registerFCMToken :: "externals \<Rightarrow> string \<Rightarrow> string \<Rightarrow> string \<Rightarrow> unit io" where
  "registerFCMToken E userId deviceId token =
     await (query (registerFCMToken_stmt E userId deviceId token)) (\<lambda>_. Return ())"

definition removeFCMToken :: "externals \<Rightarrow> string \<Rightarrow> string \<Rightarrow> unit io" where
  "removeFCMToken E userId deviceId =
     query (with_uuid E deviceId (\<lambda>device. exec_stmt (\<lambda>now d.
       d\<lparr>devices := update_where (\<lambda>r. d_user_id r = userId \<and> d_id r = device)
                      (\<lambda>r. r\<lparr>d_fcm_token := None\<rparr>) (devices d)\<rparr>)))"

definition user_tokens :: "string \<Rightarrow> db \<Rightarrow> string list" where
  "user_tokens userId d = List.map_filter d_fcm_token (filter (\<lambda>r. d_user_id r = userId) (devices d))"

definition getUserFCMTokens :: "string \<Rightarrow> string list io" where
  "getUserFCMTokens userId = query (select_stmt (\<lambda>now d. user_tokens userId d))"

definition clear_tokens :: "string \<Rightarrow> string list \<Rightarrow> db \<Rightarrow> db" where
  "clear_tokens userId tokens d =
     d\<lparr>devices := update_where
        (\<lambda>r. d_user_id r = userId \<and> (case d_fcm_token r of None \<Rightarrow> False | Some t \<Rightarrow> t \<in> set tokens))
        (\<lambda>r. r\<lparr>d_fcm_token := None\<rparr>) (devices d)\<rparr>"

definition clear_tokens_stmt :: "string \<Rightarrow> string list \<Rightarrow> unit stmt" where
  "clear_tokens_stmt userId tokens = exec_stmt (\<lambda>now d. clear_tokens userId tokens d)"

definition removeFCMTokens :: "string \<Rightarrow> string list \<Rightarrow> unit io" where
  "removeFCMTokens userId tokens = query (clear_tokens_stmt userId tokens)"

section \<open>Notifications\<close>

definition unregistered_code :: string where
  "unregistered_code = ''messaging/registration-token-not-registered''"

definition failed_tokens :: "fcm_outcome list \<Rightarrow> string list \<Rightarrow> string list" where
  "failed_tokens responses tokens =
     map snd (filter (\<lambda>(r, t). r = Failed (Some unregistered_code)) (zip responses tokens))"

definition success_count :: "fcm_outcome list \<Rightarrow> nat" where
  "success_count responses = length (filter (\<lambda>r. r = Delivered) responses)"

definition failure_count :: "fcm_outcome list \<Rightarrow> nat" where
  "failure_count responses = length (filter (\<lambda>r. r \<noteq> Delivered) responses)"

definition sendPushNotification :: "fcm \<Rightarrow> push_job \<Rightarrow> bool io" where
  "sendPushNotification fcm job =
     await (gets push_ready) (\<lambda>messaging.
     if \<not> messaging then Return False
     else try_catch
       (await (getUserFCMTokens (pj_user_id job)) (\<lambda>tokens.
        if tokens = [] then Return False
        else
          case fcm \<lparr>fm_tokens = tokens, fm_title = pj_title job, fm_body = pj_body job,
                    fm_data = pj_data job\<rparr> of
            None \<Rightarrow> Throw TypeError
          | Some responses \<Rightarrow>
              await (if failure_count responses > 0 \<and> failed_tokens responses tokens \<noteq> []
                     then removeFCMTokens (pj_user_id job) (failed_tokens responses tokens)
                     else Return ()) (\<lambda>_.
              Return (success_count responses > 0))))
       (\<lambda>e. Return False))"

definition sendNewMessageNotification ::
  "string \<Rightarrow> string \<Rightarrow> string \<Rightarrow> string \<Rightarrow> string \<Rightarrow> push_job" where
  "sendNewMessageNotification userId senderName preview conversationId messageId =
     \<lparr>pj_user_id = userId, pj_title = senderName, pj_body = preview,
      pj_data = [(''type'', ''new_message''), (''conversationId'', conversationId),
                 (''messageId'', messageId)]\<rparr>"

definition sendCallNotification :: "string \<Rightarrow> string \<Rightarrow> string \<Rightarrow> bool \<Rightarrow> push_job" where
  "sendCallNotification userId callerName callId isVideo =
     \<lparr>pj_user_id = userId, pj_title = callerName @ '' is calling'',
      pj_body = (if isVideo then ''Video call'' else ''Voice call''),
      pj_data = [(''type'', ''incoming_call''), (''callId'', callId),
                 (''isVideo'', if isVideo then ''true'' else ''false'')]\<rparr>"

section \<open>Subscriptions\<close>

text \<open>The column lists of the unique indexes on \<open>push_subscriptions\<close>: the primary key.\<close>

definition push_subscription_indexes :: "string list list" where
  "push_subscription_indexes = [[''id'']]"

text \<open>\<open>ON CONFLICT (columns)\<close> needs a unique index on exactly these columns.\<close>

definition subscribe_stmt :: "push_subscription \<Rightarrow> unit stmt" where
  "subscribe_stmt s now d =
     (if \<not> List.member push_subscription_indexes [''endpoint''] then Inl NoArbiterIndex
      else if has_key s_endpoint (s_endpoint s) (push_subscriptions d)
      then Inr ((), d\<lparr>push_subscriptions := update_where (\<lambda>r. s_endpoint r = s_endpoint s)
             (\<lambda>r. r\<lparr>s_p256dh := s_p256dh s, s_auth := s_auth s\<rparr>) (push_subscriptions d)\<rparr>)
      else if \<not> has_key u_id (s_user_id s) (users d) then Inl ForeignKeyViolation
      else Inr ((), d\<lparr>push_subscriptions := push_subscriptions d @ [s]\<rparr>))"

definition subscribeToPush :: "push_subscription \<Rightarrow> unit io" where
  "subscribeToPush s = query (subscribe_stmt s)"

definition unsubscribeFromPush :: "string \<Rightarrow> string \<Rightarrow> unit io" where
  "unsubscribeFromPush userId endpoint = query (exec_stmt (\<lambda>now d.
     d\<lparr>push_subscriptions := delete_where (\<lambda>s. s_user_id s = userId \<and> s_endpoint s = endpoint)
                               (push_subscriptions d)\<rparr>))"

section \<open>Lemmas\<close>

lemma registerFCMToken_stmt_fails: "\<exists>e. registerFCMToken_stmt E userId deviceId token now d = Inl e"
proof (cases "pg_uuid E deviceId")
  case None
  then show ?thesis by (simp add: registerFCMToken_stmt_def with_uuid_def uuid_param_def)
next
  case (Some device)
  then show ?thesis
    using insert_device_needs_key by (simp add: registerFCMToken_stmt_def with_uuid_def uuid_param_def)
qed

lemma run_registerFCMToken:
  obtains e where "run (registerFCMToken E userId deviceId token) w = (Inl (DbError e), w)"
proof -
  obtain e where "registerFCMToken_stmt E userId deviceId token (clock w) (database w) = Inl e"
    using registerFCMToken_stmt_fails by blast
  then have "run (registerFCMToken E userId deviceId token) w = (Inl (DbError e), w)"
    by (simp add: registerFCMToken_def run_await run_query)
  then show thesis by (rule that)
qed

lemma run_subscribeToPush [run_simps]:
  "run (subscribeToPush s) w = (Inl (DbError NoArbiterIndex), w)"
  by (simp add: subscribeToPush_def run_simps subscribe_stmt_def push_subscription_indexes_def)

fun tokens_of :: "string \<Rightarrow> device list \<Rightarrow> string list" where
  "tokens_of u [] = []"
| "tokens_of u (r # ds) =
     (case d_fcm_token r of None \<Rightarrow> tokens_of u ds
      | Some t \<Rightarrow> if d_user_id r = u then t # tokens_of u ds else tokens_of u ds)"

lemma user_tokens_tokens_of: "user_tokens u d = tokens_of u (devices d)"
proof -
  have "List.map_filter d_fcm_token (filter (\<lambda>r. d_user_id r = u) ds) = tokens_of u ds" for ds
    by (induction ds) (simp_all add: List.map_filter_simps split: option.splits)
  then show ?thesis unfolding user_tokens_def by blast
qed

lemma user_tokens_clear:
  "user_tokens u (clear_tokens userId tokens d) =
     (if u = userId then filter (\<lambda>t. t \<notin> set tokens) (user_tokens u d) else user_tokens u d)"
proof -
  have "tokens_of u (update_where
         (\<lambda>r. d_user_id r = userId \<and> (case d_fcm_token r of None \<Rightarrow> False | Some t \<Rightarrow> t \<in> set tokens))
         (\<lambda>r. r\<lparr>d_fcm_token := None\<rparr>) ds) =
     (if u = userId then filter (\<lambda>t. t \<notin> set tokens) (tokens_of u ds) else tokens_of u ds)" for ds
  proof (induction ds)
    case (Cons r ds)
    then show ?case
      by (cases "d_fcm_token r"; cases "d_user_id r = userId"; cases "u = userId") simp_all
  qed simp
  then show ?thesis by (simp add: user_tokens_tokens_of clear_tokens_def)
qed

lemma keeps_subscribe [keeps_intros]: "keeps db_ok (subscribe_stmt s)"
  by (rule keepsI) (simp add: subscribe_stmt_def push_subscription_indexes_def)

lemma keeps_registerFCMToken [keeps_intros]: "keeps db_ok (registerFCMToken_stmt E u v t)"
  unfolding registerFCMToken_stmt_def by (intro keeps_intros) auto

lemma clear_tokens_ok: "db_ok d \<Longrightarrow> db_ok (clear_tokens userId tokens d)"
  by (simp add: clear_tokens_def integrity_defs map_update_where)

end
