(* ===== verification/Routes_Auth.thy ===== *)
theory Routes_Auth
  imports Identity Push
begin

text \<open>
  The authentication routes of \<open>routes.ts\<close>: the bearer-token middleware, the identity
  challenge, registration, login and logout.
\<close>

text \<open>What the random generators return while one request is handled.\<close>

record draw =
  dr_uuid :: string
  dr_salt :: bytes
  dr_token :: bytes
  dr_challenge :: challenge_draw

section \<open>Middleware\<close>

definition authMiddleware :: "externals \<Rightarrow> string option \<Rightarrow> (string \<Rightarrow> response io) \<Rightarrow> response io" where
  "authMiddleware E authHeader handler =
     (case authHeader of
        None \<Rightarrow> reply 401 (BError ''Missing authorization header'')
      | Some header \<Rightarrow>
          if \<not> starts_with ''Bearer '' header
          then reply 401 (BError ''Missing authorization header'')
          else await (authenticateToken E (Some (JStr (drop 7 header)))) (\<lambda>user.
                 case user of
                   None \<Rightarrow> reply 401 (BError ''Invalid or expired token'')
                 | Some userId \<Rightarrow> handler userId))"

section \<open>Challenge\<close>

definition auth_challenge :: "externals \<Rightarrow> draw \<Rightarrow> json \<Rightarrow> response io" where
  "auth_challenge E draw json =
     await (parsed (challenge_schema E json)) (\<lambda>data.
     try_catch
       (await (issueIdentityChallenge E (dr_challenge draw) (ch_publicKey data) (ch_deviceId data)
                 (ch_purpose data)) (\<lambda>challenge.
        reply 200 (BChallenge challenge)))
       (\<lambda>e. reply 400 (BError ''Invalid identity challenge request'')))"

section \<open>Registration\<close>

definition users_with_chhaya_id :: "string \<Rightarrow> db \<Rightarrow> user list" where
  "users_with_chhaya_id chhayaId d = filter (\<lambda>u. u_chhaya_id u = chhayaId) (users d)"

definition insert_user_stmt ::
  "externals \<Rightarrow> bytes \<Rightarrow> string \<Rightarrow> timestamp \<Rightarrow> register_data \<Rightarrow> unit stmt" where
  "insert_user_stmt E salt userId created data now d =
     (case pg_bytea E (rs_encryptedPrivateKey data) of
        None \<Rightarrow> Inl InvalidText
      | Some key \<Rightarrow>
          insert_user
            \<lparr>u_id = userId, u_chhaya_id = rs_chhayaId data, u_display_name = rs_displayName data,
             u_public_key = rs_publicKey data, u_encrypted_private_key = key,
             u_recovery_phrase_hash = hashCredential E salt (rs_recoveryPhraseHash data),
             u_biometric_enabled = False, u_pin_hash = None, u_panic_pin_hash = None,
             u_created_at = created, u_updated_at = now, u_last_seen_at = None,
             u_is_active = True\<rparr> now d)"

definition register_device_stmt :: "externals \<Rightarrow> string \<Rightarrow> register_data \<Rightarrow> nat stmt" where
  "register_device_stmt E userId data =
     with_uuid E (rs_deviceId data) (\<lambda>device.
       insert_device
         \<lparr>dv_user_id = userId, dv_id = device,
          dv_device_name = Some (or_default (rs_deviceName data) ''Primary''),
          dv_platform = Some (or_default (rs_platform data) ''unknown''),
          dv_fcm_token = or_null (rs_fcmToken data),
          dv_public_key = Some (rs_publicKey data), dv_is_linked = False\<rparr> None)"

definition register_tx :: "externals \<Rightarrow> bytes \<Rightarrow> string \<Rightarrow> timestamp \<Rightarrow> register_data \<Rightarrow> unit stmt" where
  "register_tx E salt userId created data =
     stmt_bind (insert_user_stmt E salt userId created data) (\<lambda>_.
     stmt_bind (register_device_stmt E userId data) (\<lambda>_.
     stmt_return ()))"

definition auth_register :: "externals \<Rightarrow> draw \<Rightarrow> json \<Rightarrow> response io" where
  "auth_register E draw json = try_catch
     (await (parsed (registerSchema E json)) (\<lambda>data.
      await (consumeIdentityChallenge E (rs_challengeId data) (rs_publicKey data) (rs_deviceId data)
               ''register'' (rs_identityProof data)) (\<lambda>proved.
      if \<not> proved then reply 401 (BError ''Identity proof invalid or expired'')
      else
      await (query (select_stmt (\<lambda>now d. users_with_chhaya_id (rs_chhayaId data) d))) (\<lambda>existing.
      if existing \<noteq> [] then reply 409 (BError ''User already exists'')
      else if rs_chhayaId data \<noteq> ''05'' @ rs_publicKey data
      then reply 400 (BError ''Identity does not match key'')
      else
      let userId = dr_uuid draw in
      await (gets date_now) (\<lambda>now.
      await (withTransaction (register_tx E (dr_salt draw) userId (now * 1000) data)) (\<lambda>_.
      await (case or_null (rs_fcmToken data) of
               None \<Rightarrow> Return ()
             | Some token \<Rightarrow> registerFCMToken E userId (rs_deviceId data) token) (\<lambda>_.
      await (issueSession E (dr_token draw) userId) (\<lambda>token.
      reply 201 (BSession userId token)))))))))
     (\<lambda>e. if e = ZodError then reply 400 BInvalidInput
          else reply 500 (BError ''Registration failed''))"

section \<open>Login\<close>

definition login_users :: "string \<Rightarrow> db \<Rightarrow> user list" where
  "login_users chhayaId d = filter (\<lambda>u. u_chhaya_id u = chhayaId \<and> u_is_active u) (users d)"

text \<open>\<open>ON CONFLICT (id) DO UPDATE ... WHERE devices.user_id = EXCLUDED.user_id\<close>\<close>

definition login_device_stmt :: "externals \<Rightarrow> user \<Rightarrow> login_data \<Rightarrow> nat stmt" where
  "login_device_stmt E u data =
     with_uuid E (lg_deviceId data) (\<lambda>device.
       insert_device
         \<lparr>dv_user_id = u_id u, dv_id = device,
          dv_device_name = Some (or_default (lg_deviceName data) ''Device''),
          dv_platform = Some (or_default (lg_platform data) ''unknown''),
          dv_fcm_token = or_null (lg_fcmToken data),
          dv_public_key = Some (u_public_key u), dv_is_linked = False\<rparr>
         (Some (\<lambda>row excluded. d_user_id row = d_user_id excluded,
                \<lambda>row excluded. row\<lparr>d_device_name := d_device_name excluded,
                   d_platform := d_platform excluded, d_fcm_token := d_fcm_token excluded,
                   d_last_active_at := d_last_active_at excluded\<rparr>)))"

definition touch_user_stmt :: "string \<Rightarrow> unit stmt" where
  "touch_user_stmt userId = exec_stmt (\<lambda>now d.
     d\<lparr>users := update_where (\<lambda>u. u_id u = userId) (\<lambda>u. u\<lparr>u_last_seen_at := Some now\<rparr>) (users d)\<rparr>)"

definition auth_login :: "externals \<Rightarrow> draw \<Rightarrow> json \<Rightarrow> response io" where
  "auth_login E draw json = try_catch
     (await (parsed (loginSchema E json)) (\<lambda>data.
      await (consumeIdentityChallenge E (lg_challengeId data) (drop 2 (lg_chhayaId data))
               (lg_deviceId data) ''login'' (lg_identityProof data)) (\<lambda>proved.
      if \<not> proved then reply 401 (BError ''Identity proof invalid or expired'')
      else
      await (query (select_stmt (\<lambda>now d. login_users (lg_chhayaId data) d))) (\<lambda>rows.
      case rows of
        [] \<Rightarrow> reply 401 (BError ''Invalid credentials'')
      | u # _ \<Rightarrow>
        await (lift (verifyCredential E (lg_recoveryPhraseHash data) (u_recovery_phrase_hash u))) (\<lambda>verified.
        if \<not> verified then reply 401 (BError ''Invalid credentials'')
        else
        await (query (login_device_stmt E u data)) (\<lambda>rowCount.
        if rowCount \<noteq> 1 then reply 409 (BError ''Device belongs to another account'')
        else
        await (case or_null (lg_fcmToken data) of
                 None \<Rightarrow> Return ()
               | Some token \<Rightarrow> registerFCMToken E (u_id u) (lg_deviceId data) token) (\<lambda>_.
        await (query (touch_user_stmt (u_id u))) (\<lambda>_.
        await (issueSession E (dr_token draw) (u_id u)) (\<lambda>token.
        reply 200 (BSession (u_id u) token)))))))))) 
     (\<lambda>e. if e = ZodError then reply 400 BInvalidInput
          else reply 500 (BError ''Login failed''))"

section \<open>Logout\<close>

definition auth_logout :: "externals \<Rightarrow> string option \<Rightarrow> response io" where
  "auth_logout E authHeader =
     authMiddleware E authHeader (\<lambda>userId.
     await (query (delete_session (tokenHash E (drop 7 (the authHeader))))) (\<lambda>_.
     reply 200 BSuccess))"

end
