(* ===== verification/Routes_Account.thy ===== *)
theory Routes_Account
  imports Routes_Auth
begin

text \<open>
  The account routes of \<open>routes.ts\<close>: profile, settings, linked devices and push
  subscriptions.
\<close>

definition profile_of :: "user \<Rightarrow> profile_view" where
  "profile_of u =
     \<lparr>pv_id = u_id u, pv_chhaya_id = u_chhaya_id u, pv_display_name = u_display_name u,
      pv_public_key = u_public_key u, pv_biometric_enabled = u_biometric_enabled u,
      pv_created_at = u_created_at u, pv_last_seen_at = u_last_seen_at u\<rparr>"

definition users_me :: "string \<Rightarrow> response io" where
  "users_me userId =
     await (query (select_stmt (\<lambda>now d. filter (\<lambda>u. u_id u = userId) (users d)))) (\<lambda>rows.
     case rows of
       [] \<Rightarrow> reply 404 (BError ''User not found'')
     | u # _ \<Rightarrow> reply 200 (BProfile (profile_of u)))"

text \<open>The \<open>SET\<close> list the handler assembles: one assignment per field that is present.\<close>

definition settings_updates :: "externals \<Rightarrow> settings_data \<Rightarrow> (user \<Rightarrow> user) list" where
  "settings_updates E data =
     (case st_biometricEnabled data of
        None \<Rightarrow> [] | Some b \<Rightarrow> [\<lambda>u. u\<lparr>u_biometric_enabled := b\<rparr>]) @
     (case or_null (st_pin data) of
        None \<Rightarrow> [] | Some pin \<Rightarrow> [\<lambda>u. u\<lparr>u_pin_hash := Some (to_hex (sha256 E pin))\<rparr>]) @
     (case or_null (st_panicPin data) of
        None \<Rightarrow> [] | Some pin \<Rightarrow> [\<lambda>u. u\<lparr>u_panic_pin_hash := Some (to_hex (sha256 E pin))\<rparr>])"

definition settings_stmt :: "string \<Rightarrow> (user \<Rightarrow> user) list \<Rightarrow> unit stmt" where
  "settings_stmt userId updates = exec_stmt (\<lambda>now d.
     d\<lparr>users := update_where (\<lambda>u. u_id u = userId)
        (fold (\<lambda>f u. f u) (updates @ [\<lambda>u. u\<lparr>u_updated_at := now\<rparr>])) (users d)\<rparr>)"

definition users_settings :: "externals \<Rightarrow> json \<Rightarrow> string \<Rightarrow> response io" where
  "users_settings E json userId =
     await (parsed (updateSettingsSchema json)) (\<lambda>data.
     let updates = settings_updates E data in
     await (if updates \<noteq> [] then query (settings_stmt userId updates) else Return ()) (\<lambda>_.
     reply 200 BSuccess))"

definition link_device_stmt :: "externals \<Rightarrow> string \<Rightarrow> link_data \<Rightarrow> nat stmt" where
  "link_device_stmt E userId data =
     with_uuid E (lk_deviceId data) (\<lambda>device.
       insert_device
         \<lparr>dv_user_id = userId, dv_id = device,
          dv_device_name = Some (or_default (lk_deviceName data) ''Linked Device''),
          dv_platform = Some (or_default (lk_platform data) ''unknown''),
          dv_fcm_token = None, dv_public_key = Some (lk_publicKey data), dv_is_linked = True\<rparr>
         (Some (\<lambda>row excluded. d_user_id row = d_user_id excluded,
                \<lambda>row excluded. row\<lparr>d_is_linked := True,
                                     d_last_active_at := d_last_active_at excluded\<rparr>)))"

definition devices_link :: "externals \<Rightarrow> json \<Rightarrow> string \<Rightarrow> response io" where
  "devices_link E json userId =
     await (parsed (linkSchema E json)) (\<lambda>data.
     await (query (link_device_stmt E userId data)) (\<lambda>rowCount.
     if rowCount \<noteq> 1 then reply 409 (BError ''Device belongs to another account'')
     else reply 200 BSuccess))"

text \<open>A JSON value as the text parameter of a statement.\<close>

fun json_text :: "json option \<Rightarrow> string" where
  "json_text (Some (JStr s)) = s"
| "json_text _ = []"

definition push_subscribe :: "json \<Rightarrow> string \<Rightarrow> response io" where
  "push_subscribe json userId =
     (let endpoint = json_prop ''endpoint'' (Some json);
          keys = json_prop ''keys'' (Some json);
          p256dh = json_prop ''p256dh'' keys;
          auth = json_prop ''auth'' keys
      in if \<not> truthy endpoint \<or> \<not> truthy p256dh \<or> \<not> truthy auth
         then reply 400 (BError ''Invalid subscription'')
         else
         await (subscribeToPush \<lparr>s_user_id = userId, s_endpoint = json_text endpoint,
                  s_p256dh = json_text p256dh, s_auth = json_text auth\<rparr>) (\<lambda>_.
         reply 200 BSuccess))"

end
