(* ===== verification/Routes_Social.thy ===== *)
theory Routes_Social
  imports Routes_Auth
begin

text \<open>
  The contact and conversation routes of \<open>routes.ts\<close>.
\<close>

section \<open>Contacts\<close>

definition new_participant :: "string \<Rightarrow> string \<Rightarrow> bool \<Rightarrow> timestamp \<Rightarrow> participant" where
  "new_participant conversationId userId admin now =
     \<lparr>p_conversation_id = conversationId, p_user_id = userId, p_joined_at = now, p_left_at = None,
      p_is_admin = admin, p_last_read_at = Some 0, p_last_active_at = now\<rparr>"

definition insert_contact_stmt :: "string \<Rightarrow> string \<Rightarrow> string \<Rightarrow> unit stmt" where
  "insert_contact_stmt userId contactId displayName now =
     insert_contact \<lparr>k_user_id = userId, k_contact_id = contactId, k_display_name = displayName,
       k_verification_level = 1, k_is_blocked = False, k_created_at = now\<rparr> now"

definition insert_conversation_stmt ::
  "string \<Rightarrow> string \<Rightarrow> string option \<Rightarrow> string option \<Rightarrow> string \<Rightarrow> unit stmt" where
  "insert_conversation_stmt convoId type name avatarUrl userId now =
     insert_conversation \<lparr>c_id = convoId, c_type = type, c_name = name, c_avatar_url = avatarUrl,
       c_created_by = userId, c_created_at = now, c_updated_at = now\<rparr> now"

definition insert_participant_stmt :: "string \<Rightarrow> string \<Rightarrow> bool \<Rightarrow> unit stmt" where
  "insert_participant_stmt convoId userId admin now =
     insert_participant (new_participant convoId userId admin now) now"

definition add_contact_tx :: "string \<Rightarrow> string \<Rightarrow> string \<Rightarrow> string \<Rightarrow> unit stmt" where
  "add_contact_tx convoId userId contactId displayName =
     stmt_bind (insert_contact_stmt userId contactId displayName) (\<lambda>_.
     stmt_bind (insert_conversation_stmt convoId ''direct'' None None userId) (\<lambda>_.
     stmt_bind (insert_participant_stmt convoId userId True) (\<lambda>_.
     insert_participant_stmt convoId contactId False)))"

definition contacts_add :: "draw \<Rightarrow> json \<Rightarrow> string \<Rightarrow> response io" where
  "contacts_add draw json userId =
     await (parsed (addContactSchema json)) (\<lambda>data.
     await (query (select_stmt (\<lambda>now d. users_with_chhaya_id (ct_chhayaId data) d))) (\<lambda>targets.
     case targets of
       [] \<Rightarrow> reply 404 (BError ''User not found'')
     | target # _ \<Rightarrow>
       let contactId = u_id target in
       if contactId = userId then reply 400 (BError ''Cannot add yourself'')
       else
       await (query (select_stmt (\<lambda>now d.
                filter (\<lambda>k. contact_key k = (userId, contactId)) (contacts d)))) (\<lambda>existing.
       if existing \<noteq> [] then reply 409 (BError ''Already contacts'')
       else
       let convoId = dr_uuid draw in
       await (withTransaction (add_contact_tx convoId userId contactId (ct_displayName data))) (\<lambda>_.
       reply 201 (BContact contactId convoId (u_public_key target))))))"

definition contact_rows :: "externals \<Rightarrow> string \<Rightarrow> db \<Rightarrow> contact_view list" where
  "contact_rows E userId d =
     sort_key (\<lambda>v. pg_collation_rank E (kv_display_name v))
       [\<lparr>kv_id = k_contact_id k, kv_display_name = k_display_name k,
         kv_verification_level = k_verification_level k, kv_is_blocked = k_is_blocked k,
         kv_created_at = k_created_at k, kv_chhaya_id = u_chhaya_id u,
         kv_public_key = u_public_key u, kv_last_seen_at = u_last_seen_at u\<rparr>.
        k \<leftarrow> contacts d, u \<leftarrow> users d,
        u_id u = k_contact_id k \<and> k_user_id k = userId \<and> \<not> k_is_blocked k]"

definition contacts_list :: "externals \<Rightarrow> string \<Rightarrow> response io" where
  "contacts_list E userId =
     await (query (select_stmt (\<lambda>now d. contact_rows E userId d))) (\<lambda>rows.
     reply 200 (BContacts rows))"

section \<open>Conversations\<close>

text \<open>\<open>[...new Set(xs)]\<close>: first occurrences, in order.\<close>

fun js_dedup :: "string list \<Rightarrow> string list" where
  "js_dedup [] = []"
| "js_dedup (x # xs) = x # filter (\<lambda>y. y \<noteq> x) (js_dedup xs)"

definition create_conversation_tx ::
  "externals \<Rightarrow> string \<Rightarrow> string \<Rightarrow> conversation_data \<Rightarrow> string list \<Rightarrow> unit stmt" where
  "create_conversation_tx E convoId userId data allParticipants =
     stmt_bind (insert_conversation_stmt convoId (cv_type data) (or_null (cv_name data))
                  (or_null (cv_avatarUrl data)) userId) (\<lambda>_.
     stmt_for_each allParticipants (\<lambda>pid.
       with_uuid E pid (\<lambda>u. insert_participant_stmt convoId u (pid = userId))))"

definition conversations_create :: "externals \<Rightarrow> draw \<Rightarrow> json \<Rightarrow> string \<Rightarrow> response io" where
  "conversations_create E draw json userId =
     await (parsed (createConversationSchema E json)) (\<lambda>data.
     if cv_type data = ''direct'' \<and> length (cv_participantIds data) \<noteq> 1
     then reply 400 (BError ''Direct conversation requires exactly 1 participant'')
     else
     let convoId = dr_uuid draw;
         allParticipants = js_dedup (userId # cv_participantIds data) in
     if length allParticipants \<noteq> length (cv_participantIds data) + 1
     then reply 400 (BError ''Duplicate or self participant'')
     else
     await (withTransaction (create_conversation_tx E convoId userId data allParticipants)) (\<lambda>_.
     reply 201 (BConversation convoId)))"

definition members_of :: "db \<Rightarrow> string \<Rightarrow> member_view list" where
  "members_of d conversationId =
     [\<lparr>mv_id = u_id u, mv_display_name = u_display_name u, mv_chhaya_id = u_chhaya_id u,
       mv_public_key = u_public_key u\<rparr>.
      p \<leftarrow> participants d, u \<leftarrow> users d,
      u_id u = p_user_id p \<and> p_conversation_id p = conversationId \<and> p_left_at p = None]"

text \<open>\<open>ORDER BY sent_at DESC LIMIT 1\<close>\<close>

fun latest :: "message list \<Rightarrow> message option" where
  "latest [] = None"
| "latest (m # ms) =
     (case latest ms of
        None \<Rightarrow> Some m
      | Some n \<Rightarrow> if m_sent_at m < m_sent_at n then Some n else Some m)"

definition last_message_of :: "message \<Rightarrow> last_message_view" where
  "last_message_of m =
     \<lparr>lm_id = m_id m, lm_conversation_id = m_conversation_id m, lm_content = m_content m,
      lm_sender_id = m_sender_id m, lm_sent_at = m_sent_at m, lm_message_type = m_message_type m\<rparr>"

definition unread_count :: "db \<Rightarrow> participant \<Rightarrow> nat" where
  "unread_count d p =
     length (filter (\<lambda>m. m_conversation_id m = p_conversation_id p \<and>
        (case p_last_read_at p of None \<Rightarrow> False | Some r \<Rightarrow> r < m_sent_at m)) (messages d))"

definition conversation_rows :: "string \<Rightarrow> db \<Rightarrow> conversation_view list" where
  "conversation_rows userId d =
     sort_key (\<lambda>v. - int (vw_updated_at v))
       [\<lparr>vw_id = c_id c, vw_type = c_type c, vw_name = c_name c, vw_avatar_url = c_avatar_url c,
         vw_created_at = c_created_at c, vw_updated_at = c_updated_at c,
         vw_participants = members_of d (c_id c),
         vw_last_message = map_option last_message_of
           (latest (filter (\<lambda>m. m_conversation_id m = c_id c \<and> \<not> m_is_deleted m) (messages d))),
         vw_unread_count = unread_count d p\<rparr>.
        c \<leftarrow> conversations d, p \<leftarrow> participants d,
        p_conversation_id p = c_id c \<and> p_user_id p = userId \<and> p_left_at p = None]"

definition conversations_list :: "string \<Rightarrow> response io" where
  "conversations_list userId =
     await (query (select_stmt (\<lambda>now d. conversation_rows userId d))) (\<lambda>rows.
     reply 200 (BConversations rows))"

end
