(* ===== verification/Signaling.thy ===== *)
theory Signaling
  imports Session
begin

text \<open>
  \<open>signaling.ts\<close>: the WebSocket service.  \<open>clients\<close> maps a socket to the account that
  joined on it, \<open>user_clients\<close> an account to its sockets.  The parts of a handler between
  two \<open>await\<close>s are functions on the state; the handlers are programs.
\<close>

section \<open>Sockets\<close>

text \<open>\<open>send\<close> of \<open>signaling.ts\<close>: nothing is written to a socket that is not open.\<close>

definition send :: "string \<Rightarrow> signal \<Rightarrow> world \<Rightarrow> world" where
  "send ws msg w = (if List.member (open_sockets w) ws then w\<lparr>frames := frames w @ [(ws, msg)]\<rparr> else w)"

definition close_socket :: "string \<Rightarrow> world \<Rightarrow> world" where
  "close_socket ws w = w\<lparr>open_sockets := removeAll ws (open_sockets w)\<rparr>"

definition server_signal :: "string \<Rightarrow> json \<Rightarrow> world \<Rightarrow> signal" where
  "server_signal type payload w =
     \<lparr>sg_type = type, sg_payload = payload, sg_from = ''server'', sg_to = None,
      sg_timestamp = date_now w\<rparr>"

definition send_error :: "string \<Rightarrow> string \<Rightarrow> world \<Rightarrow> world" where
  "send_error ws message w =
     send ws (server_signal ''error'' (JObj [(''message'', JStr message)]) w) w"

section \<open>The registry\<close>

definition find_client :: "string \<Rightarrow> world \<Rightarrow> client option" where
  "find_client clientId w = find (\<lambda>c. cl_id c = clientId) (clients w)"

text \<open>\<open>clients.set(clientId, client)\<close>: a present key keeps its place.\<close>

definition set_client :: "client \<Rightarrow> client list \<Rightarrow> client list" where
  "set_client c cs =
     (if has_key cl_id (cl_id c) cs then update_where (\<lambda>x. cl_id x = cl_id c) (\<lambda>_. c) cs else cs @ [c])"

definition add_user_client :: "string \<Rightarrow> string \<Rightarrow> (string \<times> string list) list \<Rightarrow> (string \<times> string list) list" where
  "add_user_client userId clientId m =
     (let m' = (if has_key fst userId m then m else m @ [(userId, [])])
      in update_where (\<lambda>e. fst e = userId) (\<lambda>e. (fst e, List.insert clientId (snd e))) m')"

definition remove_user_client :: "string \<Rightarrow> string \<Rightarrow> (string \<times> string list) list \<Rightarrow> (string \<times> string list) list" where
  "remove_user_client userId clientId m =
     delete_where (\<lambda>e. fst e = userId \<and> snd e = [])
       (update_where (\<lambda>e. fst e = userId) (\<lambda>e. (fst e, removeAll clientId (snd e))) m)"

definition handleDisconnect :: "string \<Rightarrow> world \<Rightarrow> world" where
  "handleDisconnect clientId w =
     (case find_client clientId w of
        None \<Rightarrow> w
      | Some c \<Rightarrow> w\<lparr>clients := delete_where (\<lambda>x. cl_id x = clientId) (clients w),
                     user_clients := remove_user_client (cl_user_id c) clientId (user_clients w)\<rparr>)"

definition user_sockets :: "string \<Rightarrow> world \<Rightarrow> string list" where
  "user_sockets userId w = (case map_of (user_clients w) userId of None \<Rightarrow> [] | Some ids \<Rightarrow> ids)"

definition broadcastToUser :: "string \<Rightarrow> signal \<Rightarrow> world \<Rightarrow> world" where
  "broadcastToUser userId msg w =
     fold (\<lambda>clientId w. case find_client clientId w of None \<Rightarrow> w | Some c \<Rightarrow> send (cl_id c) msg w)
       (user_sockets userId w) w"

definition getConnectedUsers :: "world \<Rightarrow> string list" where
  "getConnectedUsers w = map fst (user_clients w)"

definition register_client :: "client \<Rightarrow> world \<Rightarrow> world" where
  "register_client c w =
     (let w' = w\<lparr>clients := set_client (c\<lparr>cl_last_ping := date_now w\<rparr>) (clients w),
                user_clients := add_user_client (cl_user_id c) (cl_id c) (user_clients w)\<rparr>
      in send (cl_id c) (server_signal ''join''
           (JObj [(''status'', JStr ''ok''), (''clientId'', JStr (cl_id c))]) w') w')"

section \<open>Timers\<close>

text \<open>One tick of a connection's heartbeat; \<open>False\<close> clears the interval.\<close>

definition heartbeat :: "string \<Rightarrow> world \<Rightarrow> bool \<times> world" where
  "heartbeat clientId w =
     (case find_client clientId w of
        None \<Rightarrow> (False, handleDisconnect clientId w)
      | Some c \<Rightarrow>
          if date_now w - cl_last_ping c > 30000 then (False, handleDisconnect clientId w)
          else (True, send clientId (server_signal ''ping'' (JObj []) w) w))"

definition ping_interval :: "string \<Rightarrow> world \<Rightarrow> world" where
  "ping_interval clientId w =
     (if clientId \<in> set (ping_intervals w)
      then (case heartbeat clientId w of
              (True, w') \<Rightarrow> w'
            | (False, w') \<Rightarrow> w'\<lparr>ping_intervals := removeAll clientId (ping_intervals w')\<rparr>)
      else w)"

definition cleanup_one :: "client \<Rightarrow> world \<Rightarrow> world" where
  "cleanup_one c w =
     (if date_now w - cl_last_ping c > 60000
      then handleDisconnect (cl_id c) (close_socket (cl_id c) w) else w)"

definition cleanupStaleClients :: "world \<Rightarrow> world" where
  "cleanupStaleClients w = fold cleanup_one (clients w) w"

section \<open>Connections\<close>

text \<open>A connection gets an identifier and its interval; both handlers of \<open>close\<close> run when it ends.\<close>

definition on_connection :: "string \<Rightarrow> world \<Rightarrow> world" where
  "on_connection clientId w =
     w\<lparr>open_sockets := clientId # open_sockets w, connections := clientId # connections w,
       ping_intervals := clientId # ping_intervals w\<rparr>"

definition on_close :: "string \<Rightarrow> world \<Rightarrow> world" where
  "on_close clientId w =
     (let w' = handleDisconnect clientId (close_socket clientId w)
      in w'\<lparr>ping_intervals := removeAll clientId (ping_intervals w')\<rparr>)"

section \<open>Messages\<close>

text \<open>A parameter of type \<open>UUID\<close> taken from an unchecked JSON value.\<close>

definition with_uuid_json :: "externals \<Rightarrow> json \<Rightarrow> (string \<Rightarrow> 'a stmt) \<Rightarrow> 'a stmt" where
  "with_uuid_json E v k now d =
     (case v of JStr s \<Rightarrow> with_uuid E s k now d | _ \<Rightarrow> Inl InvalidText)"

definition active_member :: "string \<Rightarrow> string \<Rightarrow> participant \<Rightarrow> bool" where
  "active_member conversationId userId p \<longleftrightarrow>
     p_conversation_id p = conversationId \<and> p_user_id p = userId \<and> p_left_at p = None"

definition membership_stmt :: "externals \<Rightarrow> json \<Rightarrow> string \<Rightarrow> nat stmt" where
  "membership_stmt E conversationId userId =
     with_uuid_json E conversationId (\<lambda>c.
       select_stmt (\<lambda>now d. length (filter (active_member c userId) (participants d))))"

definition touch_member_stmt :: "externals \<Rightarrow> json \<Rightarrow> string \<Rightarrow> unit stmt" where
  "touch_member_stmt E conversationId userId =
     with_uuid_json E conversationId (\<lambda>c. exec_stmt (\<lambda>now d.
       d\<lparr>participants := update_where (\<lambda>p. p_conversation_id p = c \<and> p_user_id p = userId)
           (\<lambda>p. p\<lparr>p_last_active_at := now\<rparr>) (participants d)\<rparr>))"

text \<open>Reading a property of \<open>undefined\<close> or \<open>null\<close> throws.\<close>

fun property_source :: "json option \<Rightarrow> json io" where
  "property_source None = Throw TypeError"
| "property_source (Some JNull) = Throw TypeError"
| "property_source (Some v) = Return v"

definition handleJoin :: "externals \<Rightarrow> string \<Rightarrow> json \<Rightarrow> unit io" where
  "handleJoin E clientId msg =
     await (property_source (json_prop ''payload'' (Some msg))) (\<lambda>payload.
     let deviceId = json_prop ''deviceId'' (Some payload);
         conversationId = json_prop ''conversationId'' (Some payload);
         token = json_prop ''token'' (Some payload) in
     await (authenticateToken E token) (\<lambda>user.
     case user of
       None \<Rightarrow> modify (\<lambda>w. close_socket clientId (send_error clientId ''Missing userId or deviceId'' w))
     | Some userId \<Rightarrow>
       if \<not> truthy deviceId
       then modify (\<lambda>w. close_socket clientId (send_error clientId ''Missing userId or deviceId'' w))
       else
       await (query (select_stmt (\<lambda>now d. filter (\<lambda>u. u_id u = userId) (users d)))) (\<lambda>rows.
       if rows = []
       then modify (\<lambda>w. close_socket clientId (send_error clientId ''User not found'' w))
       else
       await (case conversationId of
                Some c \<Rightarrow>
                  if truthy conversationId
                  then await (query (membership_stmt E c userId)) (\<lambda>rowCount.
                         if rowCount \<noteq> 1
                         then await (modify (close_socket clientId)) (\<lambda>_. Return False)
                         else await (query (touch_member_stmt E c userId)) (\<lambda>_. Return True))
                  else Return True
              | None \<Rightarrow> Return True) (\<lambda>admitted.
       if \<not> admitted then Return ()
       else modify (register_client
              \<lparr>cl_id = clientId, cl_user_id = userId, cl_device_id = the deviceId,
               cl_conversation_id = conversationId, cl_last_ping = 0,
               cl_session_token = token\<rparr>)))))"

definition signal_members_stmt :: "externals \<Rightarrow> string \<Rightarrow> string \<Rightarrow> string \<Rightarrow> string list stmt" where
  "signal_members_stmt E conversationId fromUser toUser =
     with_uuid E conversationId (\<lambda>c. with_uuid E toUser (\<lambda>t.
       select_stmt (\<lambda>now d. map p_user_id
         (filter (\<lambda>p. p_conversation_id p = c \<and> (p_user_id p = fromUser \<or> p_user_id p = t) \<and>
                      p_left_at p = None) (participants d)))))"

definition handleWebRTCSignal :: "externals \<Rightarrow> string \<Rightarrow> string \<Rightarrow> json \<Rightarrow> unit io" where
  "handleWebRTCSignal E fromClientId type msg =
     await (gets (find_client fromClientId)) (\<lambda>client.
     case client of
       None \<Rightarrow> Return ()
     | Some fromClient \<Rightarrow>
       let payload = json_prop ''payload'' (Some msg) in
       case (json_prop ''to'' (Some msg), json_prop ''conversationId'' payload,
             json_prop ''callId'' payload) of
         (Some (JStr toUser), Some (JStr conversationId), Some (JStr callId)) \<Rightarrow>
           await (query (signal_members_stmt E conversationId (cl_user_id fromClient) toUser)) (\<lambda>rows.
           if length rows \<noteq> 2 then Return ()
           else modify (\<lambda>w. broadcastToUser toUser
                  \<lparr>sg_type = type, sg_payload = the payload, sg_from = cl_user_id fromClient,
                   sg_to = Some toUser, sg_timestamp = date_now w\<rparr> w))
       | _ \<Rightarrow> Return ())"

text \<open>The \<open>pong\<close> writes to the object \<open>client\<close> refers to, which is the present entry
  unless a join has replaced it.\<close>

definition same_client :: "client \<Rightarrow> client \<Rightarrow> bool" where
  "same_client c x \<longleftrightarrow> x\<lparr>cl_last_ping := 0\<rparr> = c\<lparr>cl_last_ping := 0\<rparr>"

definition handleMessage :: "externals \<Rightarrow> string \<Rightarrow> json \<Rightarrow> unit io" where
  "handleMessage E clientId msg =
     await (gets (find_client clientId)) (\<lambda>client.
     await (case client of
              None \<Rightarrow> Return True
            | Some c \<Rightarrow> await (authenticateToken E (cl_session_token c)) (\<lambda>user.
                         Return (user = Some (cl_user_id c)))) (\<lambda>authentic.
     if \<not> authentic then modify (close_socket clientId)
     else
     await (property_source (Some msg)) (\<lambda>msg.
     case json_prop ''type'' (Some msg) of
       Some (JStr type) \<Rightarrow>
         if type = ''join'' then handleJoin E clientId msg
         else if type \<in> {''offer'', ''answer'', ''ice-candidate'', ''call-end''}
         then handleWebRTCSignal E clientId type msg
         else if type = ''pong''
         then (case client of
                 None \<Rightarrow> Return ()
               | Some c \<Rightarrow> modify (\<lambda>w. w\<lparr>clients := update_where (same_client c)
                   (\<lambda>x. x\<lparr>cl_last_ping := date_now w\<rparr>) (clients w)\<rparr>))
         else Return ()
     | _ \<Rightarrow> Return ())))"

text \<open>The \<open>message\<close> event; \<open>None\<close> is a frame that is not JSON.\<close>

definition on_message :: "externals \<Rightarrow> string \<Rightarrow> json option \<Rightarrow> unit io" where
  "on_message E clientId data =
     try_catch
       (case data of None \<Rightarrow> Throw TypeError | Some msg \<Rightarrow> handleMessage E clientId msg)
       (\<lambda>e. modify (send_error clientId ''Invalid message format''))"

end
