(* ===== verification/Routes_Messages.thy ===== *)
theory Routes_Messages
  imports Routes_Auth Signaling "HOL-Library.Char_ord" "HOL-Library.List_Lexorder"
    "HOL-Library.Product_Lexorder"
begin

text \<open>
  The message routes of \<open>routes.ts\<close>: sending with idempotent retries, paging backwards
  through a conversation, and read receipts.
\<close>

section \<open>Sending\<close>

definition is_member_stmt :: "externals \<Rightarrow> string \<Rightarrow> string \<Rightarrow> participant list stmt" where
  "is_member_stmt E conversationId userId =
     with_uuid E conversationId (\<lambda>c.
       select_stmt (\<lambda>now d. filter (active_member c userId) (participants d)))"

definition new_message ::
  "string \<Rightarrow> string \<Rightarrow> string \<Rightarrow> string option \<Rightarrow> message_data \<Rightarrow> timestamp \<Rightarrow> message" where
  "new_message messageId conversationId userId replyToId data now =
     \<lparr>m_id = messageId, m_conversation_id = conversationId, m_sender_id = userId,
      m_content = ms_content data, m_message_type = ms_messageType data,
      m_media_url = or_null (ms_mediaUrl data), m_media_meta = ms_mediaMeta data,
      m_reply_to_id = replyToId, m_sent_at = now, m_delivered_at = None, m_read_at = None,
      m_is_deleted = False\<rparr>"

definition insert_message_stmt ::
  "externals \<Rightarrow> string \<Rightarrow> string \<Rightarrow> message_data \<Rightarrow> message list stmt" where
  "insert_message_stmt E messageId userId data =
     with_uuid E messageId (\<lambda>m. with_uuid E (ms_conversationId data) (\<lambda>c now d.
       ebind (nullable (uuid_param E) (or_null (ms_replyToId data))) (\<lambda>replyTo.
       insert_message_or_nothing (new_message m c userId replyTo data now) now d)))"

definition select_message_stmt :: "externals \<Rightarrow> string \<Rightarrow> message list stmt" where
  "select_message_stmt E messageId =
     with_uuid E messageId (\<lambda>m. select_stmt (\<lambda>now d. filter (\<lambda>r. m_id r = m) (messages d)))"

definition touch_conversation_stmt :: "externals \<Rightarrow> string \<Rightarrow> unit stmt" where
  "touch_conversation_stmt E conversationId =
     with_uuid E conversationId (\<lambda>c. exec_stmt (\<lambda>now d.
       d\<lparr>conversations := update_where (\<lambda>r. c_id r = c) (\<lambda>r. r\<lparr>c_updated_at := now\<rparr>)
                           (conversations d)\<rparr>))"

definition other_members_stmt :: "externals \<Rightarrow> string \<Rightarrow> string \<Rightarrow> string list stmt" where
  "other_members_stmt E conversationId userId =
     with_uuid E conversationId (\<lambda>c. select_stmt (\<lambda>now d.
       [p_user_id p. p \<leftarrow> participants d, u \<leftarrow> users d,
          u_id u = p_user_id p \<and> p_conversation_id p = c \<and> p_user_id p \<noteq> userId \<and>
          p_left_at p = None]))"

text \<open>One participant is notified: a push that is not awaited, then the broadcast.\<close>

definition notify_one :: "string \<Rightarrow> string \<Rightarrow> string \<Rightarrow> world \<Rightarrow> world" where
  "notify_one conversationId messageId userId w =
     broadcastToUser userId
       (server_signal ''new_message'' (JObj [(''conversationId'', JStr conversationId),
          (''messageId'', JStr messageId)]) w)
       (w\<lparr>push_jobs := push_jobs w @
            [sendNewMessageNotification userId ''Chhaya'' ''New encrypted message''
               conversationId messageId]\<rparr>)"

definition notify_members :: "string \<Rightarrow> string \<Rightarrow> string list \<Rightarrow> world \<Rightarrow> world" where
  "notify_members conversationId messageId ids = fold (notify_one conversationId messageId) ids"

definition messages_send :: "externals \<Rightarrow> draw \<Rightarrow> json \<Rightarrow> string \<Rightarrow> response io" where
  "messages_send E draw json userId =
     await (parsed (sendMessageSchema E json)) (\<lambda>data.
     await (query (is_member_stmt E (ms_conversationId data) userId)) (\<lambda>rows.
     if rows = [] then reply 403 (BError ''Not a participant'')
     else
     let messageId = (case ms_messageId data of Some i \<Rightarrow> i | None \<Rightarrow> dr_uuid draw) in
     await (query (insert_message_stmt E messageId userId data)) (\<lambda>inserted.
     if inserted = [] then
       await (query (select_message_stmt E messageId)) (\<lambda>previous.
       case previous of
         [] \<Rightarrow> reply 409 (BError ''Message identifier conflict'')
       | message # _ \<Rightarrow>
           if m_sender_id message \<noteq> userId \<or>
              m_conversation_id message \<noteq> ms_conversationId data \<or>
              m_content message \<noteq> ms_content data
           then reply 409 (BError ''Message identifier conflict'')
           else reply 200 (BMessage message))
     else
     await (query (touch_conversation_stmt E (ms_conversationId data))) (\<lambda>_.
     await (query (other_members_stmt E (ms_conversationId data) userId)) (\<lambda>others.
     await (modify (notify_members (ms_conversationId data) messageId others)) (\<lambda>_.
     await (query (select_message_stmt E messageId)) (\<lambda>saved.
     case saved of
       [] \<Rightarrow> reply 409 (BError ''Message identifier conflict'')
     | message # _ \<Rightarrow>
         if m_sender_id message \<noteq> userId \<or> m_conversation_id message \<noteq> ms_conversationId data
         then reply 409 (BError ''Message identifier conflict'')
         else reply 201 (BMessage message))))))))"

section \<open>Paging\<close>

text \<open>PostgreSQL compares UUIDs bytewise, which is the order of their canonical texts.\<close>

definition message_key :: "message \<Rightarrow> timestamp \<times> string" where
  "message_key m = (m_sent_at m, m_id m)"

definition page_limit :: "string option \<Rightarrow> nat" where
  "page_limit q = nat (max 1 (min 200 (parse_int_or q 50)))"

text \<open>The lower bounds a page can have: the cursor row's key, a time, or none.  A cursor
  row that is not in the conversation makes the comparison \<open>NULL\<close>: no row qualifies.\<close>

datatype page_bound = NoBound | BeforeTime timestamp | BeforeKey "(timestamp \<times> string) option"

fun below :: "page_bound \<Rightarrow> message \<Rightarrow> bool" where
  "below NoBound m = True"
| "below (BeforeTime t) m = (m_sent_at m < t)"
| "below (BeforeKey None) m = False"
| "below (BeforeKey (Some k)) m = (message_key m < k)"

definition visible :: "string \<Rightarrow> message \<Rightarrow> bool" where
  "visible conversationId m \<longleftrightarrow> m_conversation_id m = conversationId \<and> \<not> m_is_deleted m"

definition page_rows :: "string \<Rightarrow> page_bound \<Rightarrow> nat \<Rightarrow> db \<Rightarrow> message list" where
  "page_rows conversationId bound limit d =
     take limit (rev (sort_key message_key
       (filter (\<lambda>m. visible conversationId m \<and> below bound m) (messages d))))"

definition with_sender :: "db \<Rightarrow> message list \<Rightarrow> (message \<times> string) list" where
  "with_sender d ms = [(m, u_display_name u). m \<leftarrow> ms, u \<leftarrow> users d, u_id u = m_sender_id m]"

definition cursor_key :: "string \<Rightarrow> string \<Rightarrow> db \<Rightarrow> (timestamp \<times> string) option" where
  "cursor_key conversationId beforeId d =
     map_option message_key
       (find (\<lambda>m. m_id m = beforeId \<and> m_conversation_id m = conversationId) (messages d))"

definition page_stmt ::
  "externals \<Rightarrow> string \<Rightarrow> string option \<Rightarrow> string option \<Rightarrow> nat \<Rightarrow> (message \<times> string) list stmt" where
  "page_stmt E conversationId before beforeId limit =
     with_uuid E conversationId (\<lambda>c.
     case or_null beforeId of
       Some i \<Rightarrow> with_uuid E i (\<lambda>b. select_stmt (\<lambda>now d.
                   with_sender d (page_rows c (BeforeKey (cursor_key c b d)) limit d)))
     | None \<Rightarrow>
       (case or_null before of
          Some t \<Rightarrow> (\<lambda>now d. case pg_timestamptz E t of
                       None \<Rightarrow> Inl InvalidText
                     | Some ts \<Rightarrow> Inr (with_sender d (page_rows c (BeforeTime ts) limit d), d))
        | None \<Rightarrow> select_stmt (\<lambda>now d. with_sender d (page_rows c NoBound limit d))))"

definition optional_query :: "(string \<Rightarrow> bool) \<Rightarrow> string option \<Rightarrow> string option option" where
  "optional_query P q =
     (case q of None \<Rightarrow> Some None | Some s \<Rightarrow> if P s then Some (Some s) else None)"

definition messages_page ::
  "externals \<Rightarrow> string \<Rightarrow> string option \<Rightarrow> string option \<Rightarrow> string option \<Rightarrow> string \<Rightarrow> response io" where
  "messages_page E conversationId limitQ beforeQ beforeIdQ userId =
     (let limit = page_limit limitQ in
     await (parsed (optional_query (zod_datetime E) beforeQ)) (\<lambda>before.
     await (parsed (optional_query (zod_uuid E) beforeIdQ)) (\<lambda>beforeId.
     await (query (is_member_stmt E conversationId userId)) (\<lambda>rows.
     if rows = [] then reply 403 (BError ''Not a participant'')
     else
     await (query (page_stmt E conversationId before beforeId limit)) (\<lambda>result.
     reply 200 (BMessages (rev result)))))))"

section \<open>Read receipts\<close>

definition read_allowed_stmt :: "externals \<Rightarrow> string \<Rightarrow> string \<Rightarrow> nat stmt" where
  "read_allowed_stmt E messageId userId =
     with_uuid E messageId (\<lambda>i. select_stmt (\<lambda>now d.
       length [(). m \<leftarrow> messages d, p \<leftarrow> participants d,
         p_conversation_id p = m_conversation_id m \<and> m_id m = i \<and> p_user_id p = userId \<and>
         p_left_at p = None]))"

text \<open>\<open>GREATEST(COALESCE(last_read_at,'epoch'), (SELECT sent_at ...))\<close>; \<open>GREATEST\<close>
  ignores a \<open>NULL\<close>.\<close>

definition advance_read :: "timestamp option \<Rightarrow> participant \<Rightarrow> participant" where
  "advance_read sent p =
     (let seen = (case p_last_read_at p of None \<Rightarrow> 0 | Some t \<Rightarrow> t)
      in p\<lparr>p_last_read_at := Some (case sent of None \<Rightarrow> seen | Some t \<Rightarrow> max seen t)\<rparr>)"

definition read_position_stmt :: "externals \<Rightarrow> string \<Rightarrow> string \<Rightarrow> unit stmt" where
  "read_position_stmt E messageId userId =
     with_uuid E messageId (\<lambda>i. exec_stmt (\<lambda>now d.
       let row = find (\<lambda>m. m_id m = i) (messages d) in
       d\<lparr>participants := update_where
           (\<lambda>p. p_user_id p = userId \<and> Some (p_conversation_id p) = map_option m_conversation_id row)
           (advance_read (map_option m_sent_at row)) (participants d)\<rparr>))"

definition mark_read :: "timestamp \<Rightarrow> message \<Rightarrow> message" where
  "mark_read now m =
     m\<lparr>m_read_at := Some now,
       m_delivered_at := (case m_delivered_at m of None \<Rightarrow> Some now | Some t \<Rightarrow> Some t)\<rparr>"

definition mark_read_stmt :: "externals \<Rightarrow> string \<Rightarrow> string \<Rightarrow> unit stmt" where
  "mark_read_stmt E messageId userId =
     with_uuid E messageId (\<lambda>i. exec_stmt (\<lambda>now d.
       d\<lparr>messages := update_where (\<lambda>m. m_id m = i \<and> m_read_at m = None \<and> m_sender_id m \<noteq> userId)
                       (mark_read now) (messages d)\<rparr>))"

definition messages_read :: "externals \<Rightarrow> string \<Rightarrow> string \<Rightarrow> response io" where
  "messages_read E messageId userId =
     await (query (read_allowed_stmt E messageId userId)) (\<lambda>rowCount.
     if rowCount \<noteq> 1 then reply 403 (BError ''Not a participant'')
     else
     await (query (read_position_stmt E messageId userId)) (\<lambda>_.
     await (query (mark_read_stmt E messageId userId)) (\<lambda>_.
     reply 200 BSuccess)))"

section \<open>Results of the statements\<close>

lemma is_member_stmt_Inr:
  assumes "is_member_stmt E conversationId userId now d = Inr (rows, d')"
  obtains c where "pg_uuid E conversationId = Some c" and "d' = d"
    and "rows = filter (active_member c userId) (participants d)"
  using assms by (auto simp: is_member_stmt_def with_uuid_def uuid_param_def select_stmt_def
      split: option.splits)

lemma insert_message_stmt_Inr:
  assumes "insert_message_stmt E messageId userId data now d = Inr (rows, d')"
  obtains i c r where "pg_uuid E messageId = Some i" and "pg_uuid E (ms_conversationId data) = Some c"
    and "insert_message_or_nothing (new_message i c userId r data now) now d = Inr (rows, d')"
  using assms by (auto simp: insert_message_stmt_def with_uuid_def uuid_param_def split: option.splits)

lemma new_message_simps [simp]:
  "m_id (new_message i c u r data now) = i" "m_conversation_id (new_message i c u r data now) = c"
  "m_sender_id (new_message i c u r data now) = u"
  "m_content (new_message i c u r data now) = ms_content data"
  "m_sent_at (new_message i c u r data now) = now"
  "m_read_at (new_message i c u r data now) = None"
  "m_is_deleted (new_message i c u r data now) = False"
  by (simp_all add: new_message_def)

end
