(* ===== verification/Numbers.thy ===== *)
theory Numbers
  imports Complex_Main Prelude "HOL-Library.Multiset"
begin

text \<open>
  JavaScript numbers: a double as the rational it stands for, an infinity or \<open>NaN\<close>.  Every
  operation rounds its exact result to 53 significant bits, halves to even; the values of
  this program are far from the limits of the exponent, which is left unbounded, and zeros
  have no sign.  The theory also holds \<open>Array.prototype.sort\<close> with a numeric comparator.
\<close>

section \<open>Rounding\<close>

fun bits :: "nat \<Rightarrow> nat" where
  "bits n = (if n = 0 then 0 else Suc (bits (n div 2)))"

declare bits.simps [simp del]

definition pow2 :: "int \<Rightarrow> rat" where
  "pow2 e = (if 0 \<le> e then 2 ^ nat e else 1 / 2 ^ nat (- e))"

text \<open>The exponent \<open>e\<close> with \<open>2^e \<le> |x| < 2^(e+1)\<close>.\<close>

definition exponent :: "rat \<Rightarrow> int" where
  "exponent x =
     (let (p, q) = quotient_of x; e = int (bits (nat \<bar>p\<bar>)) - int (bits (nat q)) in
      if pow2 e \<le> \<bar>x\<bar> then e else e - 1)"

definition round_even :: "rat \<Rightarrow> int" where
  "round_even y =
     (let f = \<lfloor>y\<rfloor>; r = y - of_int f in
      if r < 1 / 2 then f else if r > 1 / 2 then f + 1 else if even f then f else f + 1)"

definition to_double :: "rat \<Rightarrow> rat" where
  "to_double x =
     (if x = 0 then 0 else let u = pow2 (exponent x - 52) in of_int (round_even (x / u)) * u)"

section \<open>Numbers\<close>

datatype js_number = Num rat | Infinite bool | NaN

text \<open>\<open>Infinite True\<close> is the positive infinity.\<close>

fun js_neg :: "js_number \<Rightarrow> js_number" where
  "js_neg (Num x) = Num (- x)"
| "js_neg (Infinite s) = Infinite (\<not> s)"
| "js_neg NaN = NaN"

fun js_add :: "js_number \<Rightarrow> js_number \<Rightarrow> js_number" where
  "js_add (Num x) (Num y) = Num (to_double (x + y))"
| "js_add (Infinite s) (Infinite t) = (if s = t then Infinite s else NaN)"
| "js_add (Infinite s) (Num y) = Infinite s"
| "js_add (Num x) (Infinite t) = Infinite t"
| "js_add _ _ = NaN"

definition js_sub :: "js_number \<Rightarrow> js_number \<Rightarrow> js_number" where
  "js_sub a b = js_add a (js_neg b)"

fun js_mul :: "js_number \<Rightarrow> js_number \<Rightarrow> js_number" where
  "js_mul (Num x) (Num y) = Num (to_double (x * y))"
| "js_mul (Infinite s) (Infinite t) = Infinite (s = t)"
| "js_mul (Infinite s) (Num y) = (if y = 0 then NaN else Infinite (s = (0 < y)))"
| "js_mul (Num x) (Infinite t) = (if x = 0 then NaN else Infinite (t = (0 < x)))"
| "js_mul _ _ = NaN"

fun js_div :: "js_number \<Rightarrow> js_number \<Rightarrow> js_number" where
  "js_div (Num x) (Num y) =
     (if y = 0 then if x = 0 then NaN else Infinite (0 < x) else Num (to_double (x / y)))"
| "js_div (Infinite s) (Num y) = Infinite (s = (0 \<le> y))"
| "js_div (Num x) (Infinite t) = Num 0"
| "js_div _ _ = NaN"

fun js_less :: "js_number \<Rightarrow> js_number \<Rightarrow> bool" where
  "js_less (Num x) (Num y) \<longleftrightarrow> x < y"
| "js_less (Num x) (Infinite t) \<longleftrightarrow> t"
| "js_less (Infinite s) (Num y) \<longleftrightarrow> \<not> s"
| "js_less (Infinite s) (Infinite t) \<longleftrightarrow> \<not> s \<and> t"
| "js_less _ _ \<longleftrightarrow> False"

text \<open>\<open>a <= b\<close>: false where one is \<open>NaN\<close>.\<close>

definition js_leq :: "js_number \<Rightarrow> js_number \<Rightarrow> bool" where
  "js_leq a b \<longleftrightarrow> a \<noteq> NaN \<and> b \<noteq> NaN \<and> \<not> js_less b a"

definition js_min :: "js_number \<Rightarrow> js_number \<Rightarrow> js_number" where
  "js_min a b = (if a = NaN \<or> b = NaN then NaN else if js_less b a then b else a)"

definition js_max :: "js_number \<Rightarrow> js_number \<Rightarrow> js_number" where
  "js_max a b = (if a = NaN \<or> b = NaN then NaN else if js_less a b then b else a)"

section \<open>Sorting\<close>

text \<open>\<open>xs.sort(cmp)\<close>: stable; an element passes those whose comparison with it is positive.\<close>

fun js_insert :: "('x \<Rightarrow> 'x \<Rightarrow> js_number) \<Rightarrow> 'x \<Rightarrow> 'x list \<Rightarrow> 'x list" where
  "js_insert cmp x [] = [x]"
| "js_insert cmp x (y # ys) =
     (if js_less (Num 0) (cmp y x) then x # y # ys else y # js_insert cmp x ys)"

definition js_sort :: "('x \<Rightarrow> 'x \<Rightarrow> js_number) \<Rightarrow> 'x list \<Rightarrow> 'x list" where
  "js_sort cmp xs = fold (js_insert cmp) xs []"

section \<open>Lemmas\<close>

lemma bits_bounds: "0 < n \<Longrightarrow> 2 ^ (bits n - 1) \<le> n \<and> n < 2 ^ bits n"
proof (induction n rule: bits.induct)
  case (1 n)
  show ?case
  proof (cases "n = 1")
    case False
    with 1 have half: "2 ^ (bits (n div 2) - 1) \<le> n div 2 \<and> n div 2 < 2 ^ bits (n div 2)" by simp
    have n: "bits n = Suc (bits (n div 2))" using 1 by (simp add: bits.simps [of n])
    have "bits (n div 2) \<noteq> 0" using half 1(2) False by (cases "bits (n div 2)") auto
    then obtain k where k: "bits (n div 2) = Suc k" by (cases "bits (n div 2)") auto
    have "2 ^ k \<le> n div 2" and "n div 2 < 2 * 2 ^ k" using half k by simp_all
    then have "2 * 2 ^ k \<le> n" and "n < 2 * (2 * 2 ^ k)" by linarith+
    then show ?thesis by (simp add: n k)
  qed (simp add: bits.simps)
qed

lemma pow2_pos [simp]: "0 < pow2 e"
  by (simp add: pow2_def)

lemma pow2_diff: "pow2 (int a - int b) = 2 ^ a / 2 ^ b"
proof (cases "b \<le> a")
  case True
  then show ?thesis by (simp add: pow2_def nat_diff_distrib power_diff)
next
  case False
  then have "nat (- (int a - int b)) = b - a" by simp
  with False show ?thesis by (simp add: pow2_def power_diff field_simps)
qed

lemma pow2_mono: "d \<le> e \<Longrightarrow> pow2 d \<le> pow2 e"
proof -
  assume "d \<le> e"
  obtain a b where d: "d = int a - int b" by (metis int_diff_cases)
  obtain k where "e = d + int k" using \<open>d \<le> e\<close> by (metis zle_iff_zadd)
  then have "e = int (a + k) - int b" using d by simp
  then have "pow2 e = 2 ^ (a + k) / 2 ^ b" using pow2_diff [of "a + k" b] by simp
  with d show ?thesis by (simp add: pow2_diff divide_right_mono power_increasing)
qed

lemma exponent_le: "x \<noteq> 0 \<Longrightarrow> pow2 (exponent x) \<le> \<bar>x\<bar>"
proof -
  assume "x \<noteq> 0"
  obtain p q where pq: "quotient_of x = (p, q)" by (cases "quotient_of x")
  then have q: "0 < q" and x: "x = of_int p / of_int q"
    by (auto dest: quotient_of_denom_pos quotient_of_div)
  with \<open>x \<noteq> 0\<close> have p: "p \<noteq> 0" by auto
  let ?a = "bits (nat \<bar>p\<bar>)" and ?b = "bits (nat q)"
  have "2 ^ (?a - 1) \<le> nat \<bar>p\<bar>" and a: "?a \<noteq> 0" using p bits_bounds [of "nat \<bar>p\<bar>"] by (auto simp: bits.simps)
  then have num: "2 ^ (?a - 1) \<le> (of_int \<bar>p\<bar> :: rat)"
    by (metis (mono_tags, lifting) abs_ge_zero nat_0_le of_int_of_nat_eq of_nat_le_iff of_nat_numeral of_nat_power)
  have "nat q < 2 ^ ?b" using q bits_bounds [of "nat q"] by simp
  then have "of_int q < (2 ^ ?b :: rat)"
    by (metis int_nat_eq nat_less_numeral_power_cancel_iff of_int_less_numeral_power_cancel_iff order.asym q zless_nat_conj)
  then have "2 ^ (?a - 1) / 2 ^ ?b \<le> \<bar>x\<bar>"
    using num q by (simp add: x frac_le)
  moreover have "pow2 (int ?a - int ?b - 1) = 2 ^ (?a - 1) / 2 ^ ?b"
    using a pow2_diff [of "?a - 1" ?b] by (simp add: of_nat_diff algebra_simps)
  ultimately show ?thesis
    by (simp add: exponent_def pq Let_def)
qed

lemma round_even_pos: "1 \<le> y \<Longrightarrow> 1 \<le> round_even y"
  by (auto simp: round_even_def Let_def le_floor_iff)

lemma round_even_neg: "y \<le> - 1 \<Longrightarrow> round_even y \<le> - 1"
proof -
  assume y: "y \<le> - 1"
  then have "\<lfloor>y\<rfloor> \<le> - 1" by linarith
  show ?thesis
  proof (cases "\<lfloor>y\<rfloor> = - 1")
    case True
    with y have "y = - 1" by linarith
    with True show ?thesis by (simp add: round_even_def)
  next
    case False
    with \<open>\<lfloor>y\<rfloor> \<le> - 1\<close> show ?thesis by (auto simp: round_even_def Let_def)
  qed
qed

lemma unit_le: "x \<noteq> 0 \<Longrightarrow> pow2 (exponent x - 52) \<le> \<bar>x\<bar>"
  using exponent_le [of x] pow2_mono [of "exponent x - 52" "exponent x"] by simp

lemma to_double_neg: "x < 0 \<Longrightarrow> to_double x < 0"
proof -
  assume "x < 0"
  then have "x / pow2 (exponent x - 52) \<le> - 1" using unit_le [of x] by (simp add: divide_le_eq)
  from round_even_neg [OF this] \<open>x < 0\<close> show ?thesis by (simp add: to_double_def Let_def mult_neg_pos)
qed

lemma to_double_pos [simp]: "0 < to_double x \<longleftrightarrow> 0 < x"
proof -
  have "0 < to_double x" if "0 < x"
  proof -
    have "1 \<le> x / pow2 (exponent x - 52)" using unit_le [of x] that by (simp add: le_divide_eq)
    from round_even_pos [OF this] that show ?thesis by (simp add: to_double_def Let_def)
  qed
  moreover have "to_double 0 = 0" by (simp add: to_double_def)
  ultimately show ?thesis using to_double_neg by (metis linorder_less_linear order.asym)
qed

lemma to_double_zero [simp]: "to_double x = 0 \<longleftrightarrow> x = 0"
proof
  show "x = 0" if "to_double x = 0"
    using that to_double_pos [of x] to_double_neg [of x] by (cases x "0 :: rat" rule: linorder_cases) simp_all
qed (simp add: to_double_def)

lemma to_double_nonneg [simp]: "0 \<le> to_double x \<longleftrightarrow> 0 \<le> x"
  using to_double_pos [of x] to_double_zero [of x] unfolding le_less by (metis (full_types))

lemma mset_js_insert: "mset (js_insert cmp x ys) = add_mset x (mset ys)"
  by (induction ys) auto

lemma mset_js_sort [simp]: "mset (js_sort cmp xs) = mset xs"
proof -
  have "mset (fold (js_insert cmp) xs ys) = mset xs + mset ys" for ys
    by (induction xs arbitrary: ys) (simp_all add: mset_js_insert)
  then show ?thesis by (simp add: js_sort_def)
qed

lemma set_js_sort [simp]: "set (js_sort cmp xs) = set xs"
  by (metis mset_js_sort set_mset_mset)

text \<open>On numbers the comparator \<open>(a, b) => f(a) - f(b)\<close> sorts as the library does.\<close>

lemma js_compare: "f a = Num (g a) \<Longrightarrow> f b = Num (g b) \<Longrightarrow> js_less (Num 0) (js_sub (f a) (f b)) \<longleftrightarrow> g b < g a"
  by (simp add: js_sub_def)

lemma js_insert_sorted:
  fixes g :: "'x \<Rightarrow> rat"
  assumes "\<And>y. y \<in> set (x # ys) \<Longrightarrow> f y = Num (g y)" and "sorted (map g ys)"
  shows "sorted (map g (js_insert (\<lambda>a b. js_sub (f a) (f b)) x ys)) \<and>
    filter (\<lambda>y. g y = k) (js_insert (\<lambda>a b. js_sub (f a) (f b)) x ys) = filter (\<lambda>y. g y = k) (ys @ [x])"
  using assms
proof (induction ys)
  case (Cons y ys)
  let ?ins = "js_insert (\<lambda>a b. js_sub (f a) (f b)) x"
  have less: "js_less (Num 0) (js_sub (f y) (f x)) \<longleftrightarrow> g x < g y"
    using Cons.prems(1) by (intro js_compare) simp_all
  show ?case
  proof (cases "g x < g y")
    case True
    then have "\<forall>z \<in> set (y # ys). g x < g z" using Cons.prems(2) by auto
    then have "g y \<noteq> g x" and "filter (\<lambda>z. g z = g x) ys = []" by (auto simp: filter_empty_conv)
    then have "filter (\<lambda>z. g z = k) (x # y # ys) = filter (\<lambda>z. g z = k) ((y # ys) @ [x])"
      by (cases "k = g x") simp_all
    moreover have "?ins (y # ys) = x # y # ys" using True less by simp
    moreover have "sorted (map g (x # y # ys))" using True Cons.prems(2) by auto
    ultimately show ?thesis by (simp only:)
  next
    case False
    have "f z = Num (g z)" if "z \<in> set (x # ys)" for z using Cons.prems(1) [of z] that by auto
    from Cons.IH [OF this] Cons.prems(2)
    have IH: "sorted (map g (?ins ys))" "filter (\<lambda>y. g y = k) (?ins ys) = filter (\<lambda>y. g y = k) (ys @ [x])"
      by simp_all
    have "set (?ins ys) = insert x (set ys)"
      using mset_js_insert by (metis set_mset_add_mset_insert set_mset_mset)
    with IH(1) False Cons.prems(2) have "sorted (map g (y # ?ins ys))" by auto
    moreover have "?ins (y # ys) = y # ?ins ys" using False less by simp
    ultimately show ?thesis using IH(2) by simp
  qed
qed simp

lemma js_sort_eq:
  fixes g :: "'x \<Rightarrow> rat"
  assumes "\<And>x. x \<in> set xs \<Longrightarrow> f x = Num (g x)"
  shows "js_sort (\<lambda>a b. js_sub (f a) (f b)) xs = sort_key g xs"
proof -
  let ?ins = "js_insert (\<lambda>a b. js_sub (f a) (f b))"
  have "sorted (map g (fold ?ins xs ys)) \<and>
      filter (\<lambda>y. g y = k) (fold ?ins xs ys) = filter (\<lambda>y. g y = k) (ys @ xs)"
    if "\<And>x. x \<in> set (ys @ xs) \<Longrightarrow> f x = Num (g x)" and "sorted (map g ys)" for k ys
    using that
  proof (induction xs arbitrary: ys)
    case (Cons x xs)
    have "set (?ins x ys) = insert x (set ys)"
      using mset_js_insert [of _ x ys] by (metis set_mset_add_mset_insert set_mset_mset)
    moreover have "sorted (map g (?ins x ys)) \<and> filter (\<lambda>y. g y = k) (?ins x ys) = filter (\<lambda>y. g y = k) (ys @ [x])"
      using Cons.prems by (intro js_insert_sorted) auto
    ultimately show ?case
      using Cons.IH [of "?ins x ys"] Cons.prems by auto
  qed simp
  from this [of "[]"] assms have "sorted (map g (js_sort (\<lambda>a b. js_sub (f a) (f b)) xs))"
    "\<And>k. filter (\<lambda>y. g y = k) (js_sort (\<lambda>a b. js_sub (f a) (f b)) xs) = filter (\<lambda>y. g y = k) xs"
    by (auto simp: js_sort_def)
  then show ?thesis
    by (intro properties_for_sort_key [symmetric]) (simp_all add: eq_commute)
qed

section \<open>Rounding is monotone\<close>

lemma exponent_gr: "x \<noteq> 0 \<Longrightarrow> \<bar>x\<bar> < pow2 (exponent x + 1)"
proof -
  assume "x \<noteq> 0"
  obtain p q where pq: "quotient_of x = (p, q)" by (cases "quotient_of x")
  then have q: "0 < q" and x: "x = of_int p / of_int q"
    by (auto dest: quotient_of_denom_pos quotient_of_div)
  with \<open>x \<noteq> 0\<close> have p: "p \<noteq> 0" by auto
  let ?a = "bits (nat \<bar>p\<bar>)" and ?b = "bits (nat q)"
  have "2 ^ (?b - 1) \<le> nat q" and b: "?b \<noteq> 0" using q bits_bounds [of "nat q"] by (auto simp: bits.simps)
  then have den: "2 ^ (?b - 1) \<le> (of_int q :: rat)"
    using q by (metis (mono_tags, lifting) int_nat_eq of_int_of_nat_eq of_nat_le_iff of_nat_numeral of_nat_power order_less_imp_le)
  have "nat \<bar>p\<bar> < 2 ^ ?a" using p bits_bounds [of "nat \<bar>p\<bar>"] by simp
  then have "of_int \<bar>p\<bar> < (2 ^ ?a :: rat)"
    by (metis abs_ge_zero int_nat_eq nat_less_numeral_power_cancel_iff of_int_less_numeral_power_cancel_iff)
  then have less: "\<bar>x\<bar> < 2 ^ ?a / 2 ^ (?b - 1)"
    using den q by (simp add: x) (rule frac_less, simp_all)
  have "pow2 (int ?a - int ?b + 1) = 2 ^ ?a / 2 ^ (?b - 1)"
    using b pow2_diff [of ?a "?b - 1"] by (simp add: of_nat_diff algebra_simps)
  with less have "\<bar>x\<bar> < pow2 (int ?a - int ?b + 1)" by simp
  then show ?thesis
    by (auto simp: exponent_def pq Let_def)
qed

lemma pow2_add_nat: "pow2 (e + int k) = pow2 e * 2 ^ k"
proof -
  obtain a b where e: "e = int a - int b" by (metis int_diff_cases)
  then have sum: "e + int k = int (a + k) - int b" by simp
  show ?thesis unfolding sum unfolding e pow2_diff by (simp add: power_add)
qed

lemma pow2_less: "pow2 d < pow2 e \<longleftrightarrow> d < e"
proof -
  have step: "pow2 d < pow2 (d + 1)" for d
    using pow2_add_nat [of d 1] by simp
  show ?thesis
  proof (cases "d < e")
    case True
    then have "pow2 (d + 1) \<le> pow2 e" by (intro pow2_mono) simp
    with step [of d] True show ?thesis by simp
  next
    case False
    then have "pow2 e \<le> pow2 d" by (intro pow2_mono) simp
    with False show ?thesis by simp
  qed
qed

lemma exponent_mono: "0 < x \<Longrightarrow> x \<le> y \<Longrightarrow> exponent x \<le> exponent y"
  using exponent_le [of x] exponent_gr [of y] pow2_less [of "exponent x" "exponent y + 1"] by simp

lemma round_even_mono: "x \<le> y \<Longrightarrow> round_even x \<le> round_even y"
proof -
  assume le: "x \<le> y"
  then have floor: "\<lfloor>x\<rfloor> \<le> \<lfloor>y\<rfloor>" by (rule floor_mono)
  have range: "\<lfloor>z\<rfloor> \<le> round_even z \<and> round_even z \<le> \<lfloor>z\<rfloor> + 1" for z
    by (auto simp: round_even_def Let_def)
  show ?thesis
  proof (cases "\<lfloor>x\<rfloor> = \<lfloor>y\<rfloor>")
    case True
    with le show ?thesis by (auto simp: round_even_def Let_def)
  next
    case False
    with floor range [of x] range [of y] show ?thesis by linarith
  qed
qed

lemma round_even_int [simp]: "round_even (of_int k) = k"
  by (simp add: round_even_def Let_def)

text \<open>Integers below \<open>2^53\<close> are doubles.\<close>

lemma to_double_int:
  assumes "\<bar>k\<bar> < 2 ^ 53" shows "to_double (of_int k) = of_int k"
proof (cases "k = 0")
  case False
  let ?e = "exponent (of_int k)"
  have "pow2 ?e \<le> \<bar>of_int k\<bar>" using exponent_le [of "of_int k"] False by simp
  also have "\<dots> < pow2 53" using assms by (simp add: pow2_def)
  finally have "?e \<le> 52" by (simp only: pow2_less)
  then obtain n where n: "52 - ?e = int n" by (metis diff_ge_0_iff_ge nonneg_int_cases)
  then have e: "?e - 52 = int 0 - int n" by simp
  have unit: "pow2 (?e - 52) = 1 / 2 ^ n" unfolding e pow2_diff by simp
  then have "of_int k / pow2 (?e - 52) = (of_int (k * 2 ^ n) :: rat)" by simp
  then show ?thesis
    using False unit by (simp only: to_double_def Let_def round_even_int of_int_0_eq_iff if_False) simp
qed (simp add: to_double_def)

lemma to_double_range:
  assumes "0 < x" shows "pow2 (exponent x) \<le> to_double x \<and> to_double x \<le> pow2 (exponent x + 1)"
proof -
  let ?u = "pow2 (exponent x - 52)"
  have lo: "pow2 (exponent x) = of_int (2 ^ 52) * ?u" and hi: "pow2 (exponent x + 1) = of_int (2 ^ 53) * ?u"
    using pow2_add_nat [of "exponent x - 52" 52] pow2_add_nat [of "exponent x - 52" 53] by (simp_all add: add.commute)
  have "of_int (2 ^ 52) \<le> x / ?u" and "x / ?u \<le> of_int (2 ^ 53)"
    using exponent_le [of x] exponent_gr [of x] assms by (simp_all only: lo hi pos_le_divide_eq pos_divide_le_eq pow2_pos) simp_all
  then have "2 ^ 52 \<le> round_even (x / ?u)" and "round_even (x / ?u) \<le> 2 ^ 53"
    using round_even_mono [of "of_int (2 ^ 52)" "x / ?u"] round_even_mono [of "x / ?u" "of_int (2 ^ 53)"]
    by (simp_all only: round_even_int)
  then have "of_int (2 ^ 52) * ?u \<le> of_int (round_even (x / ?u)) * ?u"
    "of_int (round_even (x / ?u)) * ?u \<le> of_int (2 ^ 53) * ?u"
    by (simp_all only: mult_le_cancel_right_pos pow2_pos of_int_le_iff)
  then show ?thesis using assms by (simp add: to_double_def Let_def lo hi)
qed

lemma to_double_mono_pos:
  assumes "0 < x" and "x \<le> y" shows "to_double x \<le> to_double y"
proof (cases "exponent x = exponent y")
  case True
  let ?u = "pow2 (exponent y - 52)"
  have "round_even (x / ?u) \<le> round_even (y / ?u)"
    using assms by (intro round_even_mono divide_right_mono) (simp_all add: order_less_imp_le)
  then show ?thesis using assms True by (simp add: to_double_def Let_def mult_right_mono order_less_imp_le)
next
  case False
  with exponent_mono [OF assms] have "exponent x + 1 \<le> exponent y" by simp
  then have "pow2 (exponent x + 1) \<le> pow2 (exponent y)" by (rule pow2_mono)
  with to_double_range [OF assms(1)] to_double_range [of y] assms show ?thesis by simp
qed

lemma to_double_mono: 
  assumes "0 \<le> x" and "x \<le> y" shows "to_double x \<le> to_double y"
proof (cases "x = 0")
  case True
  then show ?thesis using assms to_double_pos [of y] by (cases "y = 0") (auto simp: to_double_def [of 0] intro: order_less_imp_le)
qed (use assms to_double_mono_pos in auto)

text \<open>The error of rounding a fraction.\<close>

lemma round_even_error: "\<bar>of_int (round_even y) - y\<bar> \<le> 1 / 2"
proof -
  have "of_int \<lfloor>y\<rfloor> \<le> y" "y < of_int \<lfloor>y\<rfloor> + 1" by linarith+
  then show ?thesis by (auto simp: round_even_def Let_def abs_le_iff)
qed

lemma to_double_error:
  assumes "0 < x" and "x < 1" shows "\<bar>to_double x - x\<bar> \<le> 1 / 2 ^ 54"
proof -
  let ?u = "pow2 (exponent x - 52)"
  have "pow2 (exponent x) < pow2 0" using exponent_le [of x] assms by (simp add: pow2_def [of 0])
  then have "?u \<le> pow2 (- 53)" by (intro pow2_mono) (simp only: pow2_less)
  then have u: "?u \<le> 1 / 2 ^ 53" by (simp add: pow2_def)
  have "to_double x - x = (of_int (round_even (x / ?u)) - x / ?u) * ?u"
    using assms pow2_pos [of "exponent x - 52", THEN less_imp_neq] by (simp add: to_double_def Let_def left_diff_distrib)
  then have "\<bar>to_double x - x\<bar> = \<bar>of_int (round_even (x / ?u)) - x / ?u\<bar> * ?u"
    by (simp add: abs_mult order_less_imp_le)
  also have "\<dots> \<le> 1 / 2 * (1 / 2 ^ 53)"
    by (rule mult_mono [OF round_even_error u]) (simp_all add: order_less_imp_le)
  finally show ?thesis by simp
qed

end
