(* ===== verification/Onion.thy ===== *)
theory Onion
  imports World Numbers
begin

text \<open>
  \<open>onion-relay.ts\<close> and the onion routes of \<open>routes.ts\<close>: the node cache and its health
  checks, path selection, and the simulated relay.  The server does not start this service
  (\<open>index.ts\<close>), but its routes share the path selection.

  The database driver returns a \<open>DECIMAL\<close> column as a string, so a reliability is that
  string until an operation turns it into a number.
\<close>

section \<open>Reliabilities\<close>

datatype reliability = DecimalText int | Number js_number

text \<open>\<open>Number(text)\<close> of a decimal with two places, given in hundredths.\<close>

fun to_number :: "reliability \<Rightarrow> js_number" where
  "to_number (DecimalText h) = Num (to_double (of_int h / 100))"
| "to_number (Number n) = n"

text \<open>\<open>Math.min(r + 0.01, 0.99)\<close>: on a string \<open>+\<close> concatenates, and the text with two
  decimal points that results is not a number.\<close>

fun raise_reliability :: "reliability \<Rightarrow> reliability" where
  "raise_reliability (DecimalText h) = Number NaN"
| "raise_reliability (Number n) =
     Number (js_min (js_add n (Num (to_double (1 / 100)))) (Num (to_double (99 / 100))))"

text \<open>\<open>Math.max(r - 0.05, 0.5)\<close>: \<open>-\<close> converts its operands.\<close>

definition lower_reliability :: "reliability \<Rightarrow> reliability" where
  "lower_reliability r =
     Number (js_max (js_sub (to_number r) (Num (to_double (5 / 100)))) (Num (1 / 2)))"

definition below_threshold :: "reliability \<Rightarrow> bool" where
  "below_threshold r = js_less (to_number r) (Num (to_double (6 / 10)))"

section \<open>The node cache\<close>

record onion_node =
  on_id :: string
  on_address :: string
  on_public_key :: bytes
  on_region :: string
  on_latency_ms :: int
  on_reliability :: reliability
  on_is_active :: bool

definition node_of_row :: "onion_row \<Rightarrow> onion_node" where
  "node_of_row r =
     \<lparr>on_id = n_id r, on_address = n_address r, on_public_key = n_public_key r,
      on_region = n_region r, on_latency_ms = n_latency_ms r,
      on_reliability = DecimalText (n_reliability r), on_is_active = n_is_active r\<rparr>"

definition set_node :: "onion_node \<Rightarrow> onion_node list \<Rightarrow> onion_node list" where
  "set_node n cache =
     (if has_key on_id (on_id n) cache
      then update_where (\<lambda>x. on_id x = on_id n) (\<lambda>_. n) cache else cache @ [n])"

definition loadNodes :: "db \<Rightarrow> onion_node list \<Rightarrow> onion_node list" where
  "loadNodes d cache =
     fold (\<lambda>row. set_node (node_of_row row)) (filter n_is_active (onion_nodes d)) cache"

section \<open>Health checks\<close>

text \<open>The two \<open>UPDATE\<close> statements; in a \<open>SET\<close> list every right side reads the old row.\<close>

definition row_reachable :: "int \<Rightarrow> timestamp \<Rightarrow> onion_row \<Rightarrow> onion_row" where
  "row_reachable latency now r =
     r\<lparr>n_latency_ms := latency, n_last_health_check := Some now,
       n_reliability := min (n_reliability r + 1) 99\<rparr>"

definition row_unreachable :: "onion_row \<Rightarrow> onion_row" where
  "row_unreachable r =
     r\<lparr>n_reliability := max (n_reliability r - 5) 50,
       n_is_active := (if n_reliability r < 60 then False else n_is_active r)\<rparr>"

definition node_reachable :: "int \<Rightarrow> onion_node \<Rightarrow> onion_node" where
  "node_reachable latency n =
     n\<lparr>on_latency_ms := latency, on_reliability := raise_reliability (on_reliability n)\<rparr>"

definition node_unreachable :: "onion_node \<Rightarrow> onion_node" where
  "node_unreachable n =
     (let r = lower_reliability (on_reliability n)
      in n\<lparr>on_reliability := r, on_is_active := (if below_threshold r then False else on_is_active n)\<rparr>)"

text \<open>\<open>probe\<close> is the measured latency of a node, \<open>None\<close> for a timeout or an error, and \<open>now\<close>
  the time of the statement for a node.\<close>

definition check_node ::
  "(string \<Rightarrow> int option) \<Rightarrow> (string \<Rightarrow> timestamp) \<Rightarrow> string \<Rightarrow>
   onion_node list \<times> db \<Rightarrow> onion_node list \<times> db" where
  "check_node probe now i s =
     (case probe i of
        Some latency \<Rightarrow>
          (update_where (\<lambda>n. on_id n = i) (node_reachable latency) (fst s),
           (snd s)\<lparr>onion_nodes := update_where (\<lambda>r. n_id r = i) (row_reachable latency (now i))
                                (onion_nodes (snd s))\<rparr>)
      | None \<Rightarrow>
          (update_where (\<lambda>n. on_id n = i) (node_unreachable) (fst s),
           (snd s)\<lparr>onion_nodes := update_where (\<lambda>r. n_id r = i) row_unreachable
                                (onion_nodes (snd s))\<rparr>))"

definition healthCheckNodes ::
  "(string \<Rightarrow> int option) \<Rightarrow> (string \<Rightarrow> timestamp) \<Rightarrow>
   onion_node list \<times> db \<Rightarrow> onion_node list \<times> db" where
  "healthCheckNodes probe now s = fold (check_node probe now) (map on_id (fst s)) s"

section \<open>Path selection\<close>

text \<open>
  The loop that both \<open>getOptimalPath\<close> and the route run over the sorted nodes; \<open>picked\<close>
  is counted up to \<open>hopCount\<close>, which need not be positive.
\<close>

fun pick_nodes :: "('n \<Rightarrow> string) \<Rightarrow> int \<Rightarrow> string option \<Rightarrow> string list \<Rightarrow> 'n list \<Rightarrow> 'n list \<Rightarrow> 'n list" where
  "pick_nodes region hopCount excludeRegion usedRegions picked [] = picked"
| "pick_nodes region hopCount excludeRegion usedRegions picked (node # nodes) =
     (if or_null excludeRegion = Some (region node)
      then pick_nodes region hopCount excludeRegion usedRegions picked nodes
      else if region node \<in> set usedRegions
      then pick_nodes region hopCount excludeRegion usedRegions picked nodes
      else
        let picked' = picked @ [node] in
        if int (length picked') = hopCount then picked'
        else pick_nodes region hopCount excludeRegion (region node # usedRegions) picked' nodes)"

text \<open>\<open>shuffle\<close> is the effect of sorting with the random comparator, some permutation.\<close>

definition node_score :: "onion_node \<Rightarrow> js_number" where
  "node_score n = js_div (Num (of_int (on_latency_ms n))) (to_number (on_reliability n))"

definition getOptimalPath ::
  "(onion_node list \<Rightarrow> onion_node list) \<Rightarrow> int \<Rightarrow> string option \<Rightarrow> onion_node list \<Rightarrow> onion_node list" where
  "getOptimalPath shuffle hopCount excludeRegion cache =
     (let available = filter on_is_active cache;
          shuffled = js_sort (\<lambda>a b. js_sub (node_score a) (node_score b)) (shuffle available) in
      pick_nodes on_region hopCount excludeRegion [] [] shuffled)"

definition node_view_of :: "onion_row \<Rightarrow> node_view" where
  "node_view_of r =
     \<lparr>nv_id = n_id r, nv_address = n_address r, nv_region = n_region r,
      nv_latency_ms = n_latency_ms r, nv_reliability = n_reliability r\<rparr>"

definition onion_nodes_list :: "response io" where
  "onion_nodes_list =
     await (query (select_stmt (\<lambda>now d. map node_view_of (filter n_is_active (onion_nodes d))))) (\<lambda>rows.
     reply 200 (BNodes rows))"

definition row_score :: "onion_row \<Rightarrow> js_number" where
  "row_score r = js_div (Num (of_int (n_latency_ms r))) (to_number (DecimalText (n_reliability r)))"

definition onion_path ::
  "(onion_row list \<Rightarrow> onion_row list) \<Rightarrow> string option \<Rightarrow> string option \<Rightarrow> response io" where
  "onion_path shuffle hops excludeRegion =
     (let hopCount = parse_int_or hops 3 in
     await (query (select_stmt (\<lambda>now d. filter n_is_active (onion_nodes d)))) (\<lambda>nodes.
     let shuffled = js_sort (\<lambda>a b. js_sub (row_score a) (row_score b)) (shuffle nodes) in
     reply 200 (BNodes (map node_view_of
       (pick_nodes n_region hopCount excludeRegion [] [] shuffled)))))"

section \<open>The relay\<close>

record onion_packet =
  pk_packet_id :: string
  pk_payload :: bytes
  pk_layers_remaining :: int
  pk_route_path :: "string list"
  pk_circuit_id :: string
  pk_ttl_seconds :: nat

datatype relay_reply =
  RelayError string
| Unwrapped onion_packet
| HealthOk
| Nested relay_reply

datatype relay_action =
  Answer relay_reply
| Forward string onion_packet "string option"

definition route_at :: "nat \<Rightarrow> onion_packet \<Rightarrow> string option" where
  "route_at i p = (if i < length (pk_route_path p) then Some (pk_route_path p ! i) else None)"

definition handleRelay :: "onion_node list \<Rightarrow> onion_packet option \<Rightarrow> string option \<Rightarrow> relay_action" where
  "handleRelay cache packet nextNodeId =
     (case (packet, or_null nextNodeId) of
        (Some p, Some next) \<Rightarrow>
          (case find (\<lambda>n. on_id n = next) cache of
             None \<Rightarrow> Answer (RelayError ''Node unavailable'')
           | Some node \<Rightarrow>
               if \<not> on_is_active node then Answer (RelayError ''Node unavailable'')
               else Forward (on_address node) p (route_at 1 p))
      | _ \<Rightarrow> Answer (RelayError ''Missing packet or nextNodeId''))"

definition unwrapLayer :: "onion_packet \<Rightarrow> string \<Rightarrow> onion_packet" where
  "unwrapLayer packet privateKey =
     packet\<lparr>pk_payload := pk_payload packet,
            pk_layers_remaining := pk_layers_remaining packet - 1,
            pk_route_path := drop 1 (pk_route_path packet)\<rparr>"

definition handleUnwrap :: "onion_packet option \<Rightarrow> string option \<Rightarrow> relay_reply" where
  "handleUnwrap packet nodePrivateKey =
     (case (packet, or_null nodePrivateKey) of
        (Some p, Some key) \<Rightarrow> Unwrapped (unwrapLayer p key)
      | _ \<Rightarrow> RelayError ''Missing packet or key'')"

datatype relay_message =
  Relay "onion_packet option" "string option"
| Unwrap "onion_packet option" "string option"
| Health
| OtherMessage

definition handleRelayMessage :: "onion_node list \<Rightarrow> relay_message \<Rightarrow> relay_action option" where
  "handleRelayMessage cache msg =
     (case msg of
        Relay packet next \<Rightarrow> Some (handleRelay cache packet next)
      | Unwrap packet key \<Rightarrow> Some (Answer (handleUnwrap packet key))
      | Health \<Rightarrow> Some (Answer HealthOk)
      | OtherMessage \<Rightarrow> None)"

text \<open>The \<open>message\<close> event of a relay connection; a frame that is not JSON is logged and dropped.\<close>

definition on_relay_data :: "onion_node list \<Rightarrow> relay_message option \<Rightarrow> relay_action option" where
  "on_relay_data cache data = Option.bind data (handleRelayMessage cache)"

text \<open>
  A relay request among nodes that all run this code with one cache: each hop forwards to
  the next and wraps its answer.  \<open>None\<close> means that no answer has come back after
  \<open>fuel\<close> hops.
\<close>

fun relay_chain :: "nat \<Rightarrow> onion_node list \<Rightarrow> onion_packet option \<Rightarrow> string option \<Rightarrow> relay_reply option" where
  "relay_chain 0 cache packet next = None"
| "relay_chain (Suc fuel) cache packet next =
     (case handleRelay cache packet next of
        Answer r \<Rightarrow> Some r
      | Forward address p next' \<Rightarrow> map_option Nested (relay_chain fuel cache (Some p) next'))"

text \<open>\<open>wrapMessage\<close>; the nonces are what \<open>randomBytes(12)\<close> returned, first hop last.\<close>

fun wrapMessage :: "bytes list \<Rightarrow> bytes \<Rightarrow> bytes" where
  "wrapMessage [] wrapped = wrapped"
| "wrapMessage (nonce # nonces) wrapped = wrapMessage nonces (nonce @ wrapped)"

end
