(* ===== verification/Server.thy ===== *)
theory Server
  imports Routes_Account Routes_Social Routes_Messages Onion
begin

text \<open>
  \<open>index.ts\<close>: the request pipeline (body parser, rate limiter, routes, error handler) and
  the event loop that interleaves requests, WebSocket messages, notifications and timers.
\<close>

section \<open>Requests\<close>

datatype endpoint =
  GetHealth
| GetMetrics
| PostChallenge
| PostRegister
| PostLogin
| PostLogout
| GetMe
| PutSettings
| PostContacts
| GetContacts
| PostConversations
| GetConversations
| PostMessages
| GetMessages string "string option" "string option" "string option"
| PostRead string
| PostDevicesLink
| PostPushSubscribe
| GetOnionNodes
| GetOnionPath "string option" "string option"
| NoRoute

text \<open>The route table: the router is mounted at \<open>/api/v1\<close>, the health check and the metrics are not.  The path comes as
  Express splits and decodes it, with the fixed segments as the source spells them.\<close>

definition endpoint_of :: "string \<Rightarrow> string list \<Rightarrow> (string \<Rightarrow> string option) \<Rightarrow> endpoint" where
  "endpoint_of method path params =
     (let api = take 2 path = [''api'', ''v1'']; get = (method = ''GET''); post = (method = ''POST'');
          sub = drop 2 path in
      if path = [''health''] \<and> get then GetHealth
      else if path = [''metrics''] \<and> get then GetMetrics
      else if \<not> api then NoRoute
      else if post \<and> sub = [''auth'', ''challenge''] then PostChallenge
      else if post \<and> sub = [''auth'', ''register''] then PostRegister
      else if post \<and> sub = [''auth'', ''login''] then PostLogin
      else if post \<and> sub = [''auth'', ''logout''] then PostLogout
      else if get \<and> sub = [''users'', ''me''] then GetMe
      else if method = ''PUT'' \<and> sub = [''users'', ''me'', ''settings''] then PutSettings
      else if post \<and> sub = [''contacts''] then PostContacts
      else if get \<and> sub = [''contacts''] then GetContacts
      else if post \<and> sub = [''conversations''] then PostConversations
      else if get \<and> sub = [''conversations''] then GetConversations
      else if post \<and> sub = [''messages''] then PostMessages
      else if get \<and> length sub = 2 \<and> hd sub = ''messages''
        then GetMessages (sub ! 1) (params ''limit'') (params ''before'') (params ''beforeId'')
      else if post \<and> length sub = 3 \<and> hd sub = ''messages'' \<and> sub ! 2 = ''read'' then PostRead (sub ! 1)
      else if post \<and> sub = [''devices'', ''link''] then PostDevicesLink
      else if post \<and> sub = [''push'', ''subscribe''] then PostPushSubscribe
      else if get \<and> sub = [''onion'', ''nodes''] then GetOnionNodes
      else if get \<and> sub = [''onion'', ''path''] then GetOnionPath (params ''hops'') (params ''excludeRegion'')
      else NoRoute)"

text \<open>A request; the body is \<open>None\<close> where the JSON parser refused it.\<close>

record request =
  rq_endpoint :: endpoint
  rq_authorization :: "string option"
  rq_body :: "json option"

text \<open>The effect of the random shuffle in the path route.\<close>

type_synonym node_order = "onion_row list \<Rightarrow> onion_row list"

definition route :: "externals \<Rightarrow> node_order \<Rightarrow> draw \<Rightarrow> request \<Rightarrow> json \<Rightarrow> response io" where
  "route E order draw rq json =
     (let auth = authMiddleware E (rq_authorization rq) in
      case rq_endpoint rq of
        GetHealth \<Rightarrow> await (gets date_now) (\<lambda>now. reply 200 (BHealth now))
      | GetMetrics \<Rightarrow> reply 200 BMetrics
      | PostChallenge \<Rightarrow> auth_challenge E draw json
      | PostRegister \<Rightarrow> auth_register E draw json
      | PostLogin \<Rightarrow> auth_login E draw json
      | PostLogout \<Rightarrow> auth_logout E (rq_authorization rq)
      | GetMe \<Rightarrow> auth users_me
      | PutSettings \<Rightarrow> auth (users_settings E json)
      | PostContacts \<Rightarrow> auth (contacts_add draw json)
      | GetContacts \<Rightarrow> auth (contacts_list E)
      | PostConversations \<Rightarrow> auth (conversations_create E draw json)
      | GetConversations \<Rightarrow> auth conversations_list
      | PostMessages \<Rightarrow> auth (messages_send E draw json)
      | GetMessages c limit before beforeId \<Rightarrow> auth (messages_page E c limit before beforeId)
      | PostRead messageId \<Rightarrow> auth (messages_read E messageId)
      | PostDevicesLink \<Rightarrow> auth (devices_link E json)
      | PostPushSubscribe \<Rightarrow> auth (push_subscribe json)
      | GetOnionNodes \<Rightarrow> onion_nodes_list
      | GetOnionPath hops excludeRegion \<Rightarrow> onion_path order hops excludeRegion
      | NoRoute \<Rightarrow> reply 404 BNoRoute)"

text \<open>The last middleware: only a \<open>ZodError\<close> is the client's fault.\<close>

definition errorHandler :: "exn \<Rightarrow> response io" where
  "errorHandler e =
     (if e = ZodError then reply 400 (BError ''Invalid input'')
      else reply 500 (BError ''Internal server error''))"

text \<open>\<open>admitted\<close> says whether the rate limiter let the request's address pass.\<close>

definition serve :: "externals \<Rightarrow> node_order \<Rightarrow> bool \<Rightarrow> draw \<Rightarrow> request \<Rightarrow> response io" where
  "serve E order admitted draw rq =
     (case rq_body rq of
        None \<Rightarrow> errorHandler TypeError
      | Some json \<Rightarrow>
          if \<not> admitted then reply 429 (BError ''Too many requests'')
          else try_catch (route E order draw rq json) errorHandler)"

text \<open>The counter \<open>chhaya_http_requests_total\<close>, by method and status, when a response is finished.\<close>

type_synonym request_counts = "string \<times> nat \<Rightarrow> nat"

definition requests_inc :: "string \<Rightarrow> response \<Rightarrow> request_counts \<Rightarrow> request_counts" where
  "requests_inc method res counts = counts((method, status res) := counts (method, status res) + 1)"

definition protected :: "endpoint \<Rightarrow> bool" where
  "protected e \<longleftrightarrow>
     (case e of GetHealth \<Rightarrow> False | GetMetrics \<Rightarrow> False | PostChallenge \<Rightarrow> False | PostRegister \<Rightarrow> False
      | PostLogin \<Rightarrow> False | GetOnionNodes \<Rightarrow> False | GetOnionPath _ _ \<Rightarrow> False
      | NoRoute \<Rightarrow> False | _ \<Rightarrow> True)"

section \<open>The event loop\<close>

text \<open>The programs the server starts: a request, a WebSocket message, a notification.\<close>

inductive server_prog :: "externals \<Rightarrow> node_order \<Rightarrow> fcm \<Rightarrow> response option io \<Rightarrow> bool" for E order fcm where
  a_request: "server_prog E order fcm
     (await (serve E order admitted draw rq) (\<lambda>r. Return (Some r)))"
| a_message: "server_prog E order fcm (await (on_message E clientId data) (\<lambda>_. Return None))"
| a_push: "server_prog E order fcm (await (sendPushNotification fcm job) (\<lambda>_. Return None))"

text \<open>What happens besides: time passes, sockets open, under identifiers never used before, and
  close, timers fire.\<close>

inductive environment :: "world \<Rightarrow> world \<Rightarrow> bool" where
  time_passes: "clock w \<le> t \<Longrightarrow> environment w (w\<lparr>clock := t\<rparr>)"
| socket_opens: "clientId \<notin> set (connections w) \<Longrightarrow> environment w (on_connection clientId w)"
| socket_closes: "environment w (on_close clientId w)"
| heartbeat_ticks: "environment w (ping_interval clientId w)"
| cleanup_runs: "environment w (cleanupStaleClients w)"
| job_taken: "environment w (w\<lparr>push_jobs := drop 1 (push_jobs w)\<rparr>)"

definition initial_world :: "db \<Rightarrow> world" where
  "initial_world d =
     \<lparr>clock = 0, database = d, clients = [], user_clients = [], open_sockets = [], connections = [],
      ping_intervals = [], frames = [],
      push_ready = False, push_jobs = []\<rparr>"

text \<open>Reached from a database by some interleaving, with the programs as they then are.\<close>

definition server_reaches ::
  "externals \<Rightarrow> node_order \<Rightarrow> fcm \<Rightarrow> world \<Rightarrow> world \<Rightarrow> response option io list \<Rightarrow> bool" where
  "server_reaches E order fcm w w' ps \<longleftrightarrow>
     pool_steps environment (server_prog E order fcm) (w, []) (w', ps)"

end
