(* ===== verification/Guarantees.thy ===== *)
theory Guarantees
  imports Server
begin

text \<open>
  What every interleaving keeps.  The locale \<open>statements\<close> collects the statements the
  server executes, \<open>server_programs\<close> adds what its handlers do to the rest of the state: a
  relation on states that contains each of these steps is a guarantee of every program of
  the server, whatever runs in between.  The handlers are gone through once, inside the
  locale; each invariant of the database or of the registry is then an interpretation.
\<close>

section \<open>State changes outside the database\<close>

lemma database_send [simp]: "database (send ws msg w) = database w"
  by (simp add: send_def)

lemma database_close_socket [simp]: "database (close_socket ws w) = database w"
  by (simp add: close_socket_def)

lemma database_send_error [simp]: "database (send_error ws m w) = database w"
  by (simp add: send_error_def)

lemma database_broadcast [simp]: "database (broadcastToUser u msg w) = database w"
proof -
  have "database (fold (\<lambda>i w. case find_client i w of None \<Rightarrow> w | Some c \<Rightarrow> send (cl_id c) msg w) xs w) =
      database w" for xs
    by (induction xs arbitrary: w) (auto split: option.split)
  then show ?thesis by (simp add: broadcastToUser_def)
qed

lemma database_disconnect [simp]: "database (handleDisconnect i w) = database w"
  by (simp add: handleDisconnect_def split: option.split)

lemma database_register_client [simp]: "database (register_client c w) = database w"
  by (simp add: register_client_def Let_def)

lemma database_notify [simp]: "database (notify_members c m ids w) = database w"
  unfolding notify_members_def
  by (induction ids arbitrary: w) (auto simp: notify_one_def)

lemma database_heartbeat [simp]: "database (snd (heartbeat i w)) = database w"
  by (simp add: heartbeat_def split: option.split)

lemma database_connection [simp]:
  "database (on_connection i w) = database w" "database (on_close i w) = database w"
  "database (ping_interval i w) = database w"
  by (simp_all add: on_connection_def on_close_def Let_def)
    (auto simp: ping_interval_def heartbeat_def split: option.split)

lemma database_cleanup [simp]: "database (cleanupStaleClients w) = database w"
proof -
  have "database (fold cleanup_one cs w) = database w" for cs
    by (induction cs arbitrary: w) (auto simp: cleanup_one_def)
  then show ?thesis by (simp add: cleanupStaleClients_def)
qed

lemma environment_database: "environment w w' \<Longrightarrow> database w' = database w"
  by (induction rule: environment.induct) auto

section \<open>Statements that only read\<close>

definition read_only :: "'a stmt \<Rightarrow> bool" where
  "read_only q \<longleftrightarrow> steps (=) q"

named_theorems read_only_intros

lemma read_only_select [read_only_intros]: "read_only (select_stmt f)"
  by (simp add: read_only_def steps_def select_stmt_def)

lemma read_only_with_uuid [read_only_intros]: "(\<And>u. read_only (k u)) \<Longrightarrow> read_only (with_uuid E s k)"
  by (auto simp: read_only_def steps_def with_uuid_def)

lemma read_only_with_uuid_json [read_only_intros]:
  "(\<And>u. read_only (k u)) \<Longrightarrow> read_only (with_uuid_json E v k)"
  by (auto simp: read_only_def steps_def with_uuid_json_def with_uuid_def split: json.splits)

lemma read_only_lookups [read_only_intros]:
  "read_only (membership_stmt E v u)" "read_only (signal_members_stmt E c f t)"
  "read_only (is_member_stmt E c u)" "read_only (select_message_stmt E m)"
  "read_only (other_members_stmt E c u)" "read_only (read_allowed_stmt E m u)"
  unfolding membership_stmt_def signal_members_stmt_def is_member_stmt_def
    select_message_stmt_def other_members_stmt_def read_allowed_stmt_def
  by (intro read_only_intros)+

lemma read_only_page [read_only_intros]: "read_only (page_stmt E c before beforeId limit)"
  unfolding page_stmt_def
  by (intro read_only_intros)
    (auto simp: read_only_def steps_def select_stmt_def with_uuid_def split: option.splits)

lemma read_only_failing [read_only_intros]:
  "read_only (registerFCMToken_stmt E u v t)" "read_only (subscribe_stmt s)"
proof -
  show "read_only (registerFCMToken_stmt E u v t)"
    unfolding read_only_def steps_def by (metis registerFCMToken_stmt_fails sum.distinct(1))
  show "read_only (subscribe_stmt s)"
    by (simp add: read_only_def steps_def subscribe_stmt_def push_subscription_indexes_def)
qed

section \<open>The programs of the server\<close>

locale statements =
  fixes E :: externals
    and D :: "db \<Rightarrow> db \<Rightarrow> bool"
  assumes D_refl: "D d d"
    and s_register: "registerSchema E json = Some rdata \<Longrightarrow> rs_chhayaId rdata = ''05'' @ rs_publicKey rdata \<Longrightarrow>
          steps D (register_tx E salt userId created rdata)"
    and s_login: "steps D (login_device_stmt E u ldata)"
    and s_touch_user: "steps D (touch_user_stmt userId)"
    and s_session: "steps D (insert_session_stmt E token userId)"
    and s_logout: "steps D (delete_session h)"
    and s_expired: "steps D delete_expired_challenges"
    and s_challenge: "steps D (insert_challenge_stmt E i k v p h)"
    and s_take: "steps D (take_challenge E i k v p)"
    and s_settings: "steps D (settings_stmt userId (settings_updates E sdata))"
    and s_link: "steps D (link_device_stmt E userId kdata)"
    and s_contact: "steps D (add_contact_tx convoId userId contactId displayName)"
    and s_conversation: "steps D (create_conversation_tx E convoId userId cdata pids)"
    and s_touch_conversation: "steps D (touch_conversation_stmt E c)"
    and s_read_position: "steps D (read_position_stmt E m userId)"
    and s_mark_read: "steps D (mark_read_stmt E m userId)"
    and s_touch_member: "steps D (touch_member_stmt E cv userId)"
    and s_tokens: "steps D (clear_tokens_stmt userId tokens)"

locale server_programs = statements +
  fixes G :: "world \<Rightarrow> world \<Rightarrow> bool"
  assumes G_refl: "G w w"
    and G_database: "D (database w) d \<Longrightarrow> G w (w\<lparr>database := d\<rparr>)"
    and G_notify: "G w (notify_members conversationId messageId userIds w)"
    and G_error: "G w (send_error clientId message w)"
    and G_close: "G w (close_socket clientId w)"
    and G_refuse: "G w (close_socket clientId (send_error clientId message w))"
    and G_broadcast: "G w (broadcastToUser userId msg w)"
    and G_register: "G w (register_client c w)"
    and G_pong: "G w (w\<lparr>clients := update_where (same_client c)
          (\<lambda>x. x\<lparr>cl_last_ping := date_now w\<rparr>) (clients w)\<rparr>)"
begin

lemma g_query [intro]: "steps D q \<Longrightarrow> guar G (query q)"
  by (rule guar_query) (auto intro: G_database G_refl dest: stepsD)

lemma g_read [intro]: "read_only q \<Longrightarrow> guar G (query q)"
  by (rule g_query, rule stepsI) (auto simp: read_only_def dest: stepsD intro: D_refl)

lemma g_tx [intro]: "steps D q \<Longrightarrow> guar G (withTransaction q)"
  by (simp add: withTransaction_eq_query g_query)

lemma g_parsed: "(\<And>a. r = Some a \<Longrightarrow> guar G (k a)) \<Longrightarrow> guar G (await (parsed r) k)"
  by (cases r) auto

text \<open>The statements of the server, as programs.\<close>

lemmas g_reads [intro!, simp] =
  read_only_select [THEN g_read] read_only_lookups [THEN g_read] read_only_page [THEN g_read]
  read_only_failing [THEN g_read]

lemmas g_writes [intro!, simp] =
  s_login [THEN g_query] s_touch_user [THEN g_query] s_session [THEN g_query]
  s_logout [THEN g_query] s_expired [THEN g_query] s_challenge [THEN g_query]
  s_take [THEN g_query] s_settings [THEN g_query] s_link [THEN g_query]
  s_contact [THEN g_tx] s_conversation [THEN g_tx] s_touch_conversation [THEN g_query]
  s_read_position [THEN g_query] s_mark_read [THEN g_query] s_touch_member [THEN g_query]
  s_tokens [THEN g_query]

lemma g_gets [intro]: "guar G (gets f)"
  by (rule guar_gets) (rule G_refl)

lemma g_modifies [intro!, simp]:
  "guar G (modify (notify_members conversationId messageId userIds))"
  "guar G (modify (send_error clientId message))"
  "guar G (modify (close_socket clientId))"
  "guar G (modify (\<lambda>w. close_socket clientId (send_error clientId message w)))"
  "guar G (modify (\<lambda>w. broadcastToUser userId (msg w) w))"
  "guar G (modify (register_client c))"
  "guar G (modify (\<lambda>w. w\<lparr>clients := update_where (same_client c)
      (\<lambda>x. x\<lparr>cl_last_ping := date_now w\<rparr>) (clients w)\<rparr>))"
  by (rule guar_modify; rule G_notify G_error G_close G_refuse G_broadcast G_register G_pong)+

lemmas g_rules = g_parsed guar_await guar_try_catch guar_if guar_lift guar_reply guar_for_each

lemma g_authenticate [intro]: "guar G (authenticateToken E t)"
  unfolding authenticateToken_def
  by (auto split: option.split json.split intro!: guar_await intro: read_only_intros)

lemma g_middleware [intro]: "(\<And>u. guar G (h u)) \<Longrightarrow> guar G (authMiddleware E a h)"
  unfolding authMiddleware_def
  by (auto split: option.split intro!: guar_await guar_reply)

lemma g_session [intro]: "guar G (issueSession E r u)"
  unfolding issueSession_def Let_def by (intro guar_await g_query s_session guar_Return)

lemma g_registerFCM [intro]: "guar G (registerFCMToken E u v t)"
  unfolding registerFCMToken_def by (intro guar_await g_read read_only_intros guar_Return)

lemma g_consume [intro]: "guar G (consumeIdentityChallenge E i k v p pr)"
  unfolding consumeIdentityChallenge_def
  by (intro guar_await g_query s_take) (auto split: list.split intro: guar_lift)

lemma g_issue_challenge [intro]: "guar G (issueIdentityChallenge E dw k v p)"
  unfolding issueIdentityChallenge_def
  by (intro guar_await guar_lift)
    (auto intro!: guar_await intro: s_expired s_challenge split: prod.split)

lemma g_auth_challenge [intro]: "guar G (auth_challenge E dw j)"
  unfolding auth_challenge_def
  by (intro g_rules g_issue_challenge)

lemma g_register [intro]: "guar G (auth_register E dw j)"
  unfolding auth_register_def Let_def
  by (intro g_rules g_consume g_read read_only_intros g_gets g_tx g_session)
    (auto intro: s_register split: option.split)

lemma g_login [intro]: "guar G (auth_login E dw j)"
  unfolding auth_login_def
  by (intro g_rules g_consume g_read read_only_intros)
    (auto intro!: g_rules intro: s_login s_touch_user split: list.split option.split)

lemma g_logout [intro]: "guar G (auth_logout E a)"
  unfolding auth_logout_def by (intro g_middleware g_rules g_query s_logout)

lemma g_me [intro]: "guar G (users_me u)"
  unfolding users_me_def
  by (intro g_rules g_read read_only_intros) (auto intro: guar_reply split: list.split)

lemma g_settings [intro]: "guar G (users_settings E j u)"
  unfolding users_settings_def Let_def by (intro g_rules g_query s_settings guar_Return)

lemma g_link [intro]: "guar G (devices_link E j u)"
  unfolding devices_link_def by (intro g_rules g_query s_link)

lemma g_push_subscribe [intro]: "guar G (push_subscribe j u)"
  unfolding push_subscribe_def Let_def subscribeToPush_def
  by (intro g_rules g_read read_only_intros)

lemma g_contacts_add [intro]: "guar G (contacts_add dw j u)"
  unfolding contacts_add_def Let_def
  by (intro g_rules g_read read_only_intros)
    (auto intro!: g_rules intro: s_contact read_only_intros split: list.split)

lemma g_lists [intro]: "guar G (contacts_list E u)" "guar G (conversations_list u)"
  "guar G onion_nodes_list" "guar G (onion_path order hops ex)"
  unfolding contacts_list_def conversations_list_def onion_nodes_list_def onion_path_def Let_def
  by (intro g_rules g_read read_only_intros)+

lemma g_conversations_create [intro]: "guar G (conversations_create E dw j u)"
  unfolding conversations_create_def Let_def by (intro g_rules g_tx s_conversation)

lemma g_page [intro]: "guar G (messages_page E c l b bi u)"
  unfolding messages_page_def Let_def by (intro g_rules g_read read_only_intros)

lemma g_read_receipt [intro]: "guar G (messages_read E m u)"
  unfolding messages_read_def
  by (intro g_rules g_query s_read_position s_mark_read g_read read_only_intros)

lemma g_error_handler [intro]: "guar G (errorHandler e)"
  unfolding errorHandler_def by (intro g_rules)

subsection \<open>WebSocket messages and notifications\<close>

lemma g_property_source [intro]: "guar G (property_source v)"
  by (cases v rule: property_source.cases) auto

lemma g_join [intro]: "guar G (handleJoin E i msg)"
  unfolding handleJoin_def Let_def
  by (auto intro!: guar_await guar_if intro: read_only_intros s_touch_member
      split: option.split)

lemma g_signal [intro]: "guar G (handleWebRTCSignal E i t msg)"
  unfolding handleWebRTCSignal_def Let_def
  by (auto intro!: guar_await guar_if intro: read_only_intros
      split: option.split json.split)

lemma g_handleMessage [intro]: "guar G (handleMessage E i msg)"
proof -
  have pong: "guar G (case c of None \<Rightarrow> Return ()
      | Some c \<Rightarrow> modify (\<lambda>w. w\<lparr>clients := update_where (same_client c)
          (\<lambda>x. x\<lparr>cl_last_ping := date_now w\<rparr>) (clients w)\<rparr>))" for c
    by (cases c) auto
  have known: "guar G (case c of None \<Rightarrow> Return True
      | Some c \<Rightarrow> await (authenticateToken E (cl_session_token c)) (\<lambda>user.
          Return (user = Some (cl_user_id c))))" for c
    by (cases c) (auto intro: guar_await)
  have dispatch: "guar G (case v of Some (JStr t) \<Rightarrow> p t | _ \<Rightarrow> Return ())"
    if "\<And>t. guar G (p t)" for v p
    using that by (auto split: option.split json.split)
  show ?thesis
    unfolding handleMessage_def
    by (intro guar_await guar_if g_gets g_property_source g_modifies g_join g_signal pong known
        dispatch guar_Return)
qed

lemma g_message [intro]: "guar G (on_message E i data)"
  unfolding on_message_def
  by (intro guar_try_catch g_modifies) (auto split: option.split)

lemma g_notification [intro]: "guar G (sendPushNotification fcm job)"
  unfolding sendPushNotification_def getUserFCMTokens_def removeFCMTokens_def
  by (auto intro!: guar_try_catch guar_await guar_if intro: read_only_intros s_tokens
      split: option.split)

text \<open>Every program of the server, given the one handler that sends messages.\<close>

lemma g_route:
  assumes "\<And>u. guar G (messages_send E dw j u)"
  shows "guar G (route E order dw rq j)"
  unfolding route_def Let_def
  by (cases "rq_endpoint rq") (auto intro: assms guar_reply guar_await)

lemma g_serve:
  assumes "\<And>u j. guar G (messages_send E dw j u)"
  shows "guar G (serve E order adm dw rq)"
  unfolding serve_def
  by (auto intro!: guar_reply guar_try_catch g_route intro: assms split: option.split)

end

locale all_statements = statements +
  assumes s_message: "steps D (insert_message_stmt E m userId mdata)"

locale all_programs = all_statements E D + server_programs E D G for E D G
begin

lemma g_messages_send [intro]: "guar G (messages_send E dw j u)"
  unfolding messages_send_def Let_def
  by (intro g_rules)
    (auto intro!: g_rules intro: s_message s_touch_conversation read_only_intros
      split: list.split)

lemma g_server_prog: "server_prog E order fcm p \<Longrightarrow> guar G p"
  by (induction rule: server_prog.induct) (auto intro!: guar_await g_serve)

end

text \<open>A transitive relation then holds between any two states of an execution.\<close>

locale server_guarantee = all_programs E D G for E D G +
  fixes order :: node_order and fcm :: fcm
  assumes G_trans: "G w w' \<Longrightarrow> G w' w'' \<Longrightarrow> G w w''"
    and G_environment: "environment w w' \<Longrightarrow> G w w'"
begin

sublocale loop: interference G environment "server_prog E order fcm" "\<lambda>_ _. True"
  by unfold_locales (auto intro: G_refl G_trans G_environment rg_guar g_server_prog)

lemma reached_state: "server_reaches E order fcm w w' ps \<Longrightarrow> G w w'"
  using loop.reachable_R by (simp add: server_reaches_def)

end

text \<open>The relations that concern the database alone.\<close>

sublocale statements \<subseteq> on_database: server_programs E D "on_db D"
  by unfold_locales (auto simp: on_db_def D_refl)

sublocale all_statements \<subseteq> on_database: all_programs E D "on_db D" ..

locale server_relation = all_statements E D for E D +
  fixes order :: node_order and fcm :: fcm
  assumes D_trans: "D d d' \<Longrightarrow> D d' d'' \<Longrightarrow> D d d''"
begin

sublocale relation: server_guarantee E D "on_db D" order fcm
proof
  show "on_db D s t \<Longrightarrow> on_db D t u \<Longrightarrow> on_db D s u" for s t u
    by (auto simp: on_db_def intro: D_trans)
  show "environment s t \<Longrightarrow> on_db D s t" for s t
    by (drule environment_database) (simp add: on_db_def D_refl)
qed

lemma reached_database:
  "server_reaches E order fcm w w' ps \<Longrightarrow> D (database w) (database w')"
  using relation.reached_state by (auto simp: on_db_def)

end

lemma steps_return: "(\<And>d. D d d) \<Longrightarrow> steps D (stmt_return a)"
  by (auto simp: steps_def stmt_return_def)

lemma steps_bind:
  assumes "steps D m" and "\<And>a. steps D (k a)" and "\<And>a b c. D a b \<Longrightarrow> D b c \<Longrightarrow> D a c"
  shows "steps D (stmt_bind m k)"
proof (rule stepsI)
  fix now d r d'
  assume "stmt_bind m k now d = Inr (r, d')"
  then obtain a d1 where "m now d = Inr (a, d1)" and "k a now d1 = Inr (r, d')"
    by (auto simp: stmt_bind_def split: sum.splits prod.splits)
  with assms show "D d d'" by (blast dest: stepsD)
qed

lemma steps_with_uuid: "(\<And>u. steps D (k u)) \<Longrightarrow> steps D (with_uuid E s k)"
  by (auto simp: steps_def with_uuid_def)

lemma steps_with_uuid_json: "(\<And>u. steps D (k u)) \<Longrightarrow> steps D (with_uuid_json E v k)"
  by (auto simp: steps_def with_uuid_json_def with_uuid_def split: json.splits)

lemma steps_exec: "(\<And>now d. D d (f now d)) \<Longrightarrow> steps D (exec_stmt f)"
  by (auto simp: steps_def exec_stmt_def)

lemma steps_now: "(\<And>now. steps D (q now)) \<Longrightarrow> steps D (\<lambda>now. q now now)"
  by (auto simp: steps_def)

lemma steps_for_each:
  assumes "\<And>x. steps D (q x)" and "\<And>d. D d d" and "\<And>a b c. D a b \<Longrightarrow> D b c \<Longrightarrow> D a c"
  shows "steps D (stmt_for_each xs q)"
  by (induction xs) (auto intro: steps_return steps_bind assms)

end
