(* ===== verification/Integrity.thy ===== *)
theory Integrity
  imports Guarantees
begin

text \<open>
  The constraints of the migrations (\<open>db_ok\<close>) under every interleaving of the server's
  programs.  The statements are gone through once; the rest is the locale of the server's
  guarantees, interpreted on "integrity is kept".
\<close>

abbreviation ok_step :: "db \<Rightarrow> db \<Rightarrow> bool" where
  "ok_step \<equiv> \<lambda>d d'. db_ok d \<longrightarrow> db_ok d'"

lemma keeps_insert_contact_stmt [keeps_intros]: "keeps db_ok (insert_contact_stmt u k n)"
  by (rule keepsI, unfold insert_contact_stmt_def, erule (1) keepsD [OF keeps_insert_contact])

lemma keeps_insert_conversation_stmt [keeps_intros]:
  "keeps db_ok (insert_conversation_stmt c t nm a u)"
  by (rule keepsI, unfold insert_conversation_stmt_def,
      erule (1) keepsD [OF keeps_insert_conversation])

lemma keeps_insert_participant_stmt [keeps_intros]: "keeps db_ok (insert_participant_stmt c u adm)"
  by (rule keepsI, unfold insert_participant_stmt_def,
      erule (1) keepsD [OF keeps_insert_participant])

lemma keeps_register_tx [keeps_intros]: "keeps db_ok (register_tx E salt userId created data)"
proof -
  have "keeps db_ok (insert_user_stmt E salt userId created data)"
    using keepsD [OF keeps_insert_user]
    by (auto simp: keeps_def insert_user_stmt_def split: option.splits)
  then show ?thesis
    unfolding register_tx_def register_device_stmt_def
    by (intro keeps_intros) auto
qed

lemma keeps_login_device [keeps_intros]: "keeps db_ok (login_device_stmt E u data)"
  unfolding login_device_stmt_def by (intro keeps_intros) auto

lemma keeps_link_device [keeps_intros]: "keeps db_ok (link_device_stmt E u data)"
  unfolding link_device_stmt_def by (intro keeps_intros) auto

lemma keeps_touch_user [keeps_intros]: "keeps db_ok (touch_user_stmt u)"
  unfolding touch_user_stmt_def
  by (intro keeps_intros) (simp add: integrity_defs map_update_where)

lemma settings_updates_keys:
  "fold (\<lambda>f u. f u) (settings_updates E data @ [\<lambda>u. u\<lparr>u_updated_at := now\<rparr>]) u =
   u\<lparr>u_biometric_enabled := (case st_biometricEnabled data of None \<Rightarrow> u_biometric_enabled u | Some b \<Rightarrow> b),
     u_pin_hash := (case or_null (st_pin data) of None \<Rightarrow> u_pin_hash u
                    | Some p \<Rightarrow> Some (to_hex (sha256 E p))),
     u_panic_pin_hash := (case or_null (st_panicPin data) of None \<Rightarrow> u_panic_pin_hash u
                    | Some p \<Rightarrow> Some (to_hex (sha256 E p))),
     u_updated_at := now\<rparr>"
  by (simp add: settings_updates_def split: option.split)

lemma keeps_settings [keeps_intros]: "keeps db_ok (settings_stmt u (settings_updates E data))"
  unfolding settings_stmt_def settings_updates_keys
  by (intro keeps_intros) (simp add: integrity_defs map_update_where)

lemma keeps_contact_tx [keeps_intros]: "keeps db_ok (add_contact_tx c u k n)"
  unfolding add_contact_tx_def by (intro keeps_intros)

lemma keeps_conversation_tx [keeps_intros]: "keeps db_ok (create_conversation_tx E c u data pids)"
  unfolding create_conversation_tx_def by (intro keeps_intros)

lemma keeps_insert_message_stmt [keeps_intros]: "keeps db_ok (insert_message_stmt E m u data)"
  unfolding insert_message_stmt_def
  by (intro keeps_intros) (use keepsD [OF keeps_insert_message] in \<open>auto simp: keeps_def\<close>)

lemma keeps_message_updates [keeps_intros]:
  "keeps db_ok (touch_conversation_stmt E c)" "keeps db_ok (read_position_stmt E m u)"
  "keeps db_ok (mark_read_stmt E m u)"
  unfolding touch_conversation_stmt_def read_position_stmt_def mark_read_stmt_def
  by (intro keeps_intros; simp add: integrity_defs map_update_where advance_read_def mark_read_def
      Let_def)+

lemma keeps_touch_member [keeps_intros]: "keeps db_ok (touch_member_stmt E v u)"
proof -
  have "db_ok (d\<lparr>participants := update_where P (\<lambda>p. p\<lparr>p_last_active_at := now\<rparr>) (participants d)\<rparr>)"
    if "db_ok d" for d P now
    using that by (simp add: integrity_defs map_update_where)
  then show ?thesis
    by (auto simp: keeps_def touch_member_stmt_def with_uuid_json_def with_uuid_def exec_stmt_def
        split: json.splits)
qed

lemma keeps_clear_tokens [keeps_intros]: "keeps db_ok (clear_tokens_stmt u ts)"
  unfolding clear_tokens_stmt_def by (intro keeps_intros clear_tokens_ok)

interpretation integrity: server_relation E ok_step order fcm for E order fcm
  by unfold_locales (auto intro: keeps_steps keeps_intros)

end
