(* ===== verification/Evolution.thy ===== *)
theory Evolution
  imports Integrity
begin

text \<open>
  What no interleaving undoes: accounts keep their identity and credentials, devices their
  owner and key, messages their content and author, read positions only advance, and no
  row of these tables disappears.  \<open>evolves\<close> is this relation between two databases; it
  is a second interpretation of the guarantees of the server.  A third keeps accounts
  bound to their public key.
\<close>

section \<open>Rows and tables\<close>

definition rows_evolve :: "('r \<Rightarrow> 'r \<Rightarrow> bool) \<Rightarrow> 'r list \<Rightarrow> 'r list \<Rightarrow> bool" where
  "rows_evolve rel t t' \<longleftrightarrow> (\<forall>r \<in> set t. \<exists>r' \<in> set t'. rel r r')"

definition user_fixed :: "user \<Rightarrow> user \<Rightarrow> bool" where
  "user_fixed u u' \<longleftrightarrow> u_id u' = u_id u \<and> u_chhaya_id u' = u_chhaya_id u \<and>
     u_public_key u' = u_public_key u \<and> u_encrypted_private_key u' = u_encrypted_private_key u \<and>
     u_recovery_phrase_hash u' = u_recovery_phrase_hash u \<and> u_is_active u' = u_is_active u"

definition device_fixed :: "device \<Rightarrow> device \<Rightarrow> bool" where
  "device_fixed r r' \<longleftrightarrow> d_id r' = d_id r \<and> d_user_id r' = d_user_id r \<and>
     d_public_key r' = d_public_key r"

definition conversation_fixed :: "conversation \<Rightarrow> conversation \<Rightarrow> bool" where
  "conversation_fixed c c' \<longleftrightarrow> c' = c\<lparr>c_updated_at := c_updated_at c'\<rparr>"

definition option_settles :: "'a option \<Rightarrow> 'a option \<Rightarrow> bool" where
  "option_settles a b \<longleftrightarrow> a = None \<or> b = a"

definition message_fixed :: "message \<Rightarrow> message \<Rightarrow> bool" where
  "message_fixed m m' \<longleftrightarrow>
     m' = m\<lparr>m_delivered_at := m_delivered_at m', m_read_at := m_read_at m'\<rparr> \<and>
     option_settles (m_delivered_at m) (m_delivered_at m') \<and>
     option_settles (m_read_at m) (m_read_at m')"

definition last_seen :: "participant \<Rightarrow> timestamp" where
  "last_seen p = (case p_last_read_at p of None \<Rightarrow> 0 | Some t \<Rightarrow> t)"

definition participant_fixed :: "participant \<Rightarrow> participant \<Rightarrow> bool" where
  "participant_fixed p p' \<longleftrightarrow>
     p_conversation_id p' = p_conversation_id p \<and> p_user_id p' = p_user_id p \<and>
     p_left_at p' = p_left_at p \<and> p_is_admin p' = p_is_admin p \<and> last_seen p \<le> last_seen p'"

definition evolves :: "db \<Rightarrow> db \<Rightarrow> bool" where
  "evolves d d' \<longleftrightarrow>
     rows_evolve user_fixed (users d) (users d') \<and>
     rows_evolve (=) (contacts d) (contacts d') \<and>
     rows_evolve conversation_fixed (conversations d) (conversations d') \<and>
     rows_evolve participant_fixed (participants d) (participants d') \<and>
     rows_evolve message_fixed (messages d) (messages d') \<and>
     rows_evolve device_fixed (devices d) (devices d')"

lemmas row_defs = user_fixed_def device_fixed_def conversation_fixed_def message_fixed_def
  participant_fixed_def option_settles_def

lemma rows_fixed_refl [simp]:
  "user_fixed u u" "device_fixed r r" "conversation_fixed c c" "message_fixed m m"
  "participant_fixed p p"
  by (auto simp: row_defs)

lemma rows_fixed_trans:
  "user_fixed u u' \<Longrightarrow> user_fixed u' u'' \<Longrightarrow> user_fixed u u''"
  "device_fixed r r' \<Longrightarrow> device_fixed r' r'' \<Longrightarrow> device_fixed r r''"
  "participant_fixed p p' \<Longrightarrow> participant_fixed p' p'' \<Longrightarrow> participant_fixed p p''"
  by (auto simp: row_defs)

lemma conversation_fixed_trans:
  assumes "conversation_fixed c c'" and "conversation_fixed c' c''"
  shows "conversation_fixed c c''"
proof -
  have "c'' = c'\<lparr>c_updated_at := c_updated_at c''\<rparr>" and "c' = c\<lparr>c_updated_at := c_updated_at c'\<rparr>"
    using assms by (auto simp: conversation_fixed_def)
  then show ?thesis
    unfolding conversation_fixed_def by (cases c, cases c', cases c'') simp
qed

lemma message_fixed_trans:
  assumes "message_fixed m m'" and "message_fixed m' m''"
  shows "message_fixed m m''"
  using assms unfolding message_fixed_def option_settles_def
  by (cases m, cases m', cases m'') auto

lemma rows_evolve_refl [simp]: "(\<And>r. rel r r) \<Longrightarrow> rows_evolve rel t t"
  by (auto simp: rows_evolve_def)

lemma rows_evolve_trans:
  assumes "rows_evolve rel t t'" and "rows_evolve rel t' t''"
    and "\<And>a b c. rel a b \<Longrightarrow> rel b c \<Longrightarrow> rel a c"
  shows "rows_evolve rel t t''"
  using assms unfolding rows_evolve_def by meson

lemma rows_evolve_append [simp]: "(\<And>r. rel r r) \<Longrightarrow> rows_evolve rel t (t @ new)"
  by (auto simp: rows_evolve_def)

lemma rows_evolve_update:
  assumes "\<And>r. r \<in> set t \<Longrightarrow> P r \<Longrightarrow> rel r (f r)" and "\<And>r. rel r r"
  shows "rows_evolve rel t (update_where P f t)"
  unfolding rows_evolve_def
proof
  fix r
  assume "r \<in> set t"
  then have "(if P r then f r else r) \<in> set (update_where P f t)"
    by (simp add: set_update_where)
  with assms \<open>r \<in> set t\<close> show "\<exists>r' \<in> set (update_where P f t). rel r r'"
    by (metis (full_types))
qed

lemma evolves_refl [simp]: "evolves d d"
  by (simp add: evolves_def)

lemmas table_evolve_trans =
  rows_evolve_trans [where rel = user_fixed, OF _ _ rows_fixed_trans(1)]
  rows_evolve_trans [where rel = device_fixed, OF _ _ rows_fixed_trans(2)]
  rows_evolve_trans [where rel = participant_fixed, OF _ _ rows_fixed_trans(3)]
  rows_evolve_trans [where rel = conversation_fixed, OF _ _ conversation_fixed_trans]
  rows_evolve_trans [where rel = message_fixed, OF _ _ message_fixed_trans]
  rows_evolve_trans [where rel = "(=)", OF _ _ trans]

lemma evolves_trans: "evolves d d' \<Longrightarrow> evolves d' d'' \<Longrightarrow> evolves d d''"
  unfolding evolves_def by (elim conjE) (intro conjI; erule (1) table_evolve_trans)

section \<open>The statements\<close>

named_theorems evolves_steps

lemma evolves_insert_stmts:
  "steps evolves (insert_user_stmt E salt userId created data)"
  "steps evolves (insert_contact_stmt u k n)"
  "steps evolves (insert_conversation_stmt c t nm a u)"
  "steps evolves (insert_participant_stmt c u adm)"
  "steps evolves (insert_session_stmt E t u)"
  unfolding insert_user_stmt_def insert_contact_stmt_def insert_conversation_stmt_def
    insert_participant_stmt_def insert_session_stmt_def
  by (rule stepsI, fastforce split: option.splits simp: evolves_def
      dest!: insert_user_Inr insert_contact_Inr insert_conversation_Inr insert_participant_Inr
        insert_session_Inr)+

lemma evolves_insert_device:
  assumes "\<And>wher upd r x. conflict = Some (wher, upd) \<Longrightarrow> device_fixed r (upd r x)"
  shows "steps evolves (insert_device v conflict)"
proof (rule stepsI)
  fix now d n d'
  assume "insert_device v conflict now d = Inr (n, d')"
  then show "evolves d d'"
  proof (cases rule: insert_device_cases)
    case (old wher upd x)
    with assms show ?thesis by (auto simp: evolves_def intro!: rows_evolve_update)
  qed (simp add: evolves_def)
qed

lemma evolves_devices [evolves_steps]:
  "steps evolves (login_device_stmt E u ldata)" "steps evolves (link_device_stmt E w kdata)"
  unfolding login_device_stmt_def link_device_stmt_def
  by (intro steps_with_uuid evolves_insert_device; auto simp: device_fixed_def)+

lemma evolves_register [evolves_steps]: "steps evolves (register_tx E salt userId created data)"
  unfolding register_tx_def register_device_stmt_def
  by (intro steps_bind steps_return steps_with_uuid evolves_insert_stmts evolves_insert_device)
    (auto intro: evolves_trans)

lemma evolves_txs [evolves_steps]:
  "steps evolves (add_contact_tx c u k n)" "steps evolves (create_conversation_tx E c u data pids)"
  unfolding add_contact_tx_def create_conversation_tx_def
  by (intro steps_bind steps_with_uuid steps_for_each evolves_insert_stmts;
      auto intro: evolves_trans)+

lemma evolves_message [evolves_steps]: "steps evolves (insert_message_stmt E m u data)"
  unfolding insert_message_stmt_def
  by (intro steps_with_uuid stepsI) (auto elim!: insert_message_cases simp: evolves_def)

lemma evolves_sessions [evolves_steps]:
  "steps evolves (insert_session_stmt E t u)" "steps evolves (delete_session h)"
  "steps evolves delete_expired_challenges"
  unfolding delete_session_def delete_expired_challenges_def
  by (intro evolves_insert_stmts steps_exec; simp add: evolves_def)+

lemma evolves_challenges [evolves_steps]:
  "steps evolves (insert_challenge_stmt E i k v p h)" "steps evolves (take_challenge E i k v p)"
proof -
  show "steps evolves (insert_challenge_stmt E i k v p h)"
    unfolding insert_challenge_stmt_def
    by (intro steps_with_uuid stepsI) (auto dest!: insert_challenge_Inr simp: evolves_def)
  show "steps evolves (take_challenge E i k v p)"
    by (rule stepsI, erule take_challenge_Inr) (simp add: evolves_def)
qed

lemma evolves_users [evolves_steps]:
  "steps evolves (touch_user_stmt u)" "steps evolves (settings_stmt u (settings_updates E data))"
  unfolding touch_user_stmt_def settings_stmt_def settings_updates_keys
  by (intro steps_exec; auto simp: evolves_def user_fixed_def intro!: rows_evolve_update)+

lemma last_seen_advance: "last_seen p \<le> last_seen (advance_read sent p)"
  by (auto simp: last_seen_def advance_read_def Let_def split: option.splits)

lemma evolves_receipts [evolves_steps]:
  "steps evolves (touch_conversation_stmt E c)" "steps evolves (read_position_stmt E m u)"
  "steps evolves (mark_read_stmt E m u)" "steps evolves (touch_member_stmt E v u)"
proof -
  show "steps evolves (touch_conversation_stmt E c)"
    unfolding touch_conversation_stmt_def
    by (intro steps_with_uuid steps_exec)
      (auto simp: evolves_def conversation_fixed_def intro!: rows_evolve_update)
  have "participant_fixed p (advance_read sent p)" for p sent
    using last_seen_advance [of p sent] by (simp add: participant_fixed_def advance_read_def Let_def)
  then show "steps evolves (read_position_stmt E m u)"
    unfolding read_position_stmt_def Let_def
    by (intro steps_with_uuid steps_exec) (auto simp: evolves_def intro!: rows_evolve_update)
  have "message_fixed r (mark_read now r)" if "m_read_at r = None" for r now
    using that by (auto simp: message_fixed_def mark_read_def option_settles_def split: option.splits)
  then show "steps evolves (mark_read_stmt E m u)"
    unfolding mark_read_stmt_def
    by (intro steps_with_uuid steps_exec) (auto simp: evolves_def intro!: rows_evolve_update)
  show "steps evolves (touch_member_stmt E v u)"
    unfolding touch_member_stmt_def
    by (intro steps_with_uuid_json steps_exec)
      (auto simp: evolves_def participant_fixed_def last_seen_def intro!: rows_evolve_update)
qed

lemma evolves_clear_tokens [evolves_steps]: "steps evolves (clear_tokens_stmt u ts)"
  unfolding clear_tokens_stmt_def clear_tokens_def
  by (intro steps_exec) (auto simp: evolves_def device_fixed_def intro!: rows_evolve_update)

interpretation evolution: server_relation E evolves order fcm for E order fcm
  by unfold_locales (auto intro: evolves_steps evolves_trans)

section \<open>Accounts are bound to their key\<close>

definition identity_bound :: "db \<Rightarrow> bool" where
  "identity_bound d \<longleftrightarrow> list_all (\<lambda>u. u_chhaya_id u = ''05'' @ u_public_key u) (users d)"

abbreviation bound_step :: "db \<Rightarrow> db \<Rightarrow> bool" where
  "bound_step \<equiv> \<lambda>d d'. identity_bound d \<longrightarrow> identity_bound d'"

text \<open>Every statement but the registration leaves the pairs of identifier and key alone.\<close>

definition identities :: "db \<Rightarrow> (string \<times> string) list" where
  "identities d = map (\<lambda>u. (u_chhaya_id u, u_public_key u)) (users d)"

abbreviation same_identities :: "db \<Rightarrow> db \<Rightarrow> bool" where
  "same_identities \<equiv> \<lambda>d d'. identities d' = identities d"

lemma identity_bound_iff: "identity_bound d \<longleftrightarrow> list_all (\<lambda>(i, k). i = ''05'' @ k) (identities d)"
  by (simp add: identity_bound_def identities_def list_all_iff)

lemma steps_bound: "steps same_identities q \<Longrightarrow> steps bound_step q"
  by (auto simp: steps_def identity_bound_iff)

named_theorems identity_steps

lemma identities_inserts:
  "steps same_identities (insert_contact_stmt u k n)"
  "steps same_identities (insert_conversation_stmt c t nm a u)"
  "steps same_identities (insert_participant_stmt c u adm)"
  "steps same_identities (insert_session_stmt E t u)"
  "steps same_identities (insert_device v conflict)"
  unfolding insert_contact_stmt_def insert_conversation_stmt_def insert_participant_stmt_def
    insert_session_stmt_def
  by (rule stepsI, auto simp: identities_def dest!: insert_contact_Inr insert_conversation_Inr insert_participant_Inr
        insert_session_Inr elim: insert_device_cases)+

lemma identities_txs [identity_steps]:
  "steps same_identities (add_contact_tx c u k n)"
  "steps same_identities (create_conversation_tx E c u data pids)"
  unfolding add_contact_tx_def create_conversation_tx_def
  by (intro steps_bind steps_with_uuid steps_for_each identities_inserts; simp add: identities_def)+

lemma identities_devices [identity_steps]:
  "steps same_identities (login_device_stmt E u ldata)"
  "steps same_identities (link_device_stmt E w kdata)"
  "steps same_identities (insert_session_stmt E t w)"
  unfolding login_device_stmt_def link_device_stmt_def
  by (intro steps_with_uuid identities_inserts)+

lemma identities_users_stmts [identity_steps]:
  "steps same_identities (touch_user_stmt u)"
  "steps same_identities (settings_stmt u (settings_updates E data))"
  unfolding touch_user_stmt_def settings_stmt_def settings_updates_keys
  by (intro steps_exec; simp add: identities_def map_update_where)+

lemma identities_others [identity_steps]:
  "steps same_identities (delete_session h)" "steps same_identities delete_expired_challenges"
  "steps same_identities (touch_conversation_stmt E c)" "steps same_identities (read_position_stmt E m u)"
  "steps same_identities (mark_read_stmt E m u)" "steps same_identities (touch_member_stmt E v u)"
  "steps same_identities (clear_tokens_stmt u ts)"
  unfolding delete_session_def delete_expired_challenges_def touch_conversation_stmt_def
    read_position_stmt_def mark_read_stmt_def touch_member_stmt_def clear_tokens_stmt_def
    clear_tokens_def Let_def
  by (intro steps_with_uuid steps_with_uuid_json steps_exec; simp add: identities_def)+

lemma identities_challenges [identity_steps]:
  "steps same_identities (insert_challenge_stmt E i k v p h)"
  "steps same_identities (take_challenge E i k v p)"
  "steps same_identities (insert_message_stmt E m u mdata)"
proof -
  show "steps same_identities (insert_challenge_stmt E i k v p h)"
    unfolding insert_challenge_stmt_def
    by (intro steps_with_uuid stepsI) (auto simp: identities_def dest!: insert_challenge_Inr)
  show "steps same_identities (take_challenge E i k v p)"
    by (rule stepsI, erule take_challenge_Inr) (simp add: identities_def)
  show "steps same_identities (insert_message_stmt E m u mdata)"
    unfolding insert_message_stmt_def
    by (intro steps_with_uuid stepsI) (auto simp: identities_def elim!: insert_message_cases)
qed

lemma varchar_fits: "varchar n s = Inr t \<Longrightarrow> length s \<le> n \<Longrightarrow> t = s"
  by (auto simp: varchar_def pg_text_def split: if_splits)

lemma bound_register:
  assumes "registerSchema E json = Some data" and "rs_chhayaId data = ''05'' @ rs_publicKey data"
  shows "steps bound_step (register_tx E salt userId created data)"
proof -
  have "length (rs_publicKey data) = 64"
    using registerSchema_ok(4) [OF assms(1)] by (simp add: hex64_def hex_string_def)
  with assms(2) have "steps bound_step (insert_user_stmt E salt userId created data)"
    by (auto simp: steps_def insert_user_stmt_def insert_user_def identity_bound_def
        split: option.splits if_splits dest!: varchar_fits)
  then show ?thesis
    unfolding register_tx_def register_device_stmt_def
    by (intro steps_bind steps_return steps_with_uuid steps_bound [OF identities_inserts(5)]) auto
qed

interpretation bound: server_relation E bound_step order fcm for E order fcm
  by unfold_locales (auto intro: bound_register identity_steps [THEN steps_bound])

end
