(* ===== verification/Membership.thy ===== *)
theory Membership
  imports Evolution
begin

text \<open>
  Only participants write: under every interleaving, the sender of a stored message has a
  participant row of its conversation.  The handler checks the membership in one query and
  inserts in a later one, so this is no guarantee of the single statement; it rests on
  participant rows being stable under everything the others do (\<open>evolves\<close>).
\<close>

definition senders_ok :: "db \<Rightarrow> bool" where
  "senders_ok d \<longleftrightarrow>
     (\<forall>m \<in> set (messages d). has_key participant_key (m_conversation_id m, m_sender_id m) (participants d))"

abbreviation sender_step :: "db \<Rightarrow> db \<Rightarrow> bool" where
  "sender_step \<equiv> \<lambda>d d'. evolves d d' \<and> (senders_ok d \<longrightarrow> senders_ok d')"

section \<open>Participants are stable\<close>

lemma rows_evolve_key:
  assumes "rows_evolve rel t t'" and "\<And>a b. rel a b \<Longrightarrow> key b = key a" and "has_key key k t"
  shows "has_key key k t'"
  using assms by (auto simp: rows_evolve_def has_key_def list_ex_iff) metis

lemma evolves_participants:
  "evolves d d' \<Longrightarrow> has_key participant_key k (participants d) \<Longrightarrow>
   has_key participant_key k (participants d')"
  unfolding evolves_def
  by (elim conjE, erule rows_evolve_key) (auto simp: participant_fixed_def)

text \<open>A step that adds no message keeps the senders: its messages are the old ones.\<close>

definition message_authors :: "db \<Rightarrow> (string \<times> string \<times> string) list" where
  "message_authors d = map (\<lambda>m. (m_id m, m_conversation_id m, m_sender_id m)) (messages d)"

lemma senders_ok_iff:
  "senders_ok d \<longleftrightarrow>
     (\<forall>(i, c, s) \<in> set (message_authors d). has_key participant_key (c, s) (participants d))"
  by (auto simp: senders_ok_def message_authors_def)

abbreviation same_authors :: "db \<Rightarrow> db \<Rightarrow> bool" where
  "same_authors \<equiv> \<lambda>d d'. message_authors d' = message_authors d"

lemma sender_step_intro: "evolves d d' \<Longrightarrow> same_authors d d' \<Longrightarrow> sender_step d d'"
  by (auto simp: senders_ok_iff intro: evolves_participants split: prod.splits)

lemma steps_sender: "steps evolves q \<Longrightarrow> steps same_authors q \<Longrightarrow> steps sender_step q"
  by (rule stepsI, rule sender_step_intro; rule stepsD)

named_theorems author_steps

lemma authors_inserts:
  "steps same_authors (insert_user_stmt E salt userId created data)"
  "steps same_authors (insert_contact_stmt u k n)"
  "steps same_authors (insert_conversation_stmt c t nm a u)"
  "steps same_authors (insert_participant_stmt c u adm)"
  "steps same_authors (insert_session_stmt E t u)"
  "steps same_authors (insert_device v conflict)"
  unfolding insert_user_stmt_def insert_contact_stmt_def insert_conversation_stmt_def
    insert_participant_stmt_def insert_session_stmt_def
  by (rule stepsI, auto simp: message_authors_def split: option.splits dest!: insert_user_Inr
        insert_contact_Inr insert_conversation_Inr insert_participant_Inr insert_session_Inr
        elim: insert_device_cases)+

lemma authors_txs [author_steps]:
  "steps same_authors (register_tx E salt userId created data)"
  "steps same_authors (add_contact_tx c u k n)"
  "steps same_authors (create_conversation_tx E c u cdata pids)"
  unfolding add_contact_tx_def create_conversation_tx_def register_tx_def register_device_stmt_def
  by (intro steps_bind steps_with_uuid steps_for_each steps_return authors_inserts; simp)+

lemma authors_devices [author_steps]:
  "steps same_authors (login_device_stmt E w ldata)"
  "steps same_authors (link_device_stmt E u kdata)"
  "steps same_authors (insert_session_stmt E t u)"
  unfolding login_device_stmt_def link_device_stmt_def
  by (intro steps_with_uuid authors_inserts)+

lemma authors_updates [author_steps]:
  "steps same_authors (touch_user_stmt u)" "steps same_authors (settings_stmt u us)"
  "steps same_authors (delete_session h)" "steps same_authors delete_expired_challenges"
  "steps same_authors (touch_conversation_stmt E c)" "steps same_authors (read_position_stmt E m u)"
  "steps same_authors (mark_read_stmt E m u)" "steps same_authors (touch_member_stmt E v u)"
  "steps same_authors (clear_tokens_stmt u ts)"
  unfolding delete_session_def delete_expired_challenges_def touch_conversation_stmt_def
    read_position_stmt_def mark_read_stmt_def touch_member_stmt_def clear_tokens_stmt_def
    clear_tokens_def touch_user_stmt_def settings_stmt_def Let_def
  by (intro steps_with_uuid steps_with_uuid_json steps_exec;
      simp add: message_authors_def map_update_where mark_read_def)+

lemma authors_challenges [author_steps]:
  "steps same_authors (insert_challenge_stmt E i k v p h)"
  "steps same_authors (take_challenge E i k v p)"
proof -
  show "steps same_authors (insert_challenge_stmt E i k v p h)"
    unfolding insert_challenge_stmt_def
    by (intro steps_with_uuid stepsI) (auto simp: message_authors_def dest!: insert_challenge_Inr)
  show "steps same_authors (take_challenge E i k v p)"
    by (rule stepsI, erule take_challenge_Inr) (simp add: message_authors_def)
qed

interpretation senders: statements E sender_step for E
  by unfold_locales
    (simp, (rule steps_sender; intro evolves_steps author_steps)+)

section \<open>The message handler under interference\<close>

lemma rg_await_query:
  assumes "\<And>t e. R w t \<Longrightarrow> q (clock t) (database t) = Inl e \<Longrightarrow> G t t \<and> Q (Inl (DbError e)) t"
    and "\<And>t r d. R w t \<Longrightarrow> q (clock t) (database t) = Inr (r, d) \<Longrightarrow>
           G t (t\<lparr>database := d\<rparr>) \<and> rg R G Q (k r) (t\<lparr>database := d\<rparr>)"
  shows "rg R G Q (await (query q) k) w"
proof -
  have "rg R G (\<lambda>r. case r of Inl e \<Rightarrow> Q (Inl e) | Inr a \<Rightarrow> rg R G Q (k a)) (query q) w"
    unfolding query_def rg_Act using assms by (simp split: sum.split)
  then show ?thesis by (simp only: rg_await)
qed

abbreviation loop_step :: "world \<Rightarrow> world \<Rightarrow> bool" where
  "loop_step \<equiv> on_db sender_step"

abbreviation loop_rg :: "'a io \<Rightarrow> world \<Rightarrow> bool" where
  "loop_rg \<equiv> rg loop_step loop_step (\<lambda>_ _. True)"

lemma loop_step_refl: "loop_step w w"
  by (simp add: on_db_def)

lemma loop_step_trans: "loop_step w w' \<Longrightarrow> loop_step w' w'' \<Longrightarrow> loop_step w w''"
  unfolding on_db_def by (blast intro: evolves_trans)

lemma loop_rg_guar: "guar loop_step p \<Longrightarrow> loop_rg p w"
  by (rule rg_guar) simp_all

text \<open>What may follow once the query has shown the membership.\<close>

lemma insert_by_member:
  assumes "has_key participant_key (c, userId) (participants (database w))"
    and "pg_uuid E (ms_conversationId data) = Some c" and "loop_step w t"
    and "insert_message_stmt E i userId data (clock t) (database t) = Inr (rows, d)"
  shows "sender_step (database t) d"
proof -
  have member: "has_key participant_key (c, userId) (participants (database t))"
    using assms(1,3) by (auto simp: on_db_def intro: evolves_participants)
  from assms(4) have "senders_ok (database t) \<longrightarrow> senders_ok d"
    by (elim insert_message_stmt_Inr insert_message_cases)
      (use assms(2) member in \<open>auto simp: senders_ok_def message_row_same\<close>)
  with stepsD [OF evolves_message assms(4)] show ?thesis by simp
qed

lemma loop_rg_insert:
  assumes "has_key participant_key (c, userId) (participants (database w))"
    and "pg_uuid E (ms_conversationId data) = Some c" and "\<And>rows. guar loop_step (k rows)"
  shows "loop_rg (await (query (insert_message_stmt E i userId data)) k) w"
proof (rule rg_await_query)
  fix t rows d
  assume "loop_step w t" and "insert_message_stmt E i userId data (clock t) (database t) = Inr (rows, d)"
  from insert_by_member [OF assms(1,2) this]
  show "loop_step t (t\<lparr>database := d\<rparr>) \<and> loop_rg (k rows) (t\<lparr>database := d\<rparr>)"
    using loop_rg_guar [OF assms(3)] by (simp add: on_db_def)
qed (simp add: loop_step_refl)

lemma loop_rg_member:
  assumes "\<And>c rows t. pg_uuid E cv = Some c \<Longrightarrow>
      has_key participant_key (c, userId) (participants (database t)) \<Longrightarrow> loop_rg (k rows) t"
    and "\<And>t. loop_rg (k []) t"
  shows "loop_rg (await (query (is_member_stmt E cv userId)) k) w"
proof (rule rg_await_query)
  fix t :: world and rows d
  assume "is_member_stmt E cv userId (clock t) (database t) = Inr (rows, d)"
  then obtain c where c: "pg_uuid E cv = Some c" "d = database t"
      "rows = filter (active_member c userId) (participants (database t))"
    by (rule is_member_stmt_Inr)
  have "loop_rg (k rows) t"
  proof (cases "rows = []")
    case False
    with c obtain p where "p \<in> set (participants d)" "active_member c userId p"
      by (auto simp: filter_empty_conv)
    then have "has_key participant_key (c, userId) (participants d)"
      by (auto simp: has_key_def list_ex_iff active_member_def)
    with c show ?thesis by (auto intro: assms(1))
  qed (use assms(2) in simp)
  with c(2) show "loop_step t (t\<lparr>database := d\<rparr>) \<and> loop_rg (k rows) (t\<lparr>database := d\<rparr>)"
    by (simp add: loop_step_refl)
qed (simp add: loop_step_refl)

lemma rg_messages_send: "loop_rg (messages_send E dw json userId) w"
proof (cases "sendMessageSchema E json")
  case (Some data)
  show ?thesis
    unfolding messages_send_def Some parsed.simps await.simps Let_def
  proof (rule loop_rg_member, goal_cases)
    case (1 c rows t)
    show ?case
    proof (cases "rows = []")
      case False
      show ?thesis
        unfolding if_not_P [OF False]
        by (rule loop_rg_insert [OF 1(2,1)])
          (auto intro!: senders.on_database.g_rules intro: senders.s_touch_conversation
            read_only_intros split: list.split)
    qed (simp add: reply_def)
  qed (simp add: reply_def)
qed (simp add: messages_send_def)

section \<open>The whole server\<close>

lemma rg_middleware:
  assumes "\<And>u t. loop_rg (h u) t"
  shows "loop_rg (authMiddleware E a h) w"
  unfolding authMiddleware_def rg_await
  by (auto split: option.split sum.split simp: rg_await reply_def
      intro!: rg_mono [OF loop_rg_guar] assms senders.on_database.g_authenticate)

lemma rg_route: "loop_rg (route E order dw rq j) w"
proof (cases "rq_endpoint rq = PostMessages")
  case True
  then show ?thesis
    by (simp add: route_def Let_def rg_middleware rg_messages_send)
next
  case False
  then have "guar loop_step (route E order dw rq j)"
    unfolding route_def Let_def
    by (cases "rq_endpoint rq") (auto intro: guar_reply guar_await)
  then show ?thesis by (rule loop_rg_guar)
qed

lemma rg_serve: "loop_rg (serve E order adm dw rq) w"
  unfolding serve_def errorHandler_def
  by (auto split: option.split sum.split simp: rg_try_catch reply_def
      intro!: rg_mono [OF rg_route])

lemma rg_server_prog: "server_prog E order fcm p \<Longrightarrow> loop_rg p w"
proof (induction rule: server_prog.induct)
  case (a_request admitted dw rq)
  show ?case
    unfolding rg_await by (rule rg_mono [OF rg_serve]) (simp split: sum.split)
qed (auto intro!: loop_rg_guar guar_await)

interpretation author_loop: interference loop_step environment "server_prog E order fcm" "\<lambda>_ _. True"
  for E order fcm
proof
  show "environment w t \<Longrightarrow> loop_step w t" for w t
    by (drule environment_database) (simp add: on_db_def)
qed (auto intro: loop_step_refl loop_step_trans rg_server_prog)

end
