(* ===== verification/Runs.thy ===== *)
theory Runs
  imports Membership
begin

text \<open>
  Taking finished runs apart.  \<open>runs\<close> are equivalences that turn "this program ended with
  this answer" into the facts about each query on the way; the lemmas after it do the same
  for the sub-programs the handlers share.
\<close>

definition answer :: "(exn + response) \<times> world \<Rightarrow> nat option" where
  "answer r = (case fst r of Inl _ \<Rightarrow> None | Inr x \<Rightarrow> Some (status x))"

lemma answer_simps [simp]: "answer (Inl e, w) = None" "answer (Inr x, w) = Some (status x)"
  by (simp_all add: answer_def)

lemma answer_Some: "answer r = Some n \<longleftrightarrow> (\<exists>x w'. r = (Inr x, w') \<and> status x = n)"
  by (cases r) (auto simp: answer_def split: sum.splits)

text \<open>What a finished run went through.\<close>

named_theorems runs \<open>equivalences that take a finished run apart\<close>

lemma run_await_Inr [runs]: "run (await m k) w = (Inr b, w') \<longleftrightarrow>
    (\<exists>a u. run m w = (Inr a, u) \<and> run (k a) u = (Inr b, w'))"
  by (simp add: run_await split: prod.split sum.split)

lemma run_await_Inl [runs]: "run (await m k) w = (Inl e, w') \<longleftrightarrow>
    run m w = (Inl e, w') \<or> (\<exists>a u. run m w = (Inr a, u) \<and> run (k a) u = (Inl e, w'))"
  by (simp add: run_await split: prod.split sum.split)

lemma run_try_catch_Inr [runs]: "run (try_catch m h) w = (Inr b, w') \<longleftrightarrow>
    run m w = (Inr b, w') \<or> (\<exists>e u. run m w = (Inl e, u) \<and> run (h e) u = (Inr b, w'))"
  by (simp add: run_try_catch split: prod.split sum.split)

lemma run_query_Inr [runs]: "run (query q) w = (Inr a, w') \<longleftrightarrow>
    (\<exists>d. q (clock w) (database w) = Inr (a, d) \<and> w' = w\<lparr>database := d\<rparr>)"
  by (auto simp: run_query split: sum.split)

lemma run_tx_Inr [runs]: "run (withTransaction q) w = (Inr a, w') \<longleftrightarrow>
    (\<exists>d. q (clock w) (database w) = Inr (a, d) \<and> w' = w\<lparr>database := d\<rparr>)"
  by (simp add: withTransaction_eq_query run_query_Inr)

lemma run_try_catch_Inl [runs]: "run (try_catch m h) w = (Inl e, w') \<longleftrightarrow>
    (\<exists>e' u. run m w = (Inl e', u) \<and> run (h e') u = (Inl e, w'))"
  by (simp add: run_try_catch split: prod.split sum.split)

lemma run_list_case [runs]: "run (case xs of [] \<Rightarrow> p | y # ys \<Rightarrow> f y ys) w = r \<longleftrightarrow>
    xs = [] \<and> run p w = r \<or> (\<exists>y ys. xs = y # ys \<and> run (f y ys) w = r)"
  by (cases xs) auto

lemma run_parsed_Inr [runs]: "run (parsed r) w = (Inr a, w') \<longleftrightarrow> r = Some a \<and> w' = w"
  by (cases r) auto

lemma run_lift_Inr [runs]: "run (lift r) w = (Inr a, w') \<longleftrightarrow> r = Inr a \<and> w' = w"
  by (cases r) auto

lemma run_reply_eq [runs]: "run (reply n b) w = (r, w') \<longleftrightarrow> r = Inr \<lparr>status = n, body = b\<rparr> \<and> w' = w"
  by (auto simp: reply_def)

lemma run_query_Inl [runs]: "run (query q) w = (Inl e, w') \<longleftrightarrow>
    (\<exists>x. q (clock w) (database w) = Inl x \<and> e = DbError x \<and> w' = w)"
  by (auto simp: run_query split: sum.split)

lemma run_tx_Inl [runs]: "run (withTransaction q) w = (Inl e, w') \<longleftrightarrow>
    (\<exists>x. q (clock w) (database w) = Inl x \<and> e = DbError x \<and> w' = w)"
  by (simp add: withTransaction_eq_query run_query_Inl)

lemma run_parsed_Inl [runs]: "run (parsed r) w = (Inl e, w') \<longleftrightarrow> r = None \<and> e = ZodError \<and> w' = w"
  by (cases r) auto

lemma run_lift_Inl [runs]: "run (lift r) w = (Inl e, w') \<longleftrightarrow> r = Inl e \<and> w' = w"
  by (cases r) auto

lemma run_select_Inr [runs]: "select_stmt f n d = Inr (a, d') \<longleftrightarrow> a = f n d \<and> d' = d"
  by (auto simp: select_stmt_def)

section \<open>The identity challenge\<close>

definition same_but_challenges :: "db \<Rightarrow> db \<Rightarrow> bool" where
  "same_but_challenges d d' \<longleftrightarrow> d' = d\<lparr>identity_challenges := identity_challenges d'\<rparr>"

lemma same_but_challenges_update [simp]:
  "same_but_challenges d d" "same_but_challenges d (d\<lparr>identity_challenges := cs\<rparr>)"
  by (simp_all add: same_but_challenges_def)

lemma run_consume:
  obtains r cs where "run (consumeIdentityChallenge E i k v p pr) w =
      (r, w\<lparr>database := (database w)\<lparr>identity_challenges := cs\<rparr>\<rparr>)"
    and "set cs \<subseteq> set (identity_challenges (database w))"
proof (cases "take_challenge E i k v p (clock w) (database w)")
  case (Inl e)
  then have "run (consumeIdentityChallenge E i k v p pr) w = (Inl (DbError e), w\<lparr>database :=
      (database w)\<lparr>identity_challenges := identity_challenges (database w)\<rparr>\<rparr>)"
    by (simp add: consumeIdentityChallenge_def run_simps)
  then show thesis by (rule that) simp
next
  case (Inr a)
  then obtain hs d where t: "take_challenge E i k v p (clock w) (database w) = Inr (hs, d)"
    by (cases a) auto
  then obtain cs where "d = (database w)\<lparr>identity_challenges := cs\<rparr>"
    and "set cs \<subseteq> set (identity_challenges (database w))"
    by (rule take_challenge_Inr) (auto simp: set_delete_where)
  with t show thesis
    by (intro that [of "fst (run (consumeIdentityChallenge E i k v p pr) w)" cs])
      (auto simp: consumeIdentityChallenge_def run_simps split: list.split)
qed

lemma run_consume_Inl:
  "run (consumeIdentityChallenge E i k v p pr) w = (Inl e, w') \<Longrightarrow> e \<noteq> ZodError"
proof -
  have "e' = CryptoError" if "timingSafeEqual a b = Inl e'" for a b e'
    using that by (simp add: timingSafeEqual_def split: if_splits)
  then have "run (case rows of [h] \<Rightarrow> lift (timingSafeEqual (from_hex h) b) | _ \<Rightarrow> Return False) u =
      (Inl e, w') \<Longrightarrow> e \<noteq> ZodError" for rows b u
    by (cases rows; cases "tl rows") (auto simp: runs)
  then show "run (consumeIdentityChallenge E i k v p pr) w = (Inl e, w') \<Longrightarrow> e \<noteq> ZodError"
    unfolding consumeIdentityChallenge_def runs by blast
qed

lemma run_consume_same:
  assumes "run (consumeIdentityChallenge E i k v p pr) w = (r, w')"
  shows "same_but_challenges (database w) (database w')"
  by (rule run_consume [of E i k v p pr w]) (use assms in simp)

lemma run_consume_True:
  assumes "run (consumeIdentityChallenge E i k v p pr) w = (Inr True, w')"
  obtains c x ch where "pg_uuid E i = Some c" and "pg_uuid E v = Some x"
    and "challenge_matches c k x p (clock w) ch" and "ch \<in> set (identity_challenges (database w))"
    and "from_hex (ic_proof_hash ch) = from_hex (tokenHash E pr)"
    and "w' = w\<lparr>database := (database w)\<lparr>identity_challenges :=
           delete_where (challenge_matches c k x p (clock w)) (identity_challenges (database w))\<rparr>\<rparr>"
proof -
  from assms obtain h d where t: "take_challenge E i k v p (clock w) (database w) = Inr ([h], d)"
    and h: "from_hex h = from_hex (tokenHash E pr)" and w': "w' = w\<lparr>database := d\<rparr>"
    by (auto simp: consumeIdentityChallenge_def run_simps timingSafeEqual_def
        split: sum.splits prod.splits list.splits if_splits)
  from t show thesis
  proof (rule take_challenge_Inr)
    fix c x
    let ?hit = "challenge_matches c k x p (clock w)"
    assume *: "pg_uuid E i = Some c" "pg_uuid E v = Some x"
      "[h] = map ic_proof_hash (filter ?hit (identity_challenges (database w)))"
      "d = (database w)\<lparr>identity_challenges := delete_where ?hit (identity_challenges (database w))\<rparr>"
    from *(3) obtain ch where f: "filter ?hit (identity_challenges (database w)) = [ch]"
      and "ic_proof_hash ch = h" by auto
    from f have "set (filter ?hit (identity_challenges (database w))) = {ch}" by simp
    then have "ch \<in> set (identity_challenges (database w))" and "?hit ch" by auto
    with *(1,2,4) h w' \<open>ic_proof_hash ch = h\<close> show thesis by (intro that [of c x ch]) simp_all
  qed
qed

section \<open>Sessions and device tokens\<close>

lemma run_registerFCMToken_eq:
  "\<exists>e. run (registerFCMToken E userId deviceId token) w = (Inl (DbError e), w)"
  by (rule run_registerFCMToken) blast

lemma insert_session_stmt_d:
  assumes "insert_session_stmt E t u now d = Inr (r, d')"
  shows "d' = d\<lparr>auth_sessions := auth_sessions d @ [\<lparr>as_token_hash = tokenHash E t,
           as_user_id = u, as_expires_at = now + session_days\<rparr>]\<rparr>"
  using assms by (auto simp: insert_session_stmt_def dest!: insert_session_Inr)

lemma run_registerFCMToken_Inr [runs]: "run (registerFCMToken E u v t) w = (Inr a, w') \<longleftrightarrow> False"
  using run_registerFCMToken_eq [of E u v t w] by auto

lemma run_registerFCMToken_Inl: "run (registerFCMToken E u v t) w = (Inl e, w') \<Longrightarrow> e \<noteq> ZodError"
  using run_registerFCMToken_eq [of E u v t w] by auto

lemma run_issueSession_Inl: "run (issueSession E t u) w = (Inl e, w') \<Longrightarrow> e \<noteq> ZodError"
  by (auto simp: run_issueSession split: sum.splits prod.splits)

lemma run_issueSession_Inr [runs]: "run (issueSession E t u) w = (Inr a, w') \<longleftrightarrow> a = to_hex t \<and>
    insert_session_stmt E (to_hex t) u (clock w) (database w) = Inr ((), database w') \<and>
    w' = w\<lparr>database := database w'\<rparr>"
  by (auto simp: run_issueSession split: sum.split prod.split)

lemmas no_zod = run_consume_Inl run_registerFCMToken_Inl run_issueSession_Inl

text \<open>A program with a guarantee keeps it when it runs alone.\<close>

lemma run_integrity:
  assumes "guar (on_db ok_step) p" and "db_ok (database w)" and "run p w = (r, w')"
  shows "db_ok (database w')"
  using guar_run [OF assms(1), of w] assms(2,3) by (auto simp: on_db_def)

end
