(* ===== verification/Samples.thy ===== *)
theory Samples
  imports Runs "HOL-Library.Code_Target_Nat"
begin

text \<open>
  A small concrete world on which the properties are evaluated: two accounts with one
  conversation, a device, a session of the first account and open challenges for a
  registration and a login.
\<close>

definition uuid :: "char \<Rightarrow> string" where
  "uuid c = replicate 36 c"

definition key_of :: "char \<Rightarrow> string" where
  "key_of c = replicate 64 c"

definition sample_user :: "char \<Rightarrow> user" where
  "sample_user c =
     \<lparr>u_id = uuid c, u_chhaya_id = ''05'' @ key_of c, u_display_name = [c], u_public_key = key_of c,
      u_encrypted_private_key = [], u_recovery_phrase_hash = ''scrypt:00:'' @ concat (replicate 32 ''61''),
      u_biometric_enabled = False, u_pin_hash = None, u_panic_pin_hash = None,
      u_created_at = 0, u_updated_at = 0, u_last_seen_at = None, u_is_active = True\<rparr>"

definition sample_participant :: "char \<Rightarrow> char \<Rightarrow> participant" where
  "sample_participant c u =
     \<lparr>p_conversation_id = uuid c, p_user_id = uuid u, p_joined_at = 0, p_left_at = None,
      p_is_admin = False, p_last_read_at = Some 0, p_last_active_at = 0\<rparr>"

definition sample_device :: "char \<Rightarrow> char \<Rightarrow> device" where
  "sample_device i u =
     \<lparr>d_id = uuid i, d_user_id = uuid u, d_device_name = None, d_platform = None,
      d_fcm_token = Some [i], d_public_key = key_of u, d_last_active_at = 0, d_is_linked = False,
      d_created_at = 0\<rparr>"

definition sample_message :: "char \<Rightarrow> char \<Rightarrow> timestamp \<Rightarrow> message" where
  "sample_message i u t =
     \<lparr>m_id = uuid i, m_conversation_id = uuid (CHR ''c''), m_sender_id = uuid u, m_content = [i],
      m_message_type = ''text'', m_media_url = None, m_media_meta = None, m_reply_to_id = None,
      m_sent_at = t, m_delivered_at = None, m_read_at = None, m_is_deleted = False\<rparr>"

text \<open>The hash of the token of account \<open>a\<close>, and of the two proofs, under the sample digest.\<close>

definition sample_token :: string where
  "sample_token = key_of (CHR ''1'')"

definition sample_hash :: string where
  "sample_hash = concat (replicate 32 ''31'')"

definition sample_challenge :: "char \<Rightarrow> char \<Rightarrow> char \<Rightarrow> string \<Rightarrow> challenge" where
  "sample_challenge i k v purpose =
     \<lparr>ic_id = uuid i, ic_public_key = key_of k, ic_device_id = uuid v, ic_purpose = purpose,
      ic_proof_hash = sample_hash, ic_expires_at = 100\<rparr>"

definition sample_db :: db where
  "sample_db =
     \<lparr>users = [sample_user (CHR ''a''), sample_user (CHR ''b'')], contacts = [],
      conversations =
        [\<lparr>c_id = uuid (CHR ''c''), c_type = ''direct'', c_name = None, c_avatar_url = None,
          c_created_by = uuid (CHR ''a''), c_created_at = 0, c_updated_at = 0\<rparr>],
      participants = [sample_participant (CHR ''c'') (CHR ''a''), sample_participant (CHR ''c'') (CHR ''b'')],
      messages = [sample_message (CHR ''m'') (CHR ''b'') 5, sample_message (CHR ''n'') (CHR ''a'') 7],
      devices = [sample_device (CHR ''d'') (CHR ''b'')],
      push_subscriptions = [], onion_nodes = [],
      identity_challenges =
        [sample_challenge (CHR ''r'') (CHR ''e'') (CHR ''f'') ''register'',
         sample_challenge (CHR ''k'') (CHR ''a'') (CHR ''d'') ''login'',
         sample_challenge (CHR ''l'') (CHR ''a'') (CHR ''g'') ''login''],
      auth_sessions = [\<lparr>as_token_hash = sample_hash, as_user_id = uuid (CHR ''a''), as_expires_at = 50\<rparr>]\<rparr>"

definition sample_world :: world where
  "sample_world =
     \<lparr>clock = 10, database = sample_db, clients = [], user_clients = [], open_sockets = [], connections = [],
      ping_intervals = [], frames = [],
      push_ready = False, push_jobs = []\<rparr>"

definition sample_draw :: draw where
  "sample_draw =
     \<lparr>dr_uuid = uuid (CHR ''u''), dr_salt = [0], dr_token = [17],
      dr_challenge = \<lparr>cd_private = [3], cd_id = uuid (CHR ''q''), cd_nonce = [8]\<rparr>\<rparr>"

definition register_json :: json where
  "register_json = JObj
     [(''challengeId'', JStr (uuid (CHR ''r''))), (''identityProof'', JStr (key_of (CHR ''1''))),
      (''chhayaId'', JStr (''05'' @ key_of (CHR ''e''))), (''displayName'', JStr ''Eve''),
      (''publicKey'', JStr (key_of (CHR ''e''))), (''encryptedPrivateKey'', JStr ''x''),
      (''recoveryPhraseHash'', JStr (key_of (CHR ''z''))), (''deviceId'', JStr (uuid (CHR ''f'')))]"

definition login_json :: json where
  "login_json = JObj
     [(''challengeId'', JStr (uuid (CHR ''l''))), (''identityProof'', JStr (key_of (CHR ''1''))),
      (''chhayaId'', JStr (''05'' @ key_of (CHR ''a''))),
      (''recoveryPhraseHash'', JStr (key_of (CHR ''a''))), (''deviceId'', JStr (uuid (CHR ''g'')))]"

text \<open>A login of account \<open>a\<close> with the device of account \<open>b\<close>.\<close>

definition foreign_login_json :: json where
  "foreign_login_json = JObj
     [(''challengeId'', JStr (uuid (CHR ''k''))), (''identityProof'', JStr (key_of (CHR ''1''))),
      (''chhayaId'', JStr (''05'' @ key_of (CHR ''a''))),
      (''recoveryPhraseHash'', JStr (key_of (CHR ''a''))), (''deviceId'', JStr (uuid (CHR ''d'')))]"

fun with_token :: "json \<Rightarrow> json" where
  "with_token (JObj fs) = JObj (fs @ [(''fcmToken'', JStr ''t'')])"
| "with_token j = j"

lemma sample_db_ok: "db_ok sample_db"
  by code_simp

lemma sample_world_ok: "db_ok (database sample_world)"
  using sample_db_ok by (simp add: sample_world_def)

end
