(* ===== verification/Access.thy ===== *)
theory Access
  imports Samples
begin

text \<open>
  Accounts and sessions: what registration, login, logout and the bearer-token middleware
  establish when a handler runs alone.  What other programs can do to these rows in
  between is the subject of the theories on evolution and membership.
\<close>

section \<open>Proofs of identity\<close>

text \<open>An unexpired challenge for exactly this key, device and purpose was answered with
  the proof whose hash it holds, and it is gone afterwards.\<close>

definition proved_by ::
  "externals \<Rightarrow> string \<Rightarrow> string \<Rightarrow> string \<Rightarrow> string \<Rightarrow> string \<Rightarrow> world \<Rightarrow> db \<Rightarrow> bool" where
  "proved_by E challengeId key deviceId purpose proof w d' \<longleftrightarrow>
     (\<exists>c x ch. pg_uuid E challengeId = Some c \<and> pg_uuid E deviceId = Some x \<and>
        ch \<in> set (identity_challenges (database w)) \<and>
        challenge_matches c key x purpose (clock w) ch \<and>
        from_hex (ic_proof_hash ch) = sha256 E proof \<and>
        identity_challenges d' =
          delete_where (challenge_matches c key x purpose (clock w)) (identity_challenges (database w)))"

lemma run_consume_proved:
  assumes "run (consumeIdentityChallenge E i k v p pr) w = (Inr True, w')"
  shows "proved_by E i k v p pr w (database w') \<and> clock w' = clock w"
  by (rule run_consume_True [OF assms]) (auto simp: proved_by_def tokenHash_def)

section \<open>Registration\<close>

definition registered :: "externals \<Rightarrow> draw \<Rightarrow> register_data \<Rightarrow> world \<Rightarrow> db \<Rightarrow> bool" where
  "registered E draw data w d' \<longleftrightarrow> (let d = database w in \<exists>u v.
     d' = d\<lparr>users := users d @ [u], devices := devices d @ [v],
            auth_sessions := auth_sessions d @
              [\<lparr>as_token_hash = tokenHash E (to_hex (dr_token draw)), as_user_id = u_id u,
                as_expires_at = clock w + session_days\<rparr>],
            identity_challenges := identity_challenges d'\<rparr> \<and>
     u_id u = dr_uuid draw \<and> u_chhaya_id u = ''05'' @ rs_publicKey data \<and>
     u_public_key u = rs_publicKey data \<and> u_is_active u \<and>
     u_recovery_phrase_hash u = hashCredential E (dr_salt draw) (rs_recoveryPhraseHash data) \<and>
     pg_uuid E (rs_deviceId data) = Some (d_id v) \<and> d_user_id v = u_id u \<and>
     d_public_key v = u_public_key u \<and>
     proved_by E (rs_challengeId data) (rs_publicKey data) (rs_deviceId data) ''register''
       (rs_identityProof data) w d')"

text \<open>The transaction of the registration.\<close>

lemma register_tx_Inr:
  assumes "registerSchema E json = Some data" and "rs_chhayaId data = ''05'' @ rs_publicKey data"
    and "register_tx E salt userId created data now d = Inr (r, d')"
  obtains u v where "d' = d\<lparr>users := users d @ [u], devices := devices d @ [v]\<rparr>"
    and "u_id u = userId" and "u_chhaya_id u = ''05'' @ rs_publicKey data"
    and "u_public_key u = rs_publicKey data" and "u_is_active u"
    and "u_recovery_phrase_hash u = hashCredential E salt (rs_recoveryPhraseHash data)"
    and "pg_uuid E (rs_deviceId data) = Some (d_id v)" and "d_user_id v = userId"
    and "d_public_key v = rs_publicKey data"
proof -
  have len: "length (rs_publicKey data) = 64"
    using registerSchema_ok(4) [OF assms(1)] by (simp add: hex64_def hex_string_def)
  from assms(3) obtain d1 n where user: "insert_user_stmt E salt userId created data now d = Inr ((), d1)"
    and dev: "register_device_stmt E userId data now d1 = Inr (n, d')"
    by (auto simp: register_tx_def stmt_bind_def stmt_return_def split: sum.splits prod.splits)
  from user obtain u where d1: "d1 = d\<lparr>users := users d @ [u]\<rparr>" and u: "u_id u = userId"
      "u_chhaya_id u = ''05'' @ rs_publicKey data" "u_public_key u = rs_publicKey data" "u_is_active u"
      "u_recovery_phrase_hash u = hashCredential E salt (rs_recoveryPhraseHash data)"
    using len assms(2) registerSchema_ok(6) [OF assms(1)] by (auto simp: insert_user_stmt_def insert_user_def pg_text_def
        split: option.splits if_splits dest!: varchar_fits)
  from dev obtain x where x: "pg_uuid E (rs_deviceId data) = Some x"
    by (auto simp: register_device_stmt_def with_uuid_def uuid_param_def split: option.splits)
  with dev have "insert_device \<lparr>dv_user_id = userId, dv_id = x,
          dv_device_name = Some (or_default (rs_deviceName data) ''Primary''),
          dv_platform = Some (or_default (rs_platform data) ''unknown''),
          dv_fcm_token = or_null (rs_fcmToken data),
          dv_public_key = Some (rs_publicKey data), dv_is_linked = False\<rparr> None now d1 = Inr (n, d')"
    by (simp add: register_device_stmt_def with_uuid_def uuid_param_def)
  then show thesis
  proof (cases rule: insert_device_cases)
    case (new v)
    have "d_public_key v = rs_publicKey data"
      using new(1) len by (auto simp: device_row_def dest: varchar_fits)
    with new(2) u x d1 device_row_Inr [OF new(1)] show thesis by (intro that [of v u]) auto
  qed simp
qed


lemma auth_register_201:
  assumes "run (auth_register E draw json) w = (Inr x, w')" and "status x = 201"
  obtains data u d where "registerSchema E json = Some data"
    and "rs_chhayaId data = ''05'' @ rs_publicKey data" and "or_null (rs_fcmToken data) = None"
    and "run (consumeIdentityChallenge E (rs_challengeId data) (rs_publicKey data)
           (rs_deviceId data) ''register'' (rs_identityProof data)) w = (Inr True, u)"
    and "register_tx E (dr_salt draw) (dr_uuid draw) (date_now u * 1000) data
           (clock u) (database u) = Inr ((), d)"
    and "insert_session_stmt E (to_hex (dr_token draw)) (dr_uuid draw) (clock u) d =
           Inr ((), database w')"
    and "users_with_chhaya_id (rs_chhayaId data) (database u) = []"
  using assms
  by (auto simp: auth_register_def runs Let_def split: if_splits option.splits)




lemma same_but_challenges_fields:
  assumes "same_but_challenges d d'"
  shows "users d' = users d" and "devices d' = devices d" and "auth_sessions d' = auth_sessions d"
  using assms unfolding same_but_challenges_def by (cases d; cases d'; simp)+

text \<open>The rest of the handler once the transaction has committed.\<close>

lemma run_register_committed:
  assumes "registerSchema E json = Some data" and "rs_chhayaId data = ''05'' @ rs_publicKey data"
    and "run (consumeIdentityChallenge E (rs_challengeId data) (rs_publicKey data)
           (rs_deviceId data) ''register'' (rs_identityProof data)) w = (Inr True, w1)"
    and "users_with_chhaya_id (rs_chhayaId data) (database w1) = []"
    and "register_tx E (dr_salt draw) (dr_uuid draw) (date_now w1 * 1000) data (clock w1)
           (database w1) = Inr ((), d)"
  shows "\<exists>x w'. run (auth_register E draw json) w = (Inr x, w') \<and>
    (status x = 201 \<or> status x = 500) \<and> users (database w') = users d \<and>
    devices (database w') = devices d"
proof -
  have "users_with_chhaya_id (CHR ''0'' # CHR ''5'' # rs_publicKey data) (database w1) = []"
    using assms(2,4) by simp
  note eval = this assms auth_register_def run_simps Let_def select_stmt_def
  show ?thesis
  proof (cases "or_null (rs_fcmToken data)")
    case None
    then show ?thesis
      by (cases "insert_session_stmt E (to_hex (dr_token draw)) (dr_uuid draw) (clock w1) d")
        (auto simp: eval dest: insert_session_stmt_d)
  next
    case (Some t)
    obtain e where "run (registerFCMToken E (dr_uuid draw) (rs_deviceId data) t)
        (w1\<lparr>database := d\<rparr>) = (Inl (DbError e), w1\<lparr>database := d\<rparr>)"
      by (rule run_registerFCMToken)
    with Some show ?thesis by (simp add: eval)
  qed
qed

text \<open>C13. Registration always answers, and whatever the answer, the account and its device
  have appeared together or nothing but challenges has changed; if they have appeared the
  answer is 201 or 500.\<close>

theorem registration_atomic:
  "\<exists>n. answer (run (auth_register E draw json) w) = Some n \<and>
     (let d = database w; d' = database (snd (run (auth_register E draw json) w)) in
      same_but_challenges d d' \<or>
      (n = 201 \<or> n = 500) \<and>
      (\<exists>u v. users d' = users d @ [u] \<and> devices d' = devices d @ [v] \<and> d_user_id v = u_id u))"
proof (cases "registerSchema E json")
  case (Some data)
  let ?consume = "consumeIdentityChallenge E (rs_challengeId data) (rs_publicKey data)
      (rs_deviceId data) ''register'' (rs_identityProof data)"
  let ?key = "rs_chhayaId data = ''05'' @ rs_publicKey data"
  obtain r w1 where c: "run ?consume w = (r, w1)" by fastforce
  note same = run_consume_same [OF c]
  let ?tx = "register_tx E (dr_salt draw) (dr_uuid draw) (date_now w1 * 1000) data (clock w1) (database w1)"
  show ?thesis
  proof (cases "r = Inr True \<and> users_with_chhaya_id (rs_chhayaId data) (database w1) = [] \<and> ?key \<and>
      (\<exists>d. ?tx = Inr ((), d))")
    case False
    then have "\<exists>x. run (auth_register E draw json) w = (Inr x, w1)"
      by (cases r; cases ?tx) (auto simp: auth_register_def run_simps Some c Let_def select_stmt_def)
    with same show ?thesis by auto
  next
    case True
    then obtain d where tx: "?tx = Inr ((), d)" by auto
    with True Some obtain u v where "users d = users (database w1) @ [u]"
        "devices d = devices (database w1) @ [v]" "d_user_id v = u_id u"
      by (auto elim: register_tx_Inr)
    moreover from True c tx obtain x w' where "run (auth_register E draw json) w = (Inr x, w')"
        "status x = 201 \<or> status x = 500" "users (database w') = users d" "devices (database w') = devices d"
      using run_register_committed [OF Some] by blast
    ultimately show ?thesis using same_but_challenges_fields [OF same] by auto
  qed
qed (simp add: auth_register_def run_simps)



section \<open>Login\<close>

lemma auth_login_200:
  assumes "run (auth_login E draw json) w = (Inr x, w')" and "status x = 200"
  obtains data w1 u us d where "loginSchema E json = Some data"
    and "or_null (lg_fcmToken data) = None"
    and "run (consumeIdentityChallenge E (lg_challengeId data) (drop 2 (lg_chhayaId data))
           (lg_deviceId data) ''login'' (lg_identityProof data)) w = (Inr True, w1)"
    and "login_users (lg_chhayaId data) (database w1) = u # us"
    and "verifyCredential E (lg_recoveryPhraseHash data) (u_recovery_phrase_hash u) = Inr True"
    and "login_device_stmt E u data (clock w1) (database w1) = Inr (1, d)"
    and "insert_session_stmt E (to_hex (dr_token draw)) (u_id u) (clock w1)
           (d\<lparr>users := update_where (\<lambda>y. u_id y = u_id u)
              (\<lambda>y. y\<lparr>u_last_seen_at := Some (clock w1)\<rparr>) (users d)\<rparr>) = Inr ((), database w')"
    and "body x = BSession (u_id u) (to_hex (dr_token draw))"
  using assms
  by (auto simp: auth_login_def runs touch_user_stmt_def exec_stmt_def
      split: if_splits option.splits list.splits)

text \<open>The device a login or a link names is the account's when a row was written.\<close>

lemma insert_device_owned:
  assumes "insert_device vals (Some (\<lambda>r e. d_user_id r = d_user_id e, upd)) now d = Inr (n, d')"
    and "n = 1" and "\<And>r e. d_id (upd r e) = d_id r \<and> d_user_id (upd r e) = d_user_id r"
  shows "\<exists>v \<in> set (devices d'). d_id v = dv_id vals \<and> d_user_id v = dv_user_id vals"
  using assms(1)
proof (cases rule: insert_device_cases)
  case (new e)
  with device_row_Inr [OF new(1)] show ?thesis by (intro bexI [of _ e]) auto
next
  case (old wher upd' e)
  then have "filter (\<lambda>r. d_id r = dv_id vals \<and> d_user_id r = d_user_id e) (devices d) \<noteq> []"
    using assms(2) by auto
  then obtain r where "r \<in> set (devices d)" "d_id r = dv_id vals" "d_user_id r = d_user_id e"
    by (auto simp: filter_empty_conv)
  with old assms(3) device_row_Inr [OF old(1)] show ?thesis
    by (intro bexI [of _ "upd r e"]) (auto simp: set_update_where)
qed

lemma insert_device_frame:
  assumes "insert_device vals conflict now d = Inr (n, d')"
  shows "d' = d\<lparr>devices := devices d'\<rparr>"
  using assms by (cases rule: insert_device_cases) simp_all

lemma login_device_owned:
  assumes "login_device_stmt E u data now d = Inr (1, d')"
  shows "\<exists>v \<in> set (devices d'). pg_uuid E (lg_deviceId data) = Some (d_id v) \<and> d_user_id v = u_id u"
    and "d' = d\<lparr>devices := devices d'\<rparr>"
proof -
  show "\<exists>v \<in> set (devices d'). pg_uuid E (lg_deviceId data) = Some (d_id v) \<and> d_user_id v = u_id u"
    using assms by (auto simp: login_device_stmt_def with_uuid_def uuid_param_def
        split: option.splits dest!: insert_device_owned)
  show "d' = d\<lparr>devices := devices d'\<rparr>"
    using assms by (auto simp: login_device_stmt_def with_uuid_def dest: insert_device_frame)
qed

lemma login_users_head:
  assumes "login_users i d = u # us"
  shows "u \<in> set (users d)" and "u_chhaya_id u = i" and "u_is_active u"
proof -
  have "u \<in> set (login_users i d)" using assms by simp
  then show "u \<in> set (users d)" and "u_chhaya_id u = i" and "u_is_active u"
    by (auto simp: login_users_def)
qed

lemma active_user_touched:
  assumes "u \<in> set (users d)" and "u_is_active u" and "u_id (f u) = u_id u \<and> u_is_active (f u)"
  shows "active_user (u_id u) (d\<lparr>users := update_where P f (users d)\<rparr>)"
proof -
  have "(if P u then f u else u) \<in> set (update_where P f (users d))"
    using assms(1) by (simp add: set_update_where)
  with assms(2,3) show ?thesis by (auto simp: active_user_def list_ex_iff split: if_splits)
qed

text \<open>A session issued to an active account authenticates it for thirty days.\<close>

lemma session_issued:
  assumes "keys_ok d" and "insert_session_stmt E t userId now d = Inr (r, d')" and "active_user userId d"
  shows "auth_user (tokenHash E t) n d' = (if n < now + session_days then Some userId else None)"
  using store.auth_issue [OF assms(1) insert_session_stmt_Inr [OF assms(2)] assms(3)] by simp

definition logged_in :: "externals \<Rightarrow> draw \<Rightarrow> login_data \<Rightarrow> user \<Rightarrow> world \<Rightarrow> response \<Rightarrow> db \<Rightarrow> bool" where
  "logged_in E draw data u w x d' \<longleftrightarrow>
     u \<in> set (users (database w)) \<and> u_chhaya_id u = lg_chhayaId data \<and> u_is_active u \<and>
     verifyCredential E (lg_recoveryPhraseHash data) (u_recovery_phrase_hash u) = Inr True \<and>
     proved_by E (lg_challengeId data) (drop 2 (lg_chhayaId data)) (lg_deviceId data) ''login''
       (lg_identityProof data) w d' \<and>
     (\<exists>v \<in> set (devices d'). pg_uuid E (lg_deviceId data) = Some (d_id v) \<and> d_user_id v = u_id u) \<and>
     body x = BSession (u_id u) (to_hex (dr_token draw)) \<and>
     (\<forall>n. auth_user (tokenHash E (to_hex (dr_token draw))) n d' =
       (if n < clock w + session_days then Some (u_id u) else None))"

text \<open>C2. A login answered with 200 took the identifier and credential of an active account and a
  fresh proof of its key, the device named is now the account's own, and the returned
  token authenticates the account for thirty days and no longer.\<close>

theorem login_sound:
  assumes "db_ok (database w)" and "run (auth_login E draw json) w = (Inr x, w')" and "status x = 200"
  shows "\<exists>data u. loginSchema E json = Some data \<and> logged_in E draw data u w x (database w')"
  using assms(2,3)
proof (rule auth_login_200)
  fix data and u :: user and us and d :: db and w1 :: world
  let ?d2 = "d\<lparr>users := update_where (\<lambda>y. u_id y = u_id u)
              (\<lambda>y. y\<lparr>u_last_seen_at := Some (clock w1)\<rparr>) (users d)\<rparr>"
  assume data: "loginSchema E json = Some data"
    and proved: "run (consumeIdentityChallenge E (lg_challengeId data) (drop 2 (lg_chhayaId data))
           (lg_deviceId data) ''login'' (lg_identityProof data)) w = (Inr True, w1)"
    and user: "login_users (lg_chhayaId data) (database w1) = u # us"
    and cred: "verifyCredential E (lg_recoveryPhraseHash data) (u_recovery_phrase_hash u) = Inr True"
    and dev: "login_device_stmt E u data (clock w1) (database w1) = Inr (1, d)"
    and session: "insert_session_stmt E (to_hex (dr_token draw)) (u_id u) (clock w1) ?d2 = Inr ((), database w')"
  note same = same_but_challenges_fields [OF run_consume_same [OF proved]]
  assume x: "body x = BSession (u_id u) (to_hex (dr_token draw))"
  have ok1: "db_ok (database w1)"
    using run_integrity [OF integrity.on_database.g_consume assms(1) proved] .
  have ok: "keys_ok ?d2"
    using keepsD [OF keeps_touch_user keepsD [OF keeps_login_device ok1 dev], of "u_id u" "clock w1" "()" ?d2]
    by (simp add: touch_user_stmt_def exec_stmt_def db_ok_def)
  have u: "u \<in> set (users (database w))" "u \<in> set (users d)"
    using login_users_head(1) [OF user] same(1) arg_cong [OF login_device_owned(2) [OF dev], of users] by simp_all
  then have active: "active_user (u_id u) ?d2"
    using login_users_head(3) [OF user] by (auto intro: active_user_touched)
  have w': "database w' = ?d2\<lparr>auth_sessions := auth_sessions (database w')\<rparr>"
    using insert_session_stmt_d [OF session] by simp
  have pr: "proved_by E (lg_challengeId data) (drop 2 (lg_chhayaId data)) (lg_deviceId data) ''login''
      (lg_identityProof data) w (database w')"
    using run_consume_proved [OF proved] arg_cong [OF login_device_owned(2) [OF dev], of identity_challenges]
      arg_cong [OF w', of identity_challenges] by (simp add: proved_by_def)
  have "\<exists>v \<in> set (devices (database w')). pg_uuid E (lg_deviceId data) = Some (d_id v) \<and> d_user_id v = u_id u"
    using login_device_owned(1) [OF dev] arg_cong [OF w', of devices] by simp
  with data u(1) login_users_head(2,3) [OF user] cred pr x session_issued [OF ok session active]
    run_consume_proved [OF proved]
  show ?thesis by (auto simp: logged_in_def)
qed

theorem login_sound_witness:
  "\<exists>data u x w'. run (auth_login sample_externals sample_draw login_json) sample_world = (Inr x, w') \<and>
    status x = 200 \<and> loginSchema sample_externals login_json = Some data \<and>
    logged_in sample_externals sample_draw data u sample_world x (database w')"
proof -
  have "answer (run (auth_login sample_externals sample_draw login_json) sample_world) = Some 200"
    by code_simp
  then show ?thesis unfolding answer_Some using login_sound [OF sample_world_ok] by blast
qed

lemma insert_device_no_row:
  assumes "keys_ok d" and "insert_device vals (Some (\<lambda>r e. d_user_id r = d_user_id e, upd)) now d = Inr (n, d')"
    and "n \<noteq> 1"
  shows "d' = d"
  using assms(2)
proof (cases rule: insert_device_cases)
  case (old wher upd' e)
  let ?hit = "\<lambda>r. d_id r = dv_id vals \<and> d_user_id r = d_user_id e"
  have "length (filter ?hit (devices d)) \<le> 1"
    using assms(1) filter_key_length [of d_id "devices d" "dv_id vals"] by (simp add: keys_ok_def)
  moreover have eqs: "wher = (\<lambda>r e. d_user_id r = d_user_id e)" "upd' = upd" using old by auto
  ultimately have "filter ?hit (devices d) = []" using old assms(3) by (cases "filter ?hit (devices d)") auto
  then have "update_where ?hit (\<lambda>r. upd r e) (devices d) = devices d"
    by (auto simp: filter_empty_conv intro: update_where_none)
  with old show ?thesis by (simp add: eqs)
qed (use assms(3) in simp)

lemma no_zod_simps:
  "run (consumeIdentityChallenge E i k v p pr) w = (Inl ZodError, w') \<longleftrightarrow> False"
  "run (registerFCMToken E u v t) w = (Inl ZodError, w') \<longleftrightarrow> False"
  "run (issueSession E tk u) w = (Inl ZodError, w') \<longleftrightarrow> False"
  "verifyCredential E a b = Inl ZodError \<longleftrightarrow> False"
  by (auto dest: no_zod simp: verifyCredential_def timingSafeEqual_def split: list.splits if_splits)

lemma auth_login_refused:
  assumes "run (auth_login E draw json) w = (Inr x, w')" and "status x \<noteq> 200" and "status x \<noteq> 500"
  obtains (early) "same_but_challenges (database w) (database w')"
  | (device) i k v pr w1 u data n where
      "run (consumeIdentityChallenge E i k v ''login'' pr) w = (Inr True, w1)"
      and "login_device_stmt E u data (clock w1) (database w1) = Inr (n, database w')" and "n \<noteq> 1"
  using assms
  by (auto simp: auth_login_def runs touch_user_stmt_def exec_stmt_def no_zod_simps
      split: if_splits option.splits dest: run_consume_same)

text \<open>A login that is answered with neither 200 nor 500 has used up its challenge and changed
  nothing else; in particular a device of another account keeps its row.\<close>

lemma login_refused:
  assumes "db_ok (database w)" and "run (auth_login E draw json) w = (Inr x, w')"
    and "status x \<noteq> 200" and "status x \<noteq> 500"
  shows "same_but_challenges (database w) (database w')"
  using assms(2-4)
proof (cases rule: auth_login_refused)
  case (device i k v pr w1 u data n)
  have "keys_ok (database w1)"
    using run_integrity [OF integrity.on_database.g_consume assms(1) device(1)] by (simp add: db_ok_def)
  with device(2,3) have "database w' = database w1"
    by (auto simp: login_device_stmt_def with_uuid_def dest: insert_device_no_row)
  with run_consume_same [OF device(1)] show ?thesis by simp
qed

lemma login_refused_witness:
  "\<exists>x w'. run (auth_login sample_externals sample_draw foreign_login_json) sample_world = (Inr x, w') \<and>
    status x = 409 \<and> same_but_challenges sample_db (database w')"
proof -
  have "answer (run (auth_login sample_externals sample_draw foreign_login_json) sample_world) = Some 409"
    by code_simp
  then obtain x w' where "run (auth_login sample_externals sample_draw foreign_login_json) sample_world =
      (Inr x, w')" and "status x = 409"
    unfolding answer_Some by blast
  then show ?thesis
    using login_refused [of sample_world] sample_db_ok by (fastforce simp: sample_world_def)
qed

section \<open>The bearer token\<close>

text \<open>The account a request's header authenticates.\<close>

definition bearer_user :: "externals \<Rightarrow> string option \<Rightarrow> world \<Rightarrow> string option" where
  "bearer_user E header w =
     (case header of
        Some h \<Rightarrow>
          if starts_with ''Bearer '' h \<and> hex64 (drop 7 h)
          then auth_user (tokenHash E (drop 7 h)) (clock w) (database w) else None
      | None \<Rightarrow> None)"

lemma run_authMiddleware:
  "run (authMiddleware E header handler) w =
     (case bearer_user E header w of
        Some u \<Rightarrow> run (handler u) w
      | None \<Rightarrow> (Inr \<lparr>status = 401, body = BError
          (if \<exists>h. header = Some h \<and> starts_with ''Bearer '' h then ''Invalid or expired token''
           else ''Missing authorization header'')\<rparr>, w))"
  by (auto simp: authMiddleware_def bearer_user_def run_simps split: option.split)



section \<open>Logout\<close>

lemma auth_logout_200:
  assumes "run (auth_logout E header) w = (Inr x, w')" and "status x = 200"
  obtains t where "header = Some (''Bearer '' @ t)"
    and "database w' = revoke_row (tokenHash E t) (database w)"
proof -
  obtain h where h: "header = Some h" "starts_with ''Bearer '' h"
    and w': "database w' = revoke_row (tokenHash E (drop 7 h)) (database w)"
    using assms
    by (auto simp: auth_logout_def run_authMiddleware run_simps delete_session_def exec_stmt_def
        revoke_row_def bearer_user_def split: option.splits if_splits)
  moreover have "h = ''Bearer '' @ drop 7 h"
    using starts_with_append [OF h(2)] by (simp add: eval_nat_numeral)
  ultimately show thesis by (intro that [of "drop 7 h"]) simp_all
qed

text \<open>C16. After a logout answered with 200 the token authenticates nobody, at no time, in no
  later history of the session table that does not issue the very same token again; every
  other token authenticates as before.\<close>

theorem logout_final:
  assumes "db_ok (database w)" and "run (auth_logout E header) w = (Inr x, w')" and "status x = 200"
  shows "\<exists>t. header = Some (''Bearer '' @ t) \<and>
    (\<forall>h n. h \<noteq> tokenHash E t \<longrightarrow> auth_user h n (database w') = auth_user h n (database w)) \<and>
    (\<forall>es d n. store.history es (database w') = Some d \<and> (\<forall>u now. Inl (tokenHash E t, u, now) \<notin> set es) \<longrightarrow>
       auth_user (tokenHash E t) n d = None)"
  using assms(2,3)
proof (rule auth_logout_200)
  fix t
  assume t: "header = Some (''Bearer '' @ t)" and w': "database w' = revoke_row (tokenHash E t) (database w)"
  have "keys_ok (database w)" using assms(1) by (simp add: db_ok_def)
  then have "auth_user (tokenHash E t) n d = None"
    if "store.history es (database w') = Some d" "\<forall>u now. Inl (tokenHash E t, u, now) \<notin> set es" for es d n
    using store.revoked_stays_dead that by (auto simp: w')
  with t show ?thesis by (auto simp: w' store.auth_revoke_other)
qed

theorem logout_final_witness:
  "\<exists>x w'. run (auth_logout sample_externals (Some (''Bearer '' @ sample_token))) sample_world = (Inr x, w') \<and>
    status x = 200 \<and> auth_user sample_hash 11 (revoke_row ''0'' (database w')) = None"
proof -
  have "answer (run (auth_logout sample_externals (Some (''Bearer '' @ sample_token))) sample_world) = Some 200"
    by code_simp
  then obtain x w' where run: "run (auth_logout sample_externals (Some (''Bearer '' @ sample_token)))
      sample_world = (Inr x, w')" "status x = 200"
    unfolding answer_Some by blast
  have hash: "tokenHash sample_externals sample_token = sample_hash" by code_simp
  from logout_final [OF sample_world_ok run] obtain t where "''Bearer '' @ sample_token = ''Bearer '' @ t"
    and dead: "\<forall>es d n. store.history es (database w') = Some d \<and>
      (\<forall>u now. Inl (tokenHash sample_externals t, u, now) \<notin> set es) \<longrightarrow>
      auth_user (tokenHash sample_externals t) n d = None"
    by blast
  then have t: "t = sample_token" by simp
  have "auth_user sample_hash 11 (revoke_row ''0'' (database w')) = None"
    using dead [rule_format, of "[Inr ''0'']" "revoke_row ''0'' (database w')" 11]
    by (simp add: t hash)
  with run show ?thesis by blast
qed

section \<open>Challenges\<close>

lemma createIdentityChallenge_Inr:
  assumes "createIdentityChallenge E dw key device purpose = Inr (c, h)"
  shows "pc_challengeId c = cd_id dw" and "from_hex (pc_serverPublicKey c) = x25519_public E (cd_private dw)"
    and "h = tokenHash E (to_hex (hmac_sha256 E (x25519 E (cd_private dw) (from_hex key)) (pc_context c)))"
  using assms by (auto simp: createIdentityChallenge_def Let_def split: if_splits)

text \<open>C17. The honest client: whoever holds the private key of the challenged public key computes
  a proof that is accepted until the challenge expires two minutes after its issue.\<close>

theorem honest_proof_accepted:
  assumes "externals_ok E" and "keys_ok (database w)"
    and "run (issueIdentityChallenge E dw key device purpose) w = (Inr c, w')"
    and "key = to_hex (x25519_public E sk)" and "pg_uuid E (cd_id dw) = Some (cd_id dw)"
    and "t < clock w + challenge_life"
  shows "fst (run (consumeIdentityChallenge E (pc_challengeId c) key device purpose
      (client_proof E sk c)) (w'\<lparr>clock := t\<rparr>)) = Inr True"
proof -
  from assms(3) obtain h d1 d2 where create: "createIdentityChallenge E dw key device purpose = Inr (c, h)"
    and d1: "delete_expired_challenges (clock w) (database w) = Inr ((), d1)"
    and d2: "insert_challenge_stmt E (pc_challengeId c) key device purpose h (clock w) d1 = Inr ((), d2)"
    and w': "w' = w\<lparr>database := d2\<rparr>"
    by (auto simp: issueIdentityChallenge_def runs)
  note c = createIdentityChallenge_Inr [OF create]
  have "client_proof E sk c =
      to_hex (hmac_sha256 E (x25519 E (cd_private dw) (from_hex key)) (pc_context c))"
    by (simp add: client_proof_def c(2) assms(4) externals_okD(5) [OF assms(1), of sk])
  then have h: "h = tokenHash E (client_proof E sk c)" by (simp add: c(3))
  from d2 obtain x where x: "pg_uuid E device = Some x"
    and new: "\<not> has_key ic_id (cd_id dw) (identity_challenges d1)"
    and d2': "d2 = d1\<lparr>identity_challenges := identity_challenges d1 @
      [\<lparr>ic_id = cd_id dw, ic_public_key = key, ic_device_id = x, ic_purpose = purpose,
        ic_proof_hash = h, ic_expires_at = clock w + challenge_life\<rparr>]\<rparr>"
    by (auto simp: insert_challenge_stmt_def with_uuid_def uuid_param_def c(1) split: option.splits
        dest!: insert_challenge_Inr)
  have none: "filter (challenge_matches (cd_id dw) key x purpose t) (identity_challenges d1) = []"
    using new by (auto simp: filter_empty_conv challenge_matches_def has_key_def list_ex_iff)
  show ?thesis
    using assms(6) x none
    by (simp add: consumeIdentityChallenge_def run_simps take_challenge_def with_uuid_def
        uuid_param_def Let_def c(1) assms(5) w' d2' challenge_matches_def timingSafeEqual_def h)
qed

theorem honest_proof_accepted_witness:
  "\<exists>c w'. run (issueIdentityChallenge sample_externals (dr_challenge sample_draw)
        (to_hex (x25519_public sample_externals [5])) (uuid (CHR ''h'')) ''login'') sample_world = (Inr c, w') \<and>
    fst (run (consumeIdentityChallenge sample_externals (pc_challengeId c)
        (to_hex (x25519_public sample_externals [5])) (uuid (CHR ''h'')) ''login''
        (client_proof sample_externals [5] c)) (w'\<lparr>clock := 1000\<rparr>)) = Inr True"
proof -
  let ?issue = "run (issueIdentityChallenge sample_externals (dr_challenge sample_draw)
      (to_hex (x25519_public sample_externals [5])) (uuid (CHR ''h'')) ''login'') sample_world"
  have "case fst ?issue of Inr _ \<Rightarrow> True | Inl _ \<Rightarrow> False" by code_simp
  then obtain c w' where issue: "?issue = (Inr c, w')" by (cases ?issue) (auto split: sum.splits)
  have ok: "keys_ok (database sample_world)" using sample_world_ok by (simp add: db_ok_def)
  have uuid: "pg_uuid sample_externals (cd_id (dr_challenge sample_draw)) = Some (cd_id (dr_challenge sample_draw))"
    by code_simp
  have time: "1000 < clock sample_world + challenge_life" by (simp add: sample_world_def challenge_life_def)
  show ?thesis
    using honest_proof_accepted [OF sample_externals_ok ok issue refl uuid time] issue by blast
qed

text \<open>C3. One attempt: whatever the first proof was, once a fitting challenge has been tried, a
  second attempt on it fails, with whatever proof, key, device, purpose and at whatever time.\<close>

theorem challenge_single_attempt:
  assumes "keys_ok (database w)" and "pg_uuid E i = Some c" and "pg_uuid E v = Some x"
    and "ch \<in> set (identity_challenges (database w))" and "challenge_matches c k x p (clock w) ch"
    and "run (consumeIdentityChallenge E i k v p pr) w = (r, w')"
  shows "fst (run (consumeIdentityChallenge E i k' v' p' pr') (w'\<lparr>clock := t\<rparr>)) \<noteq> Inr True"
proof -
  let ?hit = "challenge_matches c k x p (clock w)"
  have "take_challenge E i k v p (clock w) (database w) =
      Inr (map ic_proof_hash (filter ?hit (identity_challenges (database w))),
           (database w)\<lparr>identity_challenges := delete_where ?hit (identity_challenges (database w))\<rparr>)"
    (is "_ = Inr (?hs, ?d)")
    by (simp add: take_challenge_def with_uuid_def uuid_param_def assms(2,3) Let_def)
  moreover have "?hs \<noteq> []" using assms(4,5) by (auto simp: filter_empty_conv)
  ultimately have gone: "\<not> has_key ic_id c (identity_challenges ?d)"
    using take_challenge_gone assms(1,2) by blast
  have "database w' = ?d"
    using assms(6) \<open>take_challenge _ _ _ _ _ _ _ = _\<close>
    by (auto simp: consumeIdentityChallenge_def run_simps split: list.splits)
  show ?thesis
  proof
    assume "fst (run (consumeIdentityChallenge E i k' v' p' pr') (w'\<lparr>clock := t\<rparr>)) = Inr True"
    then obtain u where "run (consumeIdentityChallenge E i k' v' p' pr') (w'\<lparr>clock := t\<rparr>) = (Inr True, u)"
      by (metis prod.collapse)
    then show False
      by (rule run_consume_True)
        (use gone \<open>database w' = ?d\<close> assms(2) in \<open>auto simp: has_key_iff challenge_matches_def\<close>)
  qed
qed

theorem challenge_single_attempt_witness:
  "fst (run (consumeIdentityChallenge sample_externals (uuid (CHR ''l'')) (key_of (CHR ''a'')) (uuid (CHR ''g''))
      ''login'' (key_of (CHR ''1''))) ((snd (run (consumeIdentityChallenge sample_externals (uuid (CHR ''l''))
        (key_of (CHR ''a'')) (uuid (CHR ''g'')) ''login'' ''wrong'') sample_world))\<lparr>clock := 20\<rparr>)) \<noteq> Inr True"
proof (rule challenge_single_attempt [OF _ _ _ _ _ surjective_pairing])
  show "keys_ok (database sample_world)" using sample_world_ok by (simp add: db_ok_def)
  show "pg_uuid sample_externals (uuid (CHR ''l'')) = Some (uuid (CHR ''l''))" by code_simp
  show "pg_uuid sample_externals (uuid (CHR ''g'')) = Some (uuid (CHR ''g''))" by code_simp
  show "sample_challenge (CHR ''l'') (CHR ''a'') (CHR ''g'') ''login'' \<in> set (identity_challenges (database sample_world))"
    by (simp add: sample_world_def sample_db_def)
  show "challenge_matches (uuid (CHR ''l'')) (key_of (CHR ''a'')) (uuid (CHR ''g'')) ''login'' (clock sample_world)
      (sample_challenge (CHR ''l'') (CHR ''a'') (CHR ''g'') ''login'')"
    by (simp add: challenge_matches_def sample_challenge_def sample_world_def)
qed

section \<open>Device tokens\<close>



end
