(* ===== verification/Messaging.thy ===== *)
theory Messaging
  imports Access
begin

text \<open>
  Messages: sending, retrying, paging and reading, as single requests on an arbitrary
  state of the server.
\<close>

section \<open>Sample requests\<close>

definition send_data :: "char \<Rightarrow> message_data" where
  "send_data i =
     \<lparr>ms_messageId = Some (uuid i), ms_conversationId = uuid (CHR ''c''), ms_content = [i],
      ms_messageType = ''text'', ms_mediaUrl = None, ms_mediaMeta = None, ms_replyToId = None\<rparr>"

definition send_json :: "char \<Rightarrow> json" where
  "send_json i = JObj [(''messageId'', JStr (uuid i)), (''conversationId'', JStr (uuid (CHR ''c''))),
     (''content'', JStr [i])]"

lemma send_json_parsed:
  "sendMessageSchema sample_externals (send_json (CHR ''x'')) = Some (send_data (CHR ''x''))"
  "sendMessageSchema sample_externals (send_json (CHR ''n'')) = Some (send_data (CHR ''n''))"
  by code_simp+

section \<open>Sending\<close>

definition member :: "string \<Rightarrow> string \<Rightarrow> db \<Rightarrow> bool" where
  "member c userId d \<longleftrightarrow> list_ex (active_member c userId) (participants d)"

lemma member_filter: "filter (active_member c userId) (participants d) = [] \<longleftrightarrow> \<not> member c userId d"
  by (auto simp: member_def list_ex_iff filter_empty_conv)

lemma member_rows: "pg_uuid E cv = Some c \<Longrightarrow> is_member_stmt E cv userId now d =
    Inr (filter (active_member c userId) (participants d), d)"
  by (simp add: is_member_stmt_def with_uuid_def uuid_param_def select_stmt_def)

text \<open>What the validated body stores when nothing conflicts: the row, if the database accepts
  its texts and its reply reference.\<close>

definition message_of :: "externals \<Rightarrow> draw \<Rightarrow> message_data \<Rightarrow> string \<Rightarrow> timestamp \<Rightarrow> pg_error + message" where
  "message_of E draw data userId now =
     ebind (uuid_param E (case ms_messageId data of Some i \<Rightarrow> i | None \<Rightarrow> dr_uuid draw)) (\<lambda>i.
     ebind (uuid_param E (ms_conversationId data)) (\<lambda>c.
     ebind (nullable (uuid_param E) (or_null (ms_replyToId data))) (\<lambda>r.
     message_row (new_message i c userId r data now))))"

lemma message_of_Inr:
  assumes "message_of E draw data userId now = Inr m"
  obtains i c r where
    "pg_uuid E (case ms_messageId data of Some i \<Rightarrow> i | None \<Rightarrow> dr_uuid draw) = Some i"
    and "pg_uuid E (ms_conversationId data) = Some c"
    and "nullable (uuid_param E) (or_null (ms_replyToId data)) = Inr r"
    and "message_row (new_message i c userId r data now) = Inr m"
    and "m_id m = i" and "m_conversation_id m = c" and "m_sender_id m = userId"
    and "m_content m = ms_content data" and "m_sent_at m = now" and "m_reply_to_id m = r"
  using assms
  by (auto simp: message_of_def uuid_param_def new_message_def message_row_same
      split: option.splits)

lemma insert_message_of:
  assumes "message_of E draw data userId now = Inr m"
  shows "insert_message_stmt E (case ms_messageId data of Some i \<Rightarrow> i | None \<Rightarrow> dr_uuid draw) userId data now d =
    (if has_key m_id (m_id m) (messages d) then Inr ([], d)
     else if \<not> has_key c_id (m_conversation_id m) (conversations d) \<or> \<not> has_key u_id userId (users d) \<or>
       \<not> (case m_reply_to_id m of None \<Rightarrow> True | Some r \<Rightarrow> r = m_id m \<or> has_key m_id r (messages d))
     then Inl ForeignKeyViolation else Inr ([m], d\<lparr>messages := messages d @ [m]\<rparr>))"
  using assms
  by (rule message_of_Inr)
    (simp add: insert_message_stmt_def with_uuid_def uuid_param_def insert_message_or_nothing_def)

text \<open>C8. A retry with the identifier of a stored message never stores, changes or announces
  anything: it returns the stored message with 200 when sender, conversation and content
  agree, and 409 otherwise.\<close>

theorem send_retry:
  assumes "db_ok (database w)" and "sendMessageSchema E json = Some data"
    and "message_of E draw data userId (clock w) = Inr new"
    and "member (m_conversation_id new) userId (database w)"
    and "old \<in> set (messages (database w))" and "m_id old = m_id new"
  shows "run (messages_send E draw json userId) w =
    (Inr (if m_sender_id old = userId \<and> m_conversation_id old = ms_conversationId data \<and>
             m_content old = ms_content data
          then \<lparr>status = 200, body = BMessage old\<rparr>
          else \<lparr>status = 409, body = BError ''Message identifier conflict''\<rparr>), w)"
  using assms(3)
proof (rule message_of_Inr)
  fix i c r
  assume i: "pg_uuid E (case ms_messageId data of Some i \<Rightarrow> i | None \<Rightarrow> dr_uuid draw) = Some i" "m_id new = i"
    and c: "pg_uuid E (ms_conversationId data) = Some c" "m_conversation_id new = c"
  have "filter (\<lambda>m. m_id m = m_id old) (messages (database w)) = [old]"
    using assms(1,5) by (intro filter_key_singleton) (simp_all add: db_ok_def keys_ok_def)
  moreover have "has_key m_id (m_id old) (messages (database w))"
    using assms(5) by (auto simp: has_key_iff)
  moreover have "filter (active_member c userId) (participants (database w)) \<noteq> []"
    using assms(4) c by (simp add: member_filter)
  ultimately show ?thesis
    using assms(2,6) i c
    by (simp add: messages_send_def Let_def run_simps member_rows insert_message_of [OF assms(3)]
        select_message_stmt_def with_uuid_def uuid_param_def select_stmt_def)
qed

theorem send_retry_witness:
  "run (messages_send sample_externals sample_draw (send_json (CHR ''n'')) (uuid (CHR ''a''))) sample_world =
    (Inr \<lparr>status = 200, body = BMessage (sample_message (CHR ''n'') (CHR ''a'') 7)\<rparr>, sample_world)"
proof -
  have "message_of sample_externals sample_draw (send_data (CHR ''n'')) (uuid (CHR ''a'')) (clock sample_world) =
      Inr (sample_message (CHR ''n'') (CHR ''a'') 10)"
    "member (m_conversation_id (sample_message (CHR ''n'') (CHR ''a'') 10)) (uuid (CHR ''a'')) (database sample_world)"
    by code_simp+
  moreover have "sample_message (CHR ''n'') (CHR ''a'') 7 \<in> set (messages (database sample_world))"
    by (simp add: sample_world_def sample_db_def)
  ultimately show ?thesis
    using send_retry [OF sample_world_ok send_json_parsed(2), of sample_draw "uuid (CHR ''a'')"
        "sample_message (CHR ''n'') (CHR ''a'') 10" "sample_message (CHR ''n'') (CHR ''a'') 7"]
    by (simp add: sample_message_def send_data_def)
qed

text \<open>Whoever is not an active member of the conversation can neither write to it nor read
  it: sending and paging answer 403 and change nothing.\<close>

lemma outsiders_refused:
  assumes "pg_uuid E cv = Some c" and "\<not> member c userId (database w)"
    and "sendMessageSchema E json = Some data" and "ms_conversationId data = cv"
    and "before = None" and "beforeId = None"
  shows "run (messages_send E draw json userId) w = (Inr \<lparr>status = 403, body = BError ''Not a participant''\<rparr>, w) \<and>
    run (messages_page E cv limit before beforeId userId) w =
      (Inr \<lparr>status = 403, body = BError ''Not a participant''\<rparr>, w)"
  using assms
  by (simp add: messages_send_def messages_page_def Let_def run_simps member_rows member_filter
      optional_query_def)

lemma outsiders_refused_witness:
  "run (messages_send sample_externals sample_draw (send_json (CHR ''x'')) (uuid (CHR ''z''))) sample_world =
     (Inr \<lparr>status = 403, body = BError ''Not a participant''\<rparr>, sample_world) \<and>
   run (messages_page sample_externals (uuid (CHR ''c'')) None None None (uuid (CHR ''z''))) sample_world =
     (Inr \<lparr>status = 403, body = BError ''Not a participant''\<rparr>, sample_world)"
proof (rule outsiders_refused [OF _ _ send_json_parsed(1)])
  show "pg_uuid sample_externals (uuid (CHR ''c'')) = Some (uuid (CHR ''c''))" by code_simp
  show "\<not> member (uuid (CHR ''c'')) (uuid (CHR ''z'')) (database sample_world)" by code_simp
qed (simp_all add: send_data_def)

subsection \<open>A new message\<close>

lemma join_users:
  assumes "db_ok d" and "\<And>x. x \<in> set xs \<Longrightarrow> g x \<in> u_id ` set (users d)"
  shows "concat (map (\<lambda>x. concat (map (\<lambda>u. if u_id u = g x \<and> P x then [h x] else []) (users d))) xs) =
    map h (filter P xs)"
  using assms(2)
proof (induction xs)
  case (Cons x xs)
  then obtain u where "u \<in> set (users d)" "g x = u_id u" by auto
  with assms(1) Cons show ?case
    using join_unique [of u_id "users d" u "\<lambda>_. P x" "\<lambda>_. h x"] by (simp add: db_ok_def keys_ok_def)
qed simp

definition other_members :: "string \<Rightarrow> string \<Rightarrow> db \<Rightarrow> string list" where
  "other_members c userId d =
     map p_user_id (filter (\<lambda>p. p_conversation_id p = c \<and> p_user_id p \<noteq> userId \<and> p_left_at p = None)
       (participants d))"

lemma other_members_rows:
  assumes "db_ok d" and "pg_uuid E cv = Some c"
  shows "other_members_stmt E cv userId now d = Inr (other_members c userId d, d)"
proof -
  have "\<And>p. p \<in> set (participants d) \<Longrightarrow> p_user_id p \<in> u_id ` set (users d)"
    using assms(1) by (auto simp: db_ok_def references_ok_def)
  from join_users [OF assms(1) this, where P = "\<lambda>p. p_conversation_id p = c \<and> p_user_id p \<noteq> userId \<and> p_left_at p = None"]
  show ?thesis
    by (simp add: other_members_stmt_def with_uuid_def uuid_param_def assms(2) select_stmt_def other_members_def)
qed

lemma broadcast_frame [simp]:
  "push_jobs (broadcastToUser u msg w) = push_jobs w" "clock (broadcastToUser u msg w) = clock w"
  "clients (broadcastToUser u msg w) = clients w" "user_clients (broadcastToUser u msg w) = user_clients w"
proof -
  let ?step = "\<lambda>i w. case find_client i w of None \<Rightarrow> w | Some c \<Rightarrow> send (cl_id c) msg w"
  have "push_jobs (fold ?step xs w) = push_jobs w \<and> clock (fold ?step xs w) = clock w \<and>
      clients (fold ?step xs w) = clients w \<and> user_clients (fold ?step xs w) = user_clients w" for xs
    by (induction xs arbitrary: w) (auto simp: send_def split: option.split)
  then show "push_jobs (broadcastToUser u msg w) = push_jobs w" "clock (broadcastToUser u msg w) = clock w"
    "clients (broadcastToUser u msg w) = clients w" "user_clients (broadcastToUser u msg w) = user_clients w"
    by (simp_all add: broadcastToUser_def)
qed

lemma notify_members_frame [simp]:
  "push_jobs (notify_members cv i us w) = push_jobs w @
     map (\<lambda>u. sendNewMessageNotification u ''Chhaya'' ''New encrypted message'' cv i) us"
  "clock (notify_members cv i us w) = clock w"
  unfolding notify_members_def by (induction us arbitrary: w) (simp_all add: notify_one_def)

definition touched :: "string \<Rightarrow> timestamp \<Rightarrow> db \<Rightarrow> db" where
  "touched c now d = d\<lparr>conversations := update_where (\<lambda>r. c_id r = c) (\<lambda>r. r\<lparr>c_updated_at := now\<rparr>) (conversations d)\<rparr>"

text \<open>C5. A member's message with a fresh identifier is stored exactly once, its conversation is
  touched, and each other active member gets one notification job; nothing else in the
  database changes.  The answer is 201, unless the request spells the conversation's UUID
  otherwise than the database does: then it is 409, although the message is stored and
  announced.\<close>

theorem send_fresh:
  assumes "db_ok (database w)" and "sendMessageSchema E json = Some data"
    and "message_of E draw data userId (clock w) = Inr m"
    and "member (m_conversation_id m) userId (database w)"
    and "\<not> has_key m_id (m_id m) (messages (database w))"
    and "\<And>r. m_reply_to_id m = Some r \<Longrightarrow> has_key m_id r (messages (database w))"
  shows "let (res, w') = run (messages_send E draw json userId) w in
    res = Inr (if m_conversation_id m = ms_conversationId data then \<lparr>status = 201, body = BMessage m\<rparr>
               else \<lparr>status = 409, body = BError ''Message identifier conflict''\<rparr>) \<and>
    database w' = touched (m_conversation_id m) (clock w)
      ((database w)\<lparr>messages := messages (database w) @ [m]\<rparr>) \<and>
    map pj_user_id (push_jobs w') =
      map pj_user_id (push_jobs w) @ other_members (m_conversation_id m) userId (database w)"
  using assms(3)
proof (rule message_of_Inr)
  fix i c r
  let ?i = "case ms_messageId data of Some i \<Rightarrow> i | None \<Rightarrow> dr_uuid draw"
  let ?d = "touched c (clock w) ((database w)\<lparr>messages := messages (database w) @ [m]\<rparr>)"
  assume i: "pg_uuid E ?i = Some i" "m_id m = i"
    and c: "pg_uuid E (ms_conversationId data) = Some c" "m_conversation_id m = c"
    and m: "m_sender_id m = userId"
  from assms(4) c obtain p where p: "p \<in> set (participants (database w))" "active_member c userId p"
    by (auto simp: member_def list_ex_iff)
  with assms(1) have refs: "has_key c_id c (conversations (database w))" "has_key u_id userId (users (database w))"
    by (auto simp: db_ok_def references_ok_def active_member_def has_key_iff)
  have reply: "case m_reply_to_id m of None \<Rightarrow> True | Some r \<Rightarrow> r = m_id m \<or> has_key m_id r (messages (database w))"
    using assms(6) by (simp split: option.split)
  have ins: "insert_message_stmt E ?i userId data (clock w) (database w) =
      Inr ([m], (database w)\<lparr>messages := messages (database w) @ [m]\<rparr>)"
    using refs reply assms(5) c by (simp add: insert_message_of [OF assms(3)])
  have others: "other_members_stmt E (ms_conversationId data) userId (clock w) ?d =
      Inr (other_members c userId (database w), ?d)"
  proof -
    have "db_ok ((database w)\<lparr>messages := messages (database w) @ [m]\<rparr>)"
      using keepsD [OF keeps_insert_message_stmt assms(1) ins] .
    then have "db_ok ?d" by (simp add: touched_def integrity_defs map_update_where)
    from other_members_rows [OF this c(1)] show ?thesis by (simp add: other_members_def touched_def)
  qed
  have saved: "filter (\<lambda>r. m_id r = i) (messages ?d) = [m]"
    using assms(5) i by (auto simp: touched_def has_key_def list_ex_iff filter_empty_conv)
  have not_empty: "filter (active_member c userId) (participants (database w)) \<noteq> []"
    using assms(4) c by (simp add: member_filter)
  show ?thesis
    using assms(2) i c m not_empty ins others saved
    by (simp add: messages_send_def Let_def run_simps member_rows touch_conversation_stmt_def
        exec_stmt_def select_message_stmt_def with_uuid_def uuid_param_def select_stmt_def
        touched_def [symmetric] sendNewMessageNotification_def comp_def)
qed

theorem send_fresh_witness:
  "let (res, w') = run (messages_send sample_externals sample_draw (send_json (CHR ''x'')) (uuid (CHR ''a''))) sample_world in
    res = Inr \<lparr>status = 201, body = BMessage (sample_message (CHR ''x'') (CHR ''a'') 10)\<rparr> \<and>
    messages (database w') = messages sample_db @ [sample_message (CHR ''x'') (CHR ''a'') 10] \<and>
    map pj_user_id (push_jobs w') = [uuid (CHR ''b'')]"
proof -
  let ?m = "sample_message (CHR ''x'') (CHR ''a'') 10"
  have m: "message_of sample_externals sample_draw (send_data (CHR ''x'')) (uuid (CHR ''a'')) (clock sample_world) = Inr ?m"
    "member (m_conversation_id ?m) (uuid (CHR ''a'')) (database sample_world)"
    "\<not> has_key m_id (m_id ?m) (messages (database sample_world))"
    by code_simp+
  have others: "other_members (m_conversation_id ?m) (uuid (CHR ''a'')) (database sample_world) = [uuid (CHR ''b'')]"
    by code_simp
  show ?thesis
    using send_fresh [OF sample_world_ok send_json_parsed(1) m] others
    by (simp add: case_prod_beta touched_def Let_def)
      (simp add: sample_world_def sample_message_def send_data_def)
qed

section \<open>Paging\<close>

text \<open>The bound a page request asks for.\<close>

definition requested_bound ::
  "externals \<Rightarrow> string \<Rightarrow> string option \<Rightarrow> string option \<Rightarrow> db \<Rightarrow> pg_error + page_bound" where
  "requested_bound E c before beforeId d =
     (case or_null beforeId of
        Some i \<Rightarrow> ebind (uuid_param E i) (\<lambda>b. Inr (BeforeKey (cursor_key c b d)))
      | None \<Rightarrow>
        (case or_null before of
           Some t \<Rightarrow> (case pg_timestamptz E t of None \<Rightarrow> Inl InvalidText | Some ts \<Rightarrow> Inr (BeforeTime ts))
         | None \<Rightarrow> Inr NoBound))"

lemma page_stmt_bound:
  assumes "pg_uuid E cv = Some c"
  shows "page_stmt E cv before beforeId l now d =
    ebind (requested_bound E c before beforeId d) (\<lambda>b. Inr (with_sender d (page_rows c b l d), d))"
proof -
  have "page_stmt E cv before beforeId l now d = (case or_null beforeId of
       Some i \<Rightarrow> with_uuid E i (\<lambda>b. select_stmt (\<lambda>now d.
                   with_sender d (page_rows c (BeforeKey (cursor_key c b d)) l d)))
     | None \<Rightarrow>
       (case or_null before of
          Some t \<Rightarrow> (\<lambda>now d. case pg_timestamptz E t of
                       None \<Rightarrow> Inl InvalidText
                     | Some ts \<Rightarrow> Inr (with_sender d (page_rows c (BeforeTime ts) l d), d))
        | None \<Rightarrow> select_stmt (\<lambda>now d. with_sender d (page_rows c NoBound l d)))) now d"
    by (simp add: page_stmt_def with_uuid_def [of E cv] uuid_param_def assms)
  then show ?thesis
    by (simp add: requested_bound_def with_uuid_def uuid_param_def select_stmt_def split: option.split)
qed

text \<open>The conversation as a whole, oldest first: strictly ordered by time and identifier.\<close>

definition timeline :: "string \<Rightarrow> db \<Rightarrow> message list" where
  "timeline c d = sort_key message_key (filter (visible c) (messages d))"

lemma timeline_strict: "db_ok d \<Longrightarrow> sorted_wrt (\<lambda>x y. message_key x < message_key y) (timeline c d)"
proof -
  assume "db_ok d"
  then have "distinct (map m_id (filter (visible c) (messages d)))"
    by (simp add: db_ok_def keys_ok_def distinct_map_filter)
  then have "distinct (map message_key (filter (visible c) (messages d)))"
    by (auto simp: distinct_map inj_on_def message_key_def)
  then have "distinct (map message_key (timeline c d))"
    by (simp add: timeline_def distinct_map)
  moreover have "sorted (map message_key (timeline c d))"
    by (simp add: timeline_def)
  ultimately have "sorted_wrt (<) (map message_key (timeline c d))"
    by (simp add: strict_sorted_iff)
  then show ?thesis by (simp add: sorted_wrt_map)
qed

lemma set_timeline [simp]: "set (timeline c d) = {m \<in> set (messages d). visible c m}"
  by (simp add: timeline_def)

lemma page_rows_timeline: "page_rows c b l d = take l (rev (filter (below b) (timeline c d)))"
  by (simp add: page_rows_def timeline_def filter_sort conj_commute)

lemma with_sender_all:
  assumes "db_ok d" and "set ms \<subseteq> set (messages d)"
  shows "map fst (with_sender d ms) = ms" and "with_sender d (rev ms) = rev (with_sender d ms)"
proof -
  have one: "\<exists>n. [(m, u_display_name u). u \<leftarrow> users d, u_id u = m_sender_id m] = [(m, n)]"
    if "m \<in> set (messages d)" for m
  proof -
    from that assms(1) obtain u where "u \<in> set (users d)" "m_sender_id m = u_id u"
      by (force simp: db_ok_def references_ok_def)
    with assms(1) show ?thesis
      using join_unique [of u_id "users d" u "\<lambda>_. True" "\<lambda>u. (m, u_display_name u)"]
      by (simp add: db_ok_def keys_ok_def)
  qed
  have split: "with_sender d (xs @ ys) = with_sender d xs @ with_sender d ys" for xs ys
    by (simp add: with_sender_def)
  have single: "\<exists>n. with_sender d [m] = [(m, n)]" if "m \<in> set (messages d)" for m
    using one [OF that] by (simp add: with_sender_def)
  have cons: "with_sender d (m # xs) = with_sender d [m] @ with_sender d xs" for m xs
    using split [of "[m]" xs] by simp
  from assms(2) show "map fst (with_sender d ms) = ms"
  proof (induction ms)
    case (Cons m ms)
    then obtain n where "with_sender d [m] = [(m, n)]" using single by auto
    with Cons cons [of m ms] show ?case by simp
  qed (simp add: with_sender_def)
  from assms(2) show "with_sender d (rev ms) = rev (with_sender d ms)"
  proof (induction ms)
    case (Cons m ms)
    then obtain n where "with_sender d [m] = [(m, n)]" using single by auto
    with Cons cons [of m ms] show ?case by (simp add: split)
  qed (simp add: with_sender_def)
qed

lemma run_messages_page:
  assumes "db_ok (database w)" and "pg_uuid E cv = Some c" and "member c userId (database w)"
    and "optional_query (zod_datetime E) before = Some before"
    and "optional_query (zod_uuid E) beforeId = Some beforeId"
    and "requested_bound E c before beforeId (database w) = Inr b"
  shows "run (messages_page E cv limit before beforeId userId) w =
    (Inr \<lparr>status = 200, body = BMessages (with_sender (database w)
       (rev (page_rows c b (page_limit limit) (database w))))\<rparr>, w)"
proof -
  have "set (page_rows c b (page_limit limit) (database w)) \<subseteq> set (messages (database w))"
    by (auto simp: page_rows_timeline dest: in_set_takeD)
  from with_sender_all(2) [OF assms(1) this]
  show ?thesis
    using assms(3) by (simp add: messages_page_def Let_def run_simps assms(2,4-6) member_rows member_filter
        page_stmt_bound)
qed

lemma page_limit_bounds: "1 \<le> page_limit q" "page_limit q \<le> 200"
  by (auto simp: page_limit_def)

text \<open>C7. A page that is granted holds the newest visible messages below the bound, oldest
  first and at most 200: a message it leaves out is older than all of it, and left out
  only because the page is full.\<close>

theorem page_newest:
  assumes "db_ok (database w)" and "pg_uuid E cv = Some c" and "member c userId (database w)"
    and "optional_query (zod_datetime E) before = Some before"
    and "optional_query (zod_uuid E) beforeId = Some beforeId"
    and "requested_bound E c before beforeId (database w) = Inr b"
  shows "\<exists>rows. run (messages_page E cv limit before beforeId userId) w =
      (Inr \<lparr>status = 200, body = BMessages rows\<rparr>, w) \<and>
    sorted_wrt (\<lambda>x y. message_key (fst x) < message_key (fst y)) rows \<and> length rows \<le> 200 \<and>
    fst ` set rows \<subseteq> {m \<in> set (messages (database w)). visible c m \<and> below b m} \<and>
    (\<forall>m \<in> set (messages (database w)). visible c m \<and> below b m \<and> m \<notin> fst ` set rows \<longrightarrow>
       length rows = page_limit limit \<and> (\<forall>x \<in> fst ` set rows. message_key m < message_key x))"
proof -
  define T where "T = filter (below b) (timeline c (database w))"
  define l where "l = page_limit limit"
  define ms where "ms = drop (length T - l) T"
  define rows where "rows = with_sender (database w) ms"
  have page: "rev (page_rows c b l (database w)) = ms"
    by (simp add: page_rows_timeline rev_take ms_def T_def)
  have ms_T: "set ms \<subseteq> set T" by (simp add: ms_def set_drop_subset)
  then have fst: "map fst rows = ms"
    unfolding rows_def by (intro with_sender_all [OF assms(1)]) (auto simp: T_def)
  have fst_set: "fst ` set rows = set ms" and len: "length rows = length ms"
    using fst by (metis list.set_map, metis length_map)
  have "sorted_wrt (\<lambda>x y. message_key x < message_key y) T"
    unfolding T_def by (rule sorted_wrt_filter) (rule timeline_strict [OF assms(1)])
  then have old_new: "sorted_wrt (\<lambda>x y. message_key x < message_key y) (take (length T - l) T @ ms)"
    by (simp add: ms_def)
  have "sorted_wrt (\<lambda>x y. message_key (fst x) < message_key (fst y)) rows"
    using old_new fst sorted_wrt_map [of "\<lambda>x y. message_key x < message_key y" fst rows]
    by (simp add: sorted_wrt_append)
  moreover have "length rows \<le> 200"
    using page_limit_bounds(2) [of limit] by (simp add: len ms_def l_def)
  moreover have "fst ` set rows \<subseteq> {m \<in> set (messages (database w)). visible c m \<and> below b m}"
    using ms_T by (auto simp: fst_set T_def)
  moreover have "length rows = l \<and> (\<forall>x \<in> fst ` set rows. message_key m < message_key x)"
    if "m \<in> set (messages (database w))" "visible c m \<and> below b m \<and> m \<notin> fst ` set rows" for m
  proof -
    from that have "m \<in> set T" by (simp add: T_def)
    then have "m \<in> set (take (length T - l) T) \<or> m \<in> set ms"
      unfolding ms_def by (metis Un_iff append_take_drop_id set_append)
    with that have m: "m \<in> set (take (length T - l) T)" by (simp add: fst_set)
    then have "length T > l" by (cases "length T \<le> l") auto
    then have "length rows = l" by (simp add: len ms_def)
    with m old_new show ?thesis by (auto simp: fst_set sorted_wrt_append)
  qed
  ultimately show ?thesis
    using run_messages_page [OF assms, of limit] unfolding l_def [symmetric] page rows_def [symmetric] by blast
qed

theorem page_newest_witness:
  "\<exists>rows. run (messages_page sample_externals (uuid (CHR ''c'')) (Some ''1'') None (Some (uuid (CHR ''n''))) (uuid (CHR ''a'')))
      sample_world = (Inr \<lparr>status = 200, body = BMessages rows\<rparr>, sample_world) \<and>
    fst ` set rows \<subseteq> {m \<in> set (messages (database sample_world)). visible (uuid (CHR ''c'')) m \<and>
      below (BeforeKey (Some (7, uuid (CHR ''n'')))) m}"
proof -
  have "pg_uuid sample_externals (uuid (CHR ''c'')) = Some (uuid (CHR ''c''))"
    "member (uuid (CHR ''c'')) (uuid (CHR ''a'')) (database sample_world)"
    "optional_query (zod_datetime sample_externals) None = Some None"
    "optional_query (zod_uuid sample_externals) (Some (uuid (CHR ''n''))) = Some (Some (uuid (CHR ''n'')))"
    "requested_bound sample_externals (uuid (CHR ''c'')) None (Some (uuid (CHR ''n''))) (database sample_world) =
      Inr (BeforeKey (Some (7, uuid (CHR ''n''))))"
    by code_simp+
  from page_newest [OF sample_world_ok this, of "Some ''1''"] show ?thesis by blast
qed

subsection \<open>Walking back through a conversation\<close>

text \<open>A client that asks for page after page, each time before the oldest message it has.\<close>

fun walk :: "nat \<Rightarrow> externals \<Rightarrow> string \<Rightarrow> string option \<Rightarrow> string option \<Rightarrow> string \<Rightarrow> world \<Rightarrow> message list" where
  "walk 0 E cv limit beforeId userId w = []"
| "walk (Suc n) E cv limit beforeId userId w =
     (case fst (run (messages_page E cv limit None beforeId userId) w) of
        Inl _ \<Rightarrow> []
      | Inr r \<Rightarrow>
          (case body r of
             BMessages rows \<Rightarrow>
               (case rows of
                  [] \<Rightarrow> []
                | row # _ \<Rightarrow> walk n E cv limit (Some (m_id (fst row))) userId w @ map fst rows)
           | _ \<Rightarrow> []))"

definition ids_readable :: "externals \<Rightarrow> db \<Rightarrow> bool" where
  "ids_readable E d \<longleftrightarrow>
     list_all (\<lambda>m. zod_uuid E (m_id m) \<and> pg_uuid E (m_id m) = Some (m_id m) \<and> m_id m \<noteq> []) (messages d)"

lemma cursor_key_of:
  assumes "db_ok d" and "m \<in> set (messages d)" and "m_conversation_id m = c"
  shows "cursor_key c (m_id m) d = Some (message_key m)"
proof -
  have "\<exists>y \<in> set (messages d). m_id y = m_id m \<and> m_conversation_id y = c" using assms by auto
  then obtain y where "find (\<lambda>y. m_id y = m_id m \<and> m_conversation_id y = c) (messages d) = Some y"
    by (cases "find (\<lambda>y. m_id y = m_id m \<and> m_conversation_id y = c) (messages d)") (auto simp: find_None_iff)
  moreover from this have "y = m"
    using assms key_unique [of m_id "messages d" y m]
    by (auto simp: find_Some_iff db_ok_def keys_ok_def)
  ultimately show ?thesis by (simp add: cursor_key_def)
qed

lemma strict_prefix:
  assumes "sorted_wrt (\<lambda>x y. f x < (f y :: 'k :: linorder)) (P @ x # Q)"
  shows "filter (\<lambda>y. f y < f x) (P @ x # Q) = P"
  using assms by (auto simp: sorted_wrt_append filter_empty_conv dest: order.asym intro: filter_True)

lemma below_key: "below (BeforeKey (Some k)) = (\<lambda>m. message_key m < k)"
  by (rule ext) simp

text \<open>One page of the walk, when the part of the timeline still to come is \<open>P\<close>.\<close>

lemma walk_page:
  assumes "db_ok (database w)" and "ids_readable E (database w)" and "pg_uuid E cv = Some c"
    and "member c userId (database w)"
    and "timeline c (database w) = P @ Q"
    and "beforeId = None \<and> Q = [] \<or> (\<exists>x R. beforeId = Some (m_id x) \<and> Q = x # R)"
  shows "\<exists>rows. fst (run (messages_page E cv limit None beforeId userId) w) =
      Inr \<lparr>status = 200, body = BMessages rows\<rparr> \<and>
    map fst rows = drop (length P - page_limit limit) P"
proof -
  note strict = timeline_strict [OF assms(1), of c, unfolded assms(5)]
  have in_T: "set P \<subseteq> set (messages (database w))"
    using set_timeline [of c "database w"] unfolding assms(5) by auto
  obtain b where b: "requested_bound E c None beforeId (database w) = Inr b"
    and below: "filter (below b) (P @ Q) = P"
    and q: "optional_query (zod_uuid E) beforeId = Some beforeId"
  proof (cases "beforeId")
    case None
    with assms(6) show thesis
      by (intro that [of NoBound]) (auto simp: requested_bound_def or_null_def optional_query_def)
  next
    case (Some i)
    with assms(6) obtain x R where x: "i = m_id x" "Q = x # R" by auto
    have "x \<in> set (timeline c (database w))" by (simp add: assms(5) x)
    then have x_in: "x \<in> set (messages (database w))" "m_conversation_id x = c"
      by (auto simp: visible_def)
    with assms(2) have "zod_uuid E i" "pg_uuid E i = Some i" "i \<noteq> []"
      by (auto simp: ids_readable_def list_all_iff x)
    moreover have "filter (below (BeforeKey (Some (message_key x)))) (P @ Q) = P"
      using strict_prefix [of message_key P x R] strict x by (simp only: below_key)
    ultimately show thesis
      using Some x cursor_key_of [OF assms(1) x_in]
      by (intro that [of "BeforeKey (Some (message_key x))"])
        (auto simp: requested_bound_def or_null_def optional_query_def uuid_param_def)
  qed
  have rows: "rev (page_rows c b (page_limit limit) (database w)) = drop (length P - page_limit limit) P"
    by (simp only: page_rows_timeline assms(5) below rev_take rev_rev_ident length_rev)
  have "set (drop (length P - page_limit limit) P) \<subseteq> set (messages (database w))"
    using in_T set_drop_subset by fast
  from with_sender_all(1) [OF assms(1) this] show ?thesis
    using run_messages_page [OF assms(1,3,4) _ q b, of limit] by (simp add: rows optional_query_def)
qed

lemma walk_rest:
  assumes "db_ok (database w)" and "ids_readable E (database w)" and "pg_uuid E cv = Some c"
    and "member c userId (database w)"
  shows "timeline c (database w) = P @ Q \<Longrightarrow> length P < n \<Longrightarrow>
    beforeId = None \<and> Q = [] \<or> (\<exists>x R. beforeId = Some (m_id x) \<and> Q = x # R) \<Longrightarrow>
    walk n E cv limit beforeId userId w = P"
proof (induction n arbitrary: P Q beforeId)
  case (Suc n)
  let ?page = "drop (length P - page_limit limit) P"
  from walk_page [OF assms Suc.prems(1,3)] obtain rows where
    run: "fst (run (messages_page E cv limit None beforeId userId) w) = Inr \<lparr>status = 200, body = BMessages rows\<rparr>"
    and rows: "map fst rows = ?page" by blast
  show ?case
  proof (cases "P = []")
    case True
    with run rows show ?thesis by simp
  next
    case False
    with page_limit_bounds(1) [of limit] have "?page \<noteq> []" by (cases P) auto
    with rows obtain row rest where row: "rows = row # rest" by (cases rows) auto
    with rows have page: "?page = fst row # map fst rest" by simp
    have "timeline c (database w) = take (length P - page_limit limit) P @ (?page @ Q)"
      by (simp add: Suc.prems(1))
    moreover have "length (take (length P - page_limit limit) P) < n"
      using Suc.prems(2) page_limit_bounds(1) [of limit] False by (cases P) auto
    moreover have "\<exists>x R. Some (m_id (fst row)) = Some (m_id x) \<and> ?page @ Q = x # R"
      using page by auto
    ultimately have "walk n E cv limit (Some (m_id (fst row))) userId w =
        take (length P - page_limit limit) P"
      using Suc.IH by blast
    with run row rows show ?thesis by simp
  qed
qed simp

text \<open>C6. The walk is complete: with any page size, a client that keeps asking before the
  oldest message it has receives every visible message of the conversation, each exactly
  once and in order, after at most one page per message.\<close>

theorem walk_complete:
  assumes "db_ok (database w)" and "ids_readable E (database w)" and "pg_uuid E cv = Some c"
    and "member c userId (database w)" and "length (timeline c (database w)) < n"
  shows "walk n E cv limit None userId w = timeline c (database w) \<and>
    sorted_wrt (\<lambda>x y. message_key x < message_key y) (timeline c (database w)) \<and>
    set (timeline c (database w)) = {m \<in> set (messages (database w)). visible c m}"
  using walk_rest [OF assms(1-4), of "timeline c (database w)" "[]" n None limit] assms(5)
    timeline_strict [OF assms(1)] by simp

theorem walk_complete_witness:
  "walk 3 sample_externals (uuid (CHR ''c'')) (Some ''1'') None (uuid (CHR ''a'')) sample_world =
    [sample_message (CHR ''m'') (CHR ''b'') 5, sample_message (CHR ''n'') (CHR ''a'') 7]"
proof -
  have timeline: "timeline (uuid (CHR ''c'')) (database sample_world) =
      [sample_message (CHR ''m'') (CHR ''b'') 5, sample_message (CHR ''n'') (CHR ''a'') 7]"
    by code_simp
  have "ids_readable sample_externals (database sample_world)"
    "pg_uuid sample_externals (uuid (CHR ''c'')) = Some (uuid (CHR ''c''))"
    "member (uuid (CHR ''c'')) (uuid (CHR ''a'')) (database sample_world)"
    by code_simp+
  from walk_complete [OF sample_world_ok this, of 3 "Some ''1''"] show ?thesis by (simp add: timeline)
qed

section \<open>Read receipts\<close>

lemma message_unique: "db_ok d \<Longrightarrow> m \<in> set (messages d) \<Longrightarrow> y \<in> set (messages d) \<Longrightarrow> m_id y = m_id m \<Longrightarrow> y = m"
  using key_unique [of m_id "messages d" y m] by (simp add: db_ok_def keys_ok_def)

lemma read_allowed:
  assumes "db_ok d" and "pg_uuid E messageId = Some (m_id m)" and "m \<in> set (messages d)"
    and "member (m_conversation_id m) userId d"
  shows "read_allowed_stmt E messageId userId now d = Inr (1, d)"
proof -
  from assms(4) obtain p where p: "p \<in> set (participants d)" "active_member (m_conversation_id m) userId p"
    by (auto simp: member_def list_ex_iff)
  let ?row = "\<lambda>m' p'. if p_conversation_id p' = m_conversation_id m' \<and> m_id m' = m_id m \<and>
      p_user_id p' = userId \<and> p_left_at p' = None then [()] else []"
  have "concat (map (?row m) (participants d)) = ?row m p"
    using assms(1) p
    by (intro concat_unique [of participant_key]) (auto simp: db_ok_def keys_ok_def active_member_def)
  moreover have "concat (map (\<lambda>m'. concat (map (?row m') (participants d))) (messages d)) =
      concat (map (?row m) (participants d))"
    using assms(1,3) by (intro concat_unique [of m_id]) (auto simp: db_ok_def keys_ok_def)
  ultimately show ?thesis
    using p(2) by (simp add: read_allowed_stmt_def with_uuid_def uuid_param_def assms(2) select_stmt_def
        active_member_def)
qed

lemma advance_read_simps [simp]:
  "p_conversation_id (advance_read s p) = p_conversation_id p" "p_user_id (advance_read s p) = p_user_id p"
  "last_seen (advance_read (Some t) p) = max (last_seen p) t"
  "p_last_read_at (advance_read s p) \<noteq> None"
  by (simp_all add: advance_read_def last_seen_def Let_def split: option.split)

lemma unread_count_0:
  assumes "\<And>y. y \<in> set (messages d) \<Longrightarrow> m_conversation_id y = p_conversation_id p \<Longrightarrow> m_sent_at y \<le> last_seen p"
  shows "unread_count d p = 0"
  using assms by (fastforce simp: unread_count_def filter_empty_conv last_seen_def split: option.splits)

text \<open>The two updates of a read receipt.\<close>

definition read_db :: "timestamp \<Rightarrow> message \<Rightarrow> string \<Rightarrow> db \<Rightarrow> db" where
  "read_db now m userId d =
     d\<lparr>participants := update_where (\<lambda>p. p_user_id p = userId \<and> p_conversation_id p = m_conversation_id m)
          (advance_read (Some (m_sent_at m))) (participants d),
       messages := update_where (\<lambda>r. m_id r = m_id m \<and> m_read_at r = None \<and> m_sender_id r \<noteq> userId)
          (mark_read now) (messages d)\<rparr>"

lemma run_messages_read:
  assumes "db_ok (database w)" and "pg_uuid E messageId = Some (m_id m)"
    and "m \<in> set (messages (database w))" and "member (m_conversation_id m) userId (database w)"
  shows "run (messages_read E messageId userId) w =
    (Inr \<lparr>status = 200, body = BSuccess\<rparr>, w\<lparr>database := read_db (clock w) m userId (database w)\<rparr>)"
proof -
  have "find (\<lambda>r. m_id r = m_id m) (messages (database w)) = Some m"
  proof (cases "find (\<lambda>r. m_id r = m_id m) (messages (database w))")
    case (Some y)
    then have "y \<in> set (messages (database w))" "m_id y = m_id m" by (auto simp: find_Some_iff)
    with Some message_unique [OF assms(1,3)] show ?thesis by simp
  qed (use assms(3) in \<open>auto simp: find_None_iff\<close>)
  then show ?thesis
    by (simp add: messages_read_def run_simps read_allowed [OF assms] read_position_stmt_def
        mark_read_stmt_def with_uuid_def uuid_param_def assms(2) exec_stmt_def Let_def read_db_def)
qed

lemma read_db_effect:
  "filter (\<lambda>p. participant_key p \<noteq> (m_conversation_id m, userId)) (participants (read_db now m userId d)) =
     filter (\<lambda>p. participant_key p \<noteq> (m_conversation_id m, userId)) (participants d)"
  "filter (\<lambda>r. m_id r \<noteq> m_id m) (messages (read_db now m userId d)) =
     filter (\<lambda>r. m_id r \<noteq> m_id m) (messages d)"
  "r \<in> set (messages (read_db now m userId d)) \<Longrightarrow> m_id r = m_id m \<Longrightarrow> m_sender_id r \<noteq> userId \<Longrightarrow>
     m_read_at r \<noteq> None"
  by (auto simp: read_db_def set_update_where mark_read_def intro: filter_update_where)



end
