(* ===== verification/Executions.thy ===== *)
theory Executions
  imports Messaging
begin

text \<open>
  What holds between any two states of the running server: the requests, the messages on
  WebSockets, the notifications and the timers interleave at every \<open>await\<close>.
\<close>

section \<open>Running one program is an execution\<close>

primrec settled :: "'e + 'a \<Rightarrow> ('s, 'e, 'a) prog" where
  "settled (Inl e) = Throw e"
| "settled (Inr a) = Return a"

lemma run_pool_steps:
  "pool_steps env progs (s, [p]) (snd (run p s), [settled (fst (run p s))])"
proof (induction p arbitrary: s)
  case (Act f)
  have "pool_step env progs (s, [Act f]) (snd (f s), [Act f][0 := fst (f s)])"
    by (rule pool_act) simp_all
  moreover have "pool_steps env progs (snd (f s), [fst (f s)]) (snd (run (Act f) s), [settled (fst (run (Act f) s))])"
    unfolding run_Act by (rule Act.IH [of "f s"]) (auto simp: prod_set_simps intro: fsts.intros)
  ultimately show ?case by (simp add: converse_rtranclp_into_rtranclp)
qed simp_all

lemma run_starts:
  assumes "progs p"
  shows "pool_steps env progs (s, []) (snd (run p s), [settled (fst (run p s))])"
proof -
  have "pool_step env progs (s, []) (s, [p])"
    using pool_start [where progs = progs, OF assms, of env s "[]"] by simp
  from this run_pool_steps show ?thesis by (rule converse_rtranclp_into_rtranclp)
qed

lemma run_reaches:
  "server_prog E order fcm p \<Longrightarrow> server_reaches E order fcm w (snd (run p w)) [settled (fst (run p w))]"
  unfolding server_reaches_def by (rule run_starts)

text \<open>Account \<open>a\<close> of the sample state sends a message.\<close>

definition sample_request :: request where
  "sample_request = \<lparr>rq_endpoint = PostMessages, rq_authorization = Some (''Bearer '' @ sample_token),
     rq_body = Some (send_json (CHR ''x''))\<rparr>"

definition sample_run :: "(exn + response option) \<times> world" where
  "sample_run = run (await (serve sample_externals id True sample_draw sample_request)
     (\<lambda>r. Return (Some r))) sample_world"

lemma sample_reaches: "server_reaches sample_externals id fcm sample_world (snd sample_run) [settled (fst sample_run)]"
  unfolding sample_run_def by (intro run_reaches a_request)

lemma sample_run_messages: "map m_id (messages (database (snd sample_run))) = [uuid (CHR ''m''), uuid (CHR ''n''), uuid (CHR ''x'')]"
  by code_simp

section \<open>Every execution\<close>



text \<open>C11. Nothing stored is lost or rewritten: along any execution every row of users, contacts, devices,
  conversations, participants and messages remains, an account keeps its identifier and
  keys, a device its owner and key, a message its author and content, a delivery or read time
  that is set stays, and no read position moves backwards.\<close>

theorem nothing_lost:
  assumes "server_reaches E order fcm w w' ps"
  shows "evolves (database w) (database w')"
  by (rule evolution.reached_database [OF assms])

theorem nothing_lost_witness:
  "evolves sample_db (database (snd sample_run)) \<and> messages sample_db \<noteq> messages (database (snd sample_run))"
proof -
  have "map m_id (messages sample_db) \<noteq> map m_id (messages (database (snd sample_run)))"
    unfolding sample_run_messages by (simp add: sample_db_def)
  with nothing_lost [OF sample_reaches] show ?thesis by (auto simp: sample_world_def)
qed

text \<open>C12. Every account is named after its key: if each identifier is 05 followed by the account's
  public key, then so it is after any execution.\<close>

theorem accounts_bound:
  assumes "server_reaches E order fcm w w' ps" and "identity_bound (database w)"
  shows "identity_bound (database w')"
  using bound.reached_database [OF assms(1)] assms(2) by blast

theorem accounts_bound_witness: "identity_bound (database (snd sample_run))"
proof -
  have "identity_bound (database sample_world)" by code_simp
  from accounts_bound [OF sample_reaches this] show ?thesis .
qed

text \<open>C4. Only participants write: if every stored message was written by a participant of its
  conversation, then so it is after any execution, although a handler checks the membership
  in one statement and inserts the message in a later one.\<close>

theorem authors_participate:
  assumes "server_reaches E order fcm w w' ps" and "senders_ok (database w)"
  shows "senders_ok (database w')"
  using author_loop.reachable_R [of E order fcm w w' ps] assms
  by (auto simp: server_reaches_def on_db_def)

theorem authors_participate_witness: "senders_ok (database (snd sample_run))"
proof -
  have "senders_ok (database sample_world)" by code_simp
  from authors_participate [OF sample_reaches this] show ?thesis .
qed

end
