(* ===== verification/Answers.thy ===== *)
theory Answers
  imports Executions
begin

text \<open>
  How programs end: no request, WebSocket message or notification ends with an exception that
  nobody handles, and every request is answered with one of nine status codes.
\<close>

section \<open>The ends of a program\<close>

text \<open>Every result a program can have, whatever states its actions meet.\<close>

inductive ends :: "('e + 'a \<Rightarrow> bool) \<Rightarrow> ('s, 'e, 'a) prog \<Rightarrow> bool" for Q where
  ends_Return: "Q (Inr a) \<Longrightarrow> ends Q (Return a)"
| ends_Throw: "Q (Inl e) \<Longrightarrow> ends Q (Throw e)"
| ends_Act: "(\<And>s. ends Q (fst (f s))) \<Longrightarrow> ends Q (Act f)"

inductive_simps ends_Return_iff [simp]: "ends Q (Return a)"
inductive_simps ends_Throw_iff [simp]: "ends Q (Throw e)"
inductive_simps ends_Act_iff: "ends Q (Act f)"

lemma ends_top: "(\<And>r. Q r) \<Longrightarrow> ends Q p"
proof (induction p)
  case (Act f)
  show ?case
  proof (rule ends_Act)
    fix s show "ends Q (fst (f s))"
      by (rule Act.IH [of "f s"]) (use Act.prems in \<open>auto intro: fsts.intros\<close>)
  qed
qed simp_all

lemma ends_mono: "ends Q p \<Longrightarrow> (\<And>r. Q r \<Longrightarrow> Q' r) \<Longrightarrow> ends Q' p"
  by (induction rule: ends.induct) (auto intro: ends_Act)

lemma ends_await:
  assumes "ends (case_sum (\<lambda>e. Q (Inl e)) (\<lambda>a. ends Q (k a))) m"
  shows "ends Q (await m k)"
  using assms by (induction rule: ends.induct) (auto intro: ends_Act)

lemma ends_try_catch:
  assumes "ends (case_sum (\<lambda>e. ends Q (h e)) (\<lambda>a. Q (Inr a))) m"
  shows "ends Q (try_catch m h)"
  using assms by (induction rule: ends.induct) (auto intro: ends_Act)

text \<open>Where an exception is as good as any other end.\<close>

lemma ends_after: "(\<And>a. ends Q (k a)) \<Longrightarrow> (\<And>e. Q (Inl e)) \<Longrightarrow> ends Q (await m k)"
  by (rule ends_await [OF ends_top]) (simp split: sum.split)

lemma ends_caught: "(\<And>e. ends Q (h e)) \<Longrightarrow> ends (\<lambda>r. \<forall>a. r = Inr a \<longrightarrow> Q r) m \<Longrightarrow> ends Q (try_catch m h)"
  by (rule ends_try_catch, erule ends_mono) (simp split: sum.split)

lemma ends_pool:
  assumes "pool_steps env progs (s, ps) (t, qs)" and "\<And>p. progs p \<Longrightarrow> ends Q p" and "\<forall>p \<in> set ps. ends Q p"
  shows "\<forall>p \<in> set qs. ends Q p"
  using assms(1)
proof (induction "(t, qs)" arbitrary: t qs rule: rtranclp_induct)
  case base
  then show ?case using assms(3) by simp
next
  case (step c)
  obtain u rs where c: "c = (u, rs)" by (cases c)
  with step(3) have "\<forall>p \<in> set rs. ends Q p" by blast
  with step(2) c show ?case
    by (auto elim!: pool_stepE dest!: set_update_subset_insert [THEN subsetD] nth_mem intro: assms(2)
        simp: ends_Act_iff)
qed

section \<open>Statuses\<close>

definition statuses :: "nat set" where
  "statuses = {200, 201, 400, 401, 403, 404, 409, 429, 500}"

definition proper :: "response \<Rightarrow> bool" where
  "proper r \<longleftrightarrow> status r \<in> statuses"

text \<open>An exception, or a response with a proper status.\<close>

abbreviation "handles \<equiv> ends (\<lambda>r. \<forall>x. r = Inr x \<longrightarrow> proper x)"

lemma ends_reply [simp]: "ends Q (reply s b) \<longleftrightarrow> Q (Inr \<lparr>status = s, body = b\<rparr>)"
  by (simp add: reply_def)

lemma proper_status [simp]: "proper \<lparr>status = s, body = b\<rparr> \<longleftrightarrow> s \<in> statuses"
  by (simp add: proper_def)

lemma handles_reply: "s \<in> statuses \<Longrightarrow> handles (reply s b)"
  by simp

lemma handles_await: "(\<And>a. handles (k a)) \<Longrightarrow> handles (await m k)"
  by (rule ends_after) simp_all

lemma handles_catch: "(\<And>e. handles (h e)) \<Longrightarrow> handles m \<Longrightarrow> handles (try_catch m h)"
  by (rule ends_caught) (auto elim: ends_mono)

lemmas handles_intros = handles_reply handles_await handles_catch

lemma handles_auth: "(\<And>u. handles (k u)) \<Longrightarrow> handles (authMiddleware E h k)"
  by (auto simp: authMiddleware_def statuses_def intro!: handles_intros split: option.split)

lemmas handler_defs = auth_challenge_def auth_register_def auth_login_def auth_logout_def users_me_def
  users_settings_def contacts_add_def contacts_list_def conversations_create_def conversations_list_def
  messages_send_def messages_page_def messages_read_def devices_link_def push_subscribe_def
  onion_nodes_list_def onion_path_def

lemma handles_route: "handles (route E order dw rq json)"
  unfolding route_def Let_def
  by (cases "rq_endpoint rq")
    (auto simp: handler_defs Let_def statuses_def intro!: handles_intros handles_auth split: list.split)

lemma serve_answers: "ends (\<lambda>r. \<exists>x. r = Inr x \<and> proper x) (serve E order admitted dw rq)"
proof -
  have "ends (\<lambda>r. \<exists>x. r = Inr x \<and> proper x) (errorHandler e)" for e
    by (simp add: errorHandler_def statuses_def)
  then show ?thesis
    using handles_route by (auto simp: serve_def statuses_def intro!: ends_caught elim: ends_mono split: option.split)
qed

text \<open>What a program of the server may end with.\<close>

definition settles :: "exn + response option \<Rightarrow> bool" where
  "settles r \<longleftrightarrow> (\<exists>a. r = Inr a \<and> pred_option proper a)"

lemma server_prog_settles: "server_prog E order fcm p \<Longrightarrow> ends settles p"
proof (induction rule: server_prog.induct)
  case (a_request admitted draw rq)
  show ?case
    by (rule ends_await, rule ends_mono [OF serve_answers]) (auto simp: settles_def)
next
  case (a_message clientId data)
  have "ends (\<lambda>r. \<exists>x. r = Inr x) (on_message E clientId data)"
    unfolding on_message_def by (rule ends_caught) (auto simp: modify_def intro: ends_Act ends_top)
  then show ?case
    by (intro ends_await) (auto simp: settles_def elim!: ends_mono)
next
  case (a_push job)
  have "ends (\<lambda>r. \<exists>x. r = Inr x) (try_catch m (\<lambda>e. Return False))" for m :: "bool io"
    by (rule ends_caught) (auto intro: ends_top)
  then have "ends (\<lambda>r. \<exists>x. r = Inr x) (sendPushNotification fcm job)"
    by (auto simp: sendPushNotification_def gets_def ends_Act_iff)
  then show ?case
    by (intro ends_await) (auto simp: settles_def elim!: ends_mono)
qed



end
