(* ===== verification/Social.thy ===== *)
theory Social
  imports Messaging
begin

text \<open>
  Contacts and conversations: what a single request creates, that it creates all of it or
  nothing, and what the conversation list shows.
\<close>

section \<open>Adding a contact\<close>

lemma add_contact_tx_Inr:
  assumes "add_contact_tx c userId contactId name now d = Inr (r, d')"
  obtains k cv where "contact_key k = (userId, contactId)" and "c_id cv = c" and "c_created_by cv = userId"
    and "d' = d\<lparr>contacts := contacts d @ [k], conversations := conversations d @ [cv],
       participants := participants d @ [new_participant c userId True now, new_participant c contactId False now]\<rparr>"
proof -
  from assms obtain d1 d2 d3 where 1: "insert_contact_stmt userId contactId name now d = Inr ((), d1)"
    and 2: "insert_conversation_stmt c ''direct'' None None userId now d1 = Inr ((), d2)"
    and 3: "insert_participant_stmt c userId True now d2 = Inr ((), d3)"
    and 4: "insert_participant_stmt c contactId False now d3 = Inr (r, d')"
    by (auto simp: add_contact_tx_def stmt_bind_def split: sum.splits prod.splits)
  from 1 obtain k where k: "contact_key k = (userId, contactId)" "d1 = d\<lparr>contacts := contacts d @ [k]\<rparr>"
    by (auto simp: insert_contact_stmt_def dest!: insert_contact_Inr)
  from 2 obtain cv where cv: "c_id cv = c" "c_created_by cv = userId"
      "d2 = d1\<lparr>conversations := conversations d1 @ [cv]\<rparr>"
    by (auto simp: insert_conversation_stmt_def dest!: insert_conversation_Inr)
  from 3 4 k cv show thesis
    by (intro that [of k cv])
      (auto simp: insert_participant_stmt_def dest!: insert_participant_Inr)
qed

text \<open>C19. Adding a contact is all or nothing: either the answer is 201 and exactly one contact,
  one conversation and its two participants were added, for another existing account that
  was no contact yet, or the state is unchanged.\<close>

theorem contact_all_or_nothing:
  "let (res, w') = run (contacts_add draw json userId) w; d = database w in
    w' = w \<and> answer (res, w') \<noteq> Some 201 \<or>
    answer (res, w') = Some 201 \<and>
    (\<exists>data u k cv. addContactSchema json = Some data \<and> u \<in> set (users d) \<and>
       u_chhaya_id u = ct_chhayaId data \<and> u_id u \<noteq> userId \<and>
       \<not> has_key contact_key (userId, u_id u) (contacts d) \<and>
       contact_key k = (userId, u_id u) \<and> c_id cv = dr_uuid draw \<and> c_created_by cv = userId \<and>
       w' = w\<lparr>database := d\<lparr>contacts := contacts d @ [k], conversations := conversations d @ [cv],
         participants := participants d @ [new_participant (dr_uuid draw) userId True (clock w),
           new_participant (dr_uuid draw) (u_id u) False (clock w)]\<rparr>\<rparr>)"
proof (cases "addContactSchema json")
  case (Some data)
  show ?thesis
  proof (cases "users_with_chhaya_id (ct_chhayaId data) (database w)")
    case (Cons u us)
    then have "u \<in> set (users_with_chhaya_id (ct_chhayaId data) (database w))" by simp
    then have u: "u \<in> set (users (database w))" "u_chhaya_id u = ct_chhayaId data"
      by (auto simp: users_with_chhaya_id_def)
    let ?old = "filter (\<lambda>k. contact_key k = (userId, u_id u)) (contacts (database w))"
    let ?tx = "add_contact_tx (dr_uuid draw) userId (u_id u) (ct_displayName data) (clock w) (database w)"
    note eval = contacts_add_def run_simps Some Cons Let_def select_stmt_def answer_def
    show ?thesis
    proof (cases "u_id u = userId \<or> ?old \<noteq> [] \<or> (\<exists>e. ?tx = Inl e)")
      case True
      then show ?thesis by (auto simp: eval)
    next
      case False
      then obtain d' where tx: "?tx = Inr ((), d')" by (cases ?tx) auto
      from False have fresh: "\<not> has_key contact_key (userId, u_id u) (contacts (database w))"
        by (auto simp: has_key_iff filter_empty_conv)
      from tx obtain k cv where "contact_key k = (userId, u_id u)" "c_id cv = dr_uuid draw" "c_created_by cv = userId"
        "d' = (database w)\<lparr>contacts := contacts (database w) @ [k], conversations := conversations (database w) @ [cv],
         participants := participants (database w) @ [new_participant (dr_uuid draw) userId True (clock w),
           new_participant (dr_uuid draw) (u_id u) False (clock w)]\<rparr>"
        by (rule add_contact_tx_Inr)
      with False tx fresh u Some show ?thesis by (auto simp: eval)
    qed
  qed (simp add: contacts_add_def run_simps Some select_stmt_def answer_def)
qed (simp add: contacts_add_def run_simps answer_def)

section \<open>Creating a conversation\<close>

text \<open>The loop over the participants.\<close>

lemma participants_loop:
  assumes "stmt_for_each pids (\<lambda>pid. with_uuid E pid (\<lambda>u. insert_participant_stmt c u (pid = userId))) now d =
    Inr (r, d')"
  shows "\<exists>us. list_all2 (\<lambda>pid u. pg_uuid E pid = Some u) pids us \<and> distinct us \<and>
    (\<forall>u \<in> set us. \<not> has_key participant_key (c, u) (participants d)) \<and>
    d' = d\<lparr>participants := participants d @ map2 (\<lambda>pid u. new_participant c u (pid = userId) now) pids us\<rparr>"
  using assms
proof (induction pids arbitrary: d)
  case (Cons pid pids)
  let ?ins = "\<lambda>pid. with_uuid E pid (\<lambda>u. insert_participant_stmt c u (pid = userId))"
  from Cons.prems obtain d1 where first: "?ins pid now d = Inr ((), d1)" and rest: "stmt_for_each pids ?ins now d1 = Inr (r, d')"
    by (simp add: stmt_bind_def split: sum.splits prod.splits)
  from first obtain u where u: "pg_uuid E pid = Some u"
    and ins: "insert_participant_stmt c u (pid = userId) now d = Inr ((), d1)"
    by (auto simp: with_uuid_def uuid_param_def split: option.splits)
  from ins have d1: "d1 = d\<lparr>participants := participants d @ [new_participant c u (pid = userId) now]\<rparr>"
    and new: "\<not> has_key participant_key (c, u) (participants d)"
    by (auto simp: insert_participant_stmt_def new_participant_def dest!: insert_participant_Inr)
  from Cons.IH [OF rest] obtain us where us: "list_all2 (\<lambda>pid u. pg_uuid E pid = Some u) pids us" "distinct us"
    "\<forall>u \<in> set us. \<not> has_key participant_key (c, u) (participants d1)"
    "d' = d1\<lparr>participants := participants d1 @ map2 (\<lambda>pid u. new_participant c u (pid = userId) now) pids us\<rparr>"
    by blast
  have "u \<notin> set us" using us(3) by (auto simp: d1 has_key_def new_participant_def)
  with u new us show ?case by (intro exI [of _ "u # us"]) (auto simp: d1 has_key_def)
qed (auto simp: stmt_return_def)

lemma js_dedup_subset: "set (js_dedup xs) = set xs"
  by (induction xs) auto

lemma js_dedup_distinct: "distinct (js_dedup xs)"
  by (induction xs) auto

lemma js_dedup_id: "distinct xs \<Longrightarrow> js_dedup xs = xs"
  by (induction xs) (auto intro!: filter_True)

lemma js_dedup_length: "length (js_dedup xs) = length xs \<Longrightarrow> js_dedup xs = xs"
  by (metis card_distinct distinct_card js_dedup_distinct js_dedup_id js_dedup_subset)

lemma map2_others:
  "list_all2 P pids us \<Longrightarrow> userId \<notin> set pids \<Longrightarrow> map2 (\<lambda>pid v. f v (pid = userId)) pids us = map (\<lambda>v. f v False) us"
  by (induction rule: list_all2_induct) auto

lemma create_conversation_tx_Inr:
  assumes "create_conversation_tx E c userId data (userId # pids) now d = Inr (r, d')"
  obtains cv u us where "c_id cv = c" and "c_created_by cv = userId" and "pg_uuid E userId = Some u"
    and "list_all2 (\<lambda>pid v. pg_uuid E pid = Some v) pids us" and "distinct (u # us)"
    and "d' = d\<lparr>conversations := conversations d @ [cv],
       participants := participants d @ new_participant c u True now #
         map2 (\<lambda>pid v. new_participant c v (pid = userId) now) pids us\<rparr>"
proof -
  from assms obtain d1 where 1: "insert_conversation_stmt c (cv_type data) (or_null (cv_name data))
        (or_null (cv_avatarUrl data)) userId now d = Inr ((), d1)"
    and 2: "stmt_for_each (userId # pids) (\<lambda>pid. with_uuid E pid (\<lambda>u. insert_participant_stmt c u (pid = userId)))
      now d1 = Inr (r, d')"
    by (auto simp: create_conversation_tx_def stmt_bind_def split: sum.splits prod.splits)
  from 1 obtain cv where cv: "c_id cv = c" "c_created_by cv = userId"
      "d1 = d\<lparr>conversations := conversations d @ [cv]\<rparr>"
    by (auto simp: insert_conversation_stmt_def dest!: insert_conversation_Inr)
  from participants_loop [OF 2] cv show thesis
    by (auto simp: list_all2_Cons1 intro: that)
qed

text \<open>C20. Creating a conversation is all or nothing: either the answer is 201 and exactly one
  conversation was added, with one participant row for the creator, the only
  administrator, and one for each of the named accounts, all different, or the state is
  unchanged.  A direct conversation has two participants.\<close>

theorem conversation_all_or_nothing:
  "let (res, w') = run (conversations_create E draw json userId) w; d = database w in
    w' = w \<and> answer (res, w') \<noteq> Some 201 \<or>
    answer (res, w') = Some 201 \<and>
    (\<exists>data cv u us. createConversationSchema E json = Some data \<and>
       c_id cv = dr_uuid draw \<and> c_created_by cv = userId \<and>
       pg_uuid E userId = Some u \<and> list_all2 (\<lambda>pid v. pg_uuid E pid = Some v) (cv_participantIds data) us \<and>
       distinct (u # us) \<and> \<not> (cv_type data = ''direct'' \<and> length us \<noteq> 1) \<and>
       w' = w\<lparr>database := d\<lparr>conversations := conversations d @ [cv],
         participants := participants d @ new_participant (dr_uuid draw) u True (clock w) #
           map (\<lambda>v. new_participant (dr_uuid draw) v False (clock w)) us\<rparr>\<rparr>)"
proof (cases "createConversationSchema E json")
  case (Some data)
  let ?all = "js_dedup (userId # cv_participantIds data)"
  let ?tx = "create_conversation_tx E (dr_uuid draw) userId data ?all (clock w) (database w)"
  note eval = conversations_create_def run_simps Some Let_def answer_def
  show ?thesis
  proof (cases "cv_type data = ''direct'' \<and> length (cv_participantIds data) \<noteq> 1 \<or>
      length ?all \<noteq> length (cv_participantIds data) + 1 \<or> (\<exists>e. ?tx = Inl e)")
    case True
    then show ?thesis by (auto simp: eval)
  next
    case False
    then obtain d' where tx: "?tx = Inr ((), d')" by (cases ?tx) auto
    have dedup: "?all = userId # cv_participantIds data"
      using False by (intro js_dedup_length) simp
    then have own: "userId \<notin> set (cv_participantIds data)"
      using js_dedup_distinct [of "userId # cv_participantIds data"] by simp
    from tx [unfolded dedup] show ?thesis
    proof (rule create_conversation_tx_Inr, goal_cases)
      case (1 cv u us)
      note flags = map2_others [OF 1(4) own, where f = "\<lambda>v a. new_participant (dr_uuid draw) v a (clock w)"]
      have "run (conversations_create E draw json userId) w =
          (Inr \<lparr>status = 201, body = BConversation (dr_uuid draw)\<rparr>, w\<lparr>database := d'\<rparr>)"
        using False tx dedup by (auto simp: eval)
      moreover have "\<not> (cv_type data = ''direct'' \<and> length us \<noteq> 1)"
        using False 1(4) by (auto dest: list_all2_lengthD)
      ultimately show ?case
        using 1 Some by (auto simp: Let_def answer_def flags intro!: exI [of _ cv] exI [of _ us])
    qed
  qed
qed (simp add: conversations_create_def run_simps answer_def)

section \<open>The conversation list\<close>

text \<open>One conversation as its member sees it.\<close>

definition seen_conversation :: "db \<Rightarrow> participant \<Rightarrow> conversation \<Rightarrow> conversation_view" where
  "seen_conversation d p c =
     \<lparr>vw_id = c_id c, vw_type = c_type c, vw_name = c_name c, vw_avatar_url = c_avatar_url c,
      vw_created_at = c_created_at c, vw_updated_at = c_updated_at c,
      vw_participants = members_of d (c_id c),
      vw_last_message = map_option last_message_of
        (latest (filter (\<lambda>m. m_conversation_id m = c_id c \<and> \<not> m_is_deleted m) (messages d))),
      vw_unread_count = unread_count d p\<rparr>"

lemma distinct_concat_keys:
  assumes "distinct (map key xs)" and "\<And>x. x \<in> set xs \<Longrightarrow> g x = [] \<or> g x = [key x]"
  shows "distinct (concat (map g xs))"
  using assms
proof (induction xs)
  case (Cons x xs)
  have "set (concat (map g xs)) \<subseteq> key ` set xs" using Cons.prems(2) by fastforce
  moreover have "distinct (concat (map g xs))" using Cons by simp
  moreover have "g x = [] \<or> g x = [key x]" using Cons.prems(2) by simp
  ultimately show ?case using Cons.prems(1) by (elim disjE) auto
qed simp

lemma conversation_rows_set:
  "set (conversation_rows userId d) =
     {seen_conversation d p c | p c. c \<in> set (conversations d) \<and> p \<in> set (participants d) \<and>
        active_member (c_id c) userId p}"
  by (auto simp: conversation_rows_def seen_conversation_def active_member_def)

lemma conversation_rows_ids:
  assumes "db_ok d"
  shows "distinct (map vw_id (conversation_rows userId d))"
proof -
  let ?row = "\<lambda>c. concat (map (\<lambda>p. if active_member (c_id c) userId p
    then [seen_conversation d p c] else []) (participants d))"
  have keys: "distinct (map c_id (conversations d))" "distinct (map participant_key (participants d))"
    using assms by (simp_all add: db_ok_def keys_ok_def)
  have "map vw_id (?row c) = [] \<or> map vw_id (?row c) = [c_id c]" for c
  proof (cases "\<exists>p \<in> set (participants d). active_member (c_id c) userId p")
    case True
    then obtain p where p: "p \<in> set (participants d)" "active_member (c_id c) userId p" by blast
    have "?row c = [seen_conversation d p c]"
      by (subst concat_unique [OF keys(2) p(1)]) (use p(2) in \<open>auto simp: active_member_def\<close>)
    then show ?thesis by (simp add: seen_conversation_def)
  qed auto
  then have "distinct (concat (map (\<lambda>c. map vw_id (?row c)) (conversations d)))"
    by (intro distinct_concat_keys [OF keys(1)]) blast
  then have "distinct (map vw_id (concat (map ?row (conversations d))))"
    by (simp add: map_concat comp_def)
  moreover have "conversation_rows userId d =
      sort_key (\<lambda>v. - int (vw_updated_at v)) (concat (map ?row (conversations d)))"
    unfolding conversation_rows_def seen_conversation_def active_member_def ..
  ultimately show ?thesis by (simp add: distinct_map)
qed

text \<open>C21. The conversation list is exact: the request answers 200 and changes nothing, each
  conversation in which the account is an active member is listed once, and no other, most
  recently updated first.\<close>

theorem conversation_list_exact:
  assumes "db_ok (database w)"
  shows "\<exists>rows. run (conversations_list userId) w = (Inr \<lparr>status = 200, body = BConversations rows\<rparr>, w) \<and>
    distinct (map vw_id rows) \<and> sorted_wrt (\<lambda>v v'. vw_updated_at v' \<le> vw_updated_at v) rows \<and>
    set rows = {seen_conversation (database w) p c | p c. c \<in> set (conversations (database w)) \<and>
      p \<in> set (participants (database w)) \<and> active_member (c_id c) userId p}"
proof -
  have "sorted (map (\<lambda>v. - int (vw_updated_at v)) (conversation_rows userId (database w)))"
    by (simp add: conversation_rows_def)
  then have "sorted_wrt (\<lambda>v v'. vw_updated_at v' \<le> vw_updated_at v) (conversation_rows userId (database w))"
    by (simp add: sorted_map)
  with conversation_rows_ids [OF assms] show ?thesis
    by (simp add: conversations_list_def run_simps select_stmt_def conversation_rows_set)
qed

theorem conversation_list_exact_witness:
  "\<exists>rows. run (conversations_list (uuid (CHR ''b''))) sample_world =
     (Inr \<lparr>status = 200, body = BConversations rows\<rparr>, sample_world) \<and> distinct (map vw_id rows)"
  using conversation_list_exact [OF sample_world_ok, of "uuid (CHR ''b'')"] by blast

end
