(* ===== verification/Registry.thy ===== *)
theory Registry
  imports Messaging
begin

text \<open>
  The signaling registry: \<open>userClients\<close> refines a function from accounts to their sockets
  and \<open>clients\<close> a function from sockets to clients; what every interleaving keeps of the
  two, and who receives what.
\<close>

section \<open>The two maps as functions\<close>

definition sockets_of :: "(string \<times> string list) list \<Rightarrow> string \<Rightarrow> string list" where
  "sockets_of m u = (case map_of m u of None \<Rightarrow> [] | Some ids \<Rightarrow> ids)"

lemma user_sockets_of: "user_sockets u w = sockets_of (user_clients w) u"
  by (simp add: user_sockets_def sockets_of_def)

lemma map_of_update_where:
  "map_of (update_where (\<lambda>e. fst e = u) (\<lambda>e. (fst e, f (snd e))) m) v =
     (if v = u then map_option f (map_of m u) else map_of m v)"
  by (induction m) auto

lemma map_of_append_new: "\<not> has_key fst u m \<Longrightarrow> map_of (m @ [(u, x)]) v = (if v = u then Some x else map_of m v)"
proof (induction m)
  case (Cons e m)
  then show ?case by (cases e) (auto simp: has_key_def)
qed simp

lemma map_of_delete_empty:
  "distinct (map fst m) \<Longrightarrow> map_of (delete_where (\<lambda>e. fst e = u \<and> snd e = []) m) v =
     (if v = u \<and> map_of m u = Some [] then None else map_of m v)"
proof (induction m)
  case (Cons e m)
  have absent: "map_of (delete_where P m) a = None" if "a \<notin> fst ` set m" for P and a :: 'a
    using that by (auto simp: map_of_eq_None_iff set_delete_where)
  from Cons absent show ?case
    by (cases e) (auto simp: delete_where_def map_of_eq_None_iff [symmetric])
qed (simp add: delete_where_def)

lemma sockets_of_add:
  "sockets_of (add_user_client u i m) = (sockets_of m)(u := List.insert i (sockets_of m u))"
proof
  fix v
  show "sockets_of (add_user_client u i m) v = ((sockets_of m)(u := List.insert i (sockets_of m u))) v"
  proof (cases "has_key fst u m")
    case True
    then obtain ids where "map_of m u = Some ids" by (auto simp: has_key_iff dest: weak_map_of_SomeI)
    with True show ?thesis
      by (auto simp: sockets_of_def add_user_client_def map_of_update_where split: option.split)
  next
    case False
    moreover from False have "map_of m u = None" by (auto simp: has_key_iff map_of_eq_None_iff)
    ultimately show ?thesis
      by (auto simp: sockets_of_def add_user_client_def map_of_update_where map_of_append_new split: option.split)
  qed
qed

lemma sockets_of_remove:
  assumes "distinct (map fst m)"
  shows "sockets_of (remove_user_client u i m) = (sockets_of m)(u := removeAll i (sockets_of m u))"
proof -
  let ?m = "update_where (\<lambda>e. fst e = u) (\<lambda>e. (fst e, removeAll i (snd e))) m"
  have "distinct (map fst ?m)" using assms by (simp add: map_update_where)
  from map_of_delete_empty [OF this] show ?thesis
    by (auto simp: fun_eq_iff sockets_of_def remove_user_client_def map_of_update_where split: option.splits)
qed

lemma find_client_Some: "find_client i w = Some c \<Longrightarrow> c \<in> set (clients w) \<and> cl_id c = i"
  by (auto simp: find_client_def find_Some_iff)

lemma find_client_unique:
  "distinct (map cl_id (clients w)) \<Longrightarrow> c \<in> set (clients w) \<Longrightarrow> find_client (cl_id c) w = Some c"
proof -
  have "distinct (map cl_id cs) \<Longrightarrow> c \<in> set cs \<Longrightarrow> find (\<lambda>x. cl_id x = cl_id c) cs = Some c" for cs
    by (induction cs) auto
  then show "distinct (map cl_id (clients w)) \<Longrightarrow> c \<in> set (clients w) \<Longrightarrow> ?thesis"
    by (simp add: find_client_def)
qed

lemma find_set_client:
  "find (\<lambda>x. cl_id x = i) (set_client c cs) = (if i = cl_id c then Some c else find (\<lambda>x. cl_id x = i) cs)"
proof -
  have "find (\<lambda>x. cl_id x = i) (update_where (\<lambda>x. cl_id x = cl_id c) (\<lambda>_. c) cs) =
      (if i = cl_id c then if has_key cl_id i cs then Some c else None else find (\<lambda>x. cl_id x = i) cs)"
    by (induction cs) (auto simp: has_key_def)
  moreover have "find (\<lambda>x. cl_id x = i) (cs @ [c]) =
      (case find (\<lambda>x. cl_id x = i) cs of Some x \<Rightarrow> Some x | None \<Rightarrow> if i = cl_id c then Some c else None)"
    by (induction cs) auto
  moreover have "\<not> has_key cl_id i cs \<Longrightarrow> find (\<lambda>x. cl_id x = i) cs = None"
    by (auto simp: has_key_iff find_None_iff)
  ultimately show ?thesis
    by (auto simp: set_client_def split: option.split)
qed

lemma find_register:
  "find_client i (register_client c w) =
     (if i = cl_id c then Some (c\<lparr>cl_last_ping := date_now w\<rparr>) else find_client i w)"
  by (simp add: find_client_def register_client_def Let_def send_def find_set_client)

lemma sockets_register:
  "user_sockets u (register_client c w) =
     (if u = cl_user_id c then List.insert (cl_id c) (user_sockets u w) else user_sockets u w)"
  by (simp add: user_sockets_of register_client_def Let_def send_def sockets_of_add)

lemma find_disconnect: "find_client i (handleDisconnect j w) = (if i = j then None else find_client i w)"
proof -
  have "find (\<lambda>x. cl_id x = i) (delete_where (\<lambda>x. cl_id x = j) cs) =
      (if i = j then None else find (\<lambda>x. cl_id x = i) cs)" for cs :: "client list"
    by (induction cs) (auto simp: delete_where_def)
  then show ?thesis
    by (cases "i = j") (simp_all add: handleDisconnect_def find_client_def split: option.split)
qed

section \<open>The invariant\<close>

text \<open>Sockets and accounts are keys, no account is listed without a socket, and every client
  is listed under its account.\<close>

definition entries_ok :: "(string \<times> string list) list \<Rightarrow> bool" where
  "entries_ok m \<longleftrightarrow> distinct (map fst m) \<and> (\<forall>(u, ids) \<in> set m. ids \<noteq> [] \<and> distinct ids)"

definition registry_ok :: "world \<Rightarrow> bool" where
  "registry_ok w \<longleftrightarrow>
     distinct (map cl_id (clients w)) \<and> entries_ok (user_clients w) \<and>
     (\<forall>c \<in> set (clients w). cl_id c \<in> set (user_sockets (cl_user_id c) w))"

lemma registry_ok_cong:
  "clients w' = clients w \<Longrightarrow> user_clients w' = user_clients w \<Longrightarrow> registry_ok w' = registry_ok w"
  by (simp add: registry_ok_def user_sockets_of)

lemma entries_add: "entries_ok m \<Longrightarrow> entries_ok (add_user_client u i m)"
  by (auto simp: entries_ok_def add_user_client_def map_update_where set_update_where has_key_iff
      List.insert_def split: if_splits)

lemma entries_remove: "entries_ok m \<Longrightarrow> entries_ok (remove_user_client u i m)"
  by (auto simp: entries_ok_def remove_user_client_def set_delete_where set_update_where
      distinct_map_delete_where map_update_where removeAll_filter_not_eq)

lemma sockets_disconnect:
  assumes "registry_ok w"
  shows "user_sockets u (handleDisconnect i w) =
    (case find_client i w of
       None \<Rightarrow> user_sockets u w
     | Some c \<Rightarrow> if u = cl_user_id c then removeAll i (user_sockets u w) else user_sockets u w)"
  using assms
  by (auto simp: registry_ok_def entries_ok_def user_sockets_of handleDisconnect_def sockets_of_remove
      split: option.split)

lemma sockets_listed: "i \<in> set (user_sockets u w) \<Longrightarrow> u \<in> set (getConnectedUsers w)"
  by (cases "map_of (user_clients w) u")
    (auto simp: user_sockets_def getConnectedUsers_def intro: rev_image_eqI dest!: map_of_SomeD)

lemma registry_disconnect:
  assumes "registry_ok w" shows "registry_ok (handleDisconnect i w)"
proof (cases "find_client i w")
  case (Some c)
  have "distinct (map fst (user_clients w))" using assms by (simp add: registry_ok_def entries_ok_def)
  with assms Some show ?thesis
    by (auto simp: registry_ok_def handleDisconnect_def entries_remove distinct_map_delete_where
        set_delete_where user_sockets_of sockets_of_remove)
qed (simp add: handleDisconnect_def assms)

lemma registry_register:
  assumes "registry_ok w" shows "registry_ok (register_client c w)"
proof -
  let ?c = "c\<lparr>cl_last_ping := date_now w\<rparr>"
  have "distinct (map cl_id (set_client ?c (clients w)))"
  proof -
    have "map cl_id (update_where (\<lambda>x. cl_id x = cl_id ?c) (\<lambda>_. ?c) (clients w)) = map cl_id (clients w)"
      by (simp add: update_where_def)
    with assms show ?thesis by (simp add: registry_ok_def set_client_def has_key_iff)
  qed
  moreover have "x = ?c \<or> x \<in> set (clients w)" if "x \<in> set (set_client ?c (clients w))" for x
    using that by (auto simp: set_client_def set_update_where split: if_splits)
  ultimately have "registry_ok (w\<lparr>clients := set_client ?c (clients w),
      user_clients := add_user_client (cl_user_id c) (cl_id c) (user_clients w)\<rparr>)"
    using assms by (fastforce simp: registry_ok_def entries_add user_sockets_of sockets_of_add)
  then show ?thesis
    unfolding register_client_def Let_def by (subst registry_ok_cong) (auto simp: send_def)
qed

lemma registry_send [simp]: "registry_ok (send i m w) = registry_ok w"
  by (rule registry_ok_cong) (simp_all add: send_def)

lemma registry_close [simp]: "registry_ok (close_socket i w) = registry_ok w"
  by (rule registry_ok_cong) (simp_all add: close_socket_def)

lemma registry_error [simp]: "registry_ok (send_error i m w) = registry_ok w"
  by (simp add: send_error_def)

lemma registry_broadcast [simp]: "registry_ok (broadcastToUser u m w) = registry_ok w"
  by (rule registry_ok_cong) simp_all

lemma registry_notify: "registry_ok (notify_members c m us w) = registry_ok w"
proof (induction us arbitrary: w)
  case (Cons u us)
  have "registry_ok (notify_one c m u w) = registry_ok w"
    unfolding notify_one_def by (rule registry_ok_cong) simp_all
  with Cons [of "notify_one c m u w"] show ?case by (simp add: notify_members_def)
qed (simp add: notify_members_def)

lemma registry_pong:
  assumes "registry_ok w"
  shows "registry_ok (w\<lparr>clients := update_where P (\<lambda>x. x\<lparr>cl_last_ping := n\<rparr>) (clients w)\<rparr>)"
  using assms
  by (auto simp: registry_ok_def map_update_where set_update_where user_sockets_of)

lemma registry_cleanup_one: "registry_ok w \<Longrightarrow> registry_ok (cleanup_one c w)"
  by (simp add: cleanup_one_def registry_disconnect)

lemma registry_cleanup: "registry_ok w \<Longrightarrow> registry_ok (cleanupStaleClients w)"
proof -
  have "registry_ok w \<Longrightarrow> registry_ok (fold cleanup_one cs w)" for cs
    by (induction cs arbitrary: w) (simp_all add: registry_cleanup_one)
  then show "registry_ok w \<Longrightarrow> ?thesis" by (simp add: cleanupStaleClients_def)
qed

lemma registry_frame [simp]:
  "registry_ok (w\<lparr>clock := t\<rparr>) = registry_ok w" "registry_ok (w\<lparr>open_sockets := os\<rparr>) = registry_ok w"
  "registry_ok (w\<lparr>push_jobs := js\<rparr>) = registry_ok w" "registry_ok (w\<lparr>ping_intervals := os\<rparr>) = registry_ok w"
  "registry_ok (w\<lparr>connections := os\<rparr>) = registry_ok w"
  by (rule registry_ok_cong; simp)+

lemma registry_environment: "environment w w' \<Longrightarrow> registry_ok w \<Longrightarrow> registry_ok w'"
proof (induction rule: environment.induct)
  case (heartbeat_ticks w i)
  then show ?case by (simp add: ping_interval_def heartbeat_def registry_disconnect split: option.split)
qed (simp_all add: on_connection_def on_close_def Let_def registry_disconnect registry_cleanup)

abbreviation registry_step :: "world \<Rightarrow> world \<Rightarrow> bool" where
  "registry_step \<equiv> \<lambda>w w'. registry_ok w \<longrightarrow> registry_ok w'"

interpretation registry: server_guarantee E "\<lambda>_ _. True" registry_step order fcm for E order fcm
  by unfold_locales
    (auto simp: steps_def registry_notify intro: registry_register registry_pong registry_environment
      registry_ok_cong [THEN iffD2])

section \<open>The heartbeat intervals\<close>

text \<open>Only a new connection sets an interval.\<close>

definition intervals_step :: "world \<Rightarrow> world \<Rightarrow> bool" where
  "intervals_step w w' \<longleftrightarrow> set (connections w) \<subseteq> set (connections w') \<and>
     (\<forall>i. i \<in> set (ping_intervals w') \<longrightarrow> i \<in> set (ping_intervals w) \<or> i \<notin> set (connections w))"

lemma intervals_refl [simp]: "intervals_step w w"
  by (simp add: intervals_step_def)

lemma intervals_trans: "intervals_step w w' \<Longrightarrow> intervals_step w' w'' \<Longrightarrow> intervals_step w w''"
  by (auto simp: intervals_step_def)

lemma intervals_cong:
  "connections w' = connections w \<Longrightarrow> ping_intervals w' = ping_intervals w \<Longrightarrow> intervals_step w w'"
  by (simp add: intervals_step_def)

lemma intervals_send [simp]:
  "connections (send i m w) = connections w" "ping_intervals (send i m w) = ping_intervals w"
  "connections (send_error i e w) = connections w" "ping_intervals (send_error i e w) = ping_intervals w"
  "connections (close_socket i w) = connections w" "ping_intervals (close_socket i w) = ping_intervals w"
  by (simp_all add: send_def send_error_def close_socket_def)

lemma intervals_disconnect [simp]:
  "connections (handleDisconnect i w) = connections w" "ping_intervals (handleDisconnect i w) = ping_intervals w"
  by (simp_all add: handleDisconnect_def split: option.split)

lemma intervals_fold:
  assumes "\<And>x w. connections (f x w) = connections w" and "\<And>x w. ping_intervals (f x w) = ping_intervals w"
  shows "connections (fold f xs w) = connections w \<and> ping_intervals (fold f xs w) = ping_intervals w"
  by (induction xs arbitrary: w) (simp_all add: assms)

lemma intervals_broadcast [simp]:
  "connections (broadcastToUser u m w) = connections w" "ping_intervals (broadcastToUser u m w) = ping_intervals w"
  unfolding broadcastToUser_def
  using intervals_fold [of "\<lambda>i w. case find_client i w of None \<Rightarrow> w | Some c \<Rightarrow> send (cl_id c) m w"]
  by (auto split: option.split)

lemma intervals_notify [simp]:
  "connections (notify_members c m us w) = connections w" "ping_intervals (notify_members c m us w) = ping_intervals w"
  unfolding notify_members_def using intervals_fold [of "notify_one c m"] by (auto simp: notify_one_def)

lemma intervals_cleanup [simp]:
  "connections (cleanupStaleClients w) = connections w" "ping_intervals (cleanupStaleClients w) = ping_intervals w"
  unfolding cleanupStaleClients_def using intervals_fold [of cleanup_one] by (auto simp: cleanup_one_def)

lemma intervals_register [simp]:
  "connections (register_client c w) = connections w" "ping_intervals (register_client c w) = ping_intervals w"
  by (simp_all add: register_client_def Let_def)

lemma intervals_heartbeat:
  "connections (snd (heartbeat i w)) = connections w \<and> ping_intervals (snd (heartbeat i w)) = ping_intervals w"
  by (simp add: heartbeat_def split: option.split)

lemma intervals_environment: "environment w w' \<Longrightarrow> intervals_step w w'"
proof (induction rule: environment.induct)
  case (heartbeat_ticks w i)
  show ?case using intervals_heartbeat [of i w]
    by (auto simp: ping_interval_def intervals_step_def split: prod.split bool.split)
qed (auto simp: intervals_step_def on_connection_def on_close_def Let_def)

interpretation intervals: server_guarantee E "\<lambda>_ _. True" intervals_step order fcm for E order fcm
  by unfold_locales
    (auto simp: steps_def intro: intervals_trans intervals_environment intervals_cong)

end
