(* ===== verification/Calls.thy ===== *)
theory Calls
  imports Registry Executions
begin

text \<open>
  Who is admitted to the signaling service, who receives a call signal or an announcement,
  and when a client is dropped.
\<close>

section \<open>A sample state\<close>

lemma register_frame [simp]: "open_sockets (register_client c w) = open_sockets w"
  "clock (register_client c w) = clock w"
  by (simp_all add: register_client_def Let_def send_def)

definition sample_client :: "char \<Rightarrow> char \<Rightarrow> client" where
  "sample_client i u = \<lparr>cl_id = [i], cl_user_id = uuid u, cl_device_id = JStr [i], cl_conversation_id = None,
     cl_last_ping = 0, cl_session_token = Some (JStr sample_token)\<rparr>"

text \<open>Accounts \<open>a\<close> and \<open>b\<close> are connected, on the sockets \<open>r\<close> and \<open>s\<close>.\<close>

definition sample_online :: world where
  "sample_online = register_client (sample_client (CHR ''s'') (CHR ''b''))
     (register_client (sample_client (CHR ''r'') (CHR ''a'')) (sample_world\<lparr>open_sockets := [''r'', ''s'']\<rparr>))"

lemma sample_online_ok: "registry_ok sample_online" "database sample_online = sample_db"
  unfolding sample_online_def
  by (intro registry_register) (simp_all add: registry_ok_def entries_ok_def sample_world_def)

lemma sample_online_clients:
  "find_client ''r'' sample_online = Some (sample_client (CHR ''r'') (CHR ''a''))"
  "find_client ''s'' sample_online = Some (sample_client (CHR ''s'') (CHR ''b''))"
  "open_sockets sample_online = [''r'', ''s'']"
  by (simp_all add: sample_online_def find_register date_now_def)
    (simp_all add: sample_client_def sample_world_def)

definition sample_ping :: signal where
  "sample_ping = server_signal ''ping'' (JObj []) sample_online"

definition join_json :: json where
  "join_json = JObj [(''type'', JStr ''join''), (''payload'', JObj [(''token'', JStr sample_token),
     (''deviceId'', JStr ''d''), (''conversationId'', JStr (uuid (CHR ''c'')))])]"

section \<open>The registry under interleaving\<close>

text \<open>C22. The registry of connections stays consistent under every interleaving: no socket and no
  account is registered twice, no account is listed without a socket, and every registered
  client is listed under its account.\<close>

theorem registry_consistent:
  assumes "server_reaches E order fcm w w' ps" and "registry_ok w"
  shows "registry_ok w'"
  using registry.reached_state [OF assms(1)] assms(2) by blast

definition joined_run :: "(exn + response option) \<times> world" where
  "joined_run = run (await (on_message sample_externals ''r'' (Some join_json)) (\<lambda>_. Return None))
     (sample_world\<lparr>open_sockets := [''r'']\<rparr>)"

lemma joined_run_clients: "map cl_user_id (clients (snd joined_run)) = [uuid (CHR ''a'')]"
  by code_simp

theorem registry_consistent_witness: "registry_ok (snd joined_run) \<and> clients (snd joined_run) \<noteq> []"
proof -
  have "registry_ok (sample_world\<lparr>open_sockets := [''r'']\<rparr>)"
    by (simp add: registry_ok_def entries_ok_def sample_world_def)
  moreover have "server_reaches sample_externals id (\<lambda>_. None) (sample_world\<lparr>open_sockets := [''r'']\<rparr>)
      (snd joined_run) [settled (fst joined_run)]"
    unfolding joined_run_def by (intro run_reaches a_message)
  ultimately have "registry_ok (snd joined_run)" by (rule registry_consistent [rotated])
  moreover have "clients (snd joined_run) \<noteq> []" using joined_run_clients by auto
  ultimately show ?thesis ..
qed

section \<open>Delivery\<close>

definition live :: "string \<Rightarrow> world \<Rightarrow> bool" where
  "live i w \<longleftrightarrow> find_client i w \<noteq> None \<and> List.member (open_sockets w) i"

lemma broadcast_eq:
  "broadcastToUser u msg w =
     w\<lparr>frames := frames w @ map (\<lambda>i. (i, msg)) (filter (\<lambda>i. live i w) (user_sockets u w))\<rparr>"
proof -
  let ?step = "\<lambda>i w. case find_client i w of None \<Rightarrow> w | Some c \<Rightarrow> send (cl_id c) msg w"
  have "fold ?step ids w = w\<lparr>frames := frames w @ map (\<lambda>i. (i, msg)) (filter (\<lambda>i. live i w) ids)\<rparr>" for ids
  proof (induction ids arbitrary: w)
    case (Cons i ids)
    have "live j (?step i w) = live j w" for j
      by (auto simp: live_def find_client_def send_def split: option.split)
    with Cons [of "?step i w"] show ?case
      by (auto simp: live_def send_def dest: find_client_Some split: option.split)
  qed simp
  then show ?thesis by (simp add: broadcastToUser_def)
qed

lemma user_sockets_distinct: "registry_ok w \<Longrightarrow> distinct (user_sockets u w)"
  by (auto simp: registry_ok_def entries_ok_def user_sockets_def dest!: map_of_SomeD split: option.split)

text \<open>C25. A broadcast to an account writes the message exactly once to each open socket on which
  the account has joined, only to open sockets listed under it, and changes nothing else.\<close>

theorem broadcast_exact:
  assumes "registry_ok w"
  shows "\<exists>ids. broadcastToUser u msg w = w\<lparr>frames := frames w @ map (\<lambda>i. (i, msg)) ids\<rparr> \<and> distinct ids \<and>
    {cl_id c | c. c \<in> set (clients w) \<and> cl_user_id c = u \<and> cl_id c \<in> set (open_sockets w)} \<subseteq> set ids \<and>
    set ids \<subseteq> set (user_sockets u w) \<inter> set (open_sockets w)"
proof (intro exI conjI)
  show "broadcastToUser u msg w = w\<lparr>frames := frames w @ map (\<lambda>i. (i, msg)) (filter (\<lambda>i. live i w) (user_sockets u w))\<rparr>"
    by (rule broadcast_eq)
  show "distinct (filter (\<lambda>i. live i w) (user_sockets u w))"
    using user_sockets_distinct [OF assms] by simp
  show "{cl_id c | c. c \<in> set (clients w) \<and> cl_user_id c = u \<and> cl_id c \<in> set (open_sockets w)} \<subseteq>
      set (filter (\<lambda>i. live i w) (user_sockets u w))"
    using assms find_client_unique by (fastforce simp: registry_ok_def live_def)
qed (auto simp: live_def)

theorem broadcast_exact_witness:
  "\<exists>ids. broadcastToUser (uuid (CHR ''b'')) sample_ping sample_online =
     sample_online\<lparr>frames := frames sample_online @ map (\<lambda>i. (i, sample_ping)) ids\<rparr> \<and> ''s'' \<in> set ids"
proof -
  have "''s'' \<in> {cl_id c | c. c \<in> set (clients sample_online) \<and> cl_user_id c = uuid (CHR ''b'') \<and>
      cl_id c \<in> set (open_sockets sample_online)}"
    using find_client_Some [OF sample_online_clients(2)] sample_online_clients(3)
    by (auto intro!: exI [of _ "sample_client (CHR ''s'') (CHR ''b'')"]) (simp add: sample_client_def)
  with broadcast_exact [OF sample_online_ok(1), of "uuid (CHR ''b'')" sample_ping] show ?thesis by blast
qed

text \<open>C26. A socket that joins again with the token of another account stays listed under the first
  one: what is sent to the first account is then written to the socket of the second, and
  when the socket closes the first account still counts as connected.\<close>

theorem rejoin_misroutes:
  assumes "registry_ok w" and "find_client i w = Some c" and "cl_id c' = i"
    and "cl_user_id c' \<noteq> cl_user_id c" and "i \<in> set (open_sockets w)"
  shows "let w' = register_client c' w in
    (\<exists>x. find_client i w' = Some x \<and> cl_user_id x = cl_user_id c') \<and>
    (i, msg) \<in> set (frames (broadcastToUser (cl_user_id c) msg w')) \<and>
    cl_user_id c \<in> set (getConnectedUsers (handleDisconnect i w'))"
proof -
  let ?w = "register_client c' w"
  have "i \<in> set (user_sockets (cl_user_id c) w)"
    using find_client_Some [OF assms(2)] assms(1) by (auto simp: registry_ok_def)
  then have listed: "i \<in> set (user_sockets (cl_user_id c) ?w)"
    by (auto simp: sockets_register)
  with assms(3-5) have "cl_user_id c \<in> set (getConnectedUsers (handleDisconnect i ?w))"
    by (intro sockets_listed [where i = i])
      (simp add: sockets_disconnect [OF registry_register [OF assms(1)]] find_register)
  moreover have "live i ?w"
    using assms(3,5) by (simp add: live_def find_register)
  ultimately show ?thesis
    using listed assms(3) by (simp add: Let_def find_register broadcast_eq)
qed

theorem rejoin_misroutes_witness:
  "(''r'', sample_ping) \<in> set (frames (broadcastToUser (uuid (CHR ''a'')) sample_ping
     (register_client (sample_client (CHR ''r'') (CHR ''b'')) sample_online)))"
  using rejoin_misroutes [OF sample_online_ok(1) sample_online_clients(1),
      of "sample_client (CHR ''r'') (CHR ''b'')" sample_ping] sample_online_clients(3)
  by (simp add: sample_client_def uuid_def Let_def)

section \<open>Call signals\<close>

lemma member_rows_length:
  assumes "db_ok d"
  shows "length (filter (active_member c u) (participants d)) = (if member c u d then 1 else 0)"
proof (cases "member c u d")
  case True
  then obtain p where p: "p \<in> set (participants d)" "active_member c u p"
    by (auto simp: member_def list_ex_iff)
  have "filter (active_member c u) (participants d) =
      filter (\<lambda>q. p_left_at q = None) (filter (\<lambda>q. participant_key q = participant_key p) (participants d))"
    using p(2) by (auto simp: active_member_def intro!: filter_cong)
  also have "filter (\<lambda>q. participant_key q = participant_key p) (participants d) = [p]"
    using assms p(1) by (intro filter_key_singleton) (simp_all add: db_ok_def keys_ok_def)
  finally have "filter (active_member c u) (participants d) = filter (\<lambda>q. p_left_at q = None) [p]" .
  with True p(2) show ?thesis by (simp add: active_member_def)
qed (simp add: member_filter)

lemma filter_exclusive:
  "(\<And>x. \<not> (P x \<and> Q x)) \<Longrightarrow> length (filter (\<lambda>x. P x \<or> Q x) xs) = length (filter P xs) + length (filter Q xs)"
  by (induction xs) auto

lemma signal_members_rows:
  assumes "db_ok d" and "pg_uuid E cv = Some c" and "pg_uuid E toUser = Some t"
  obtains rows where "signal_members_stmt E cv fromUser toUser now d = Inr (rows, d)"
    and "length rows = 2 \<longleftrightarrow> fromUser \<noteq> t \<and> member c fromUser d \<and> member c t d"
proof -
  let ?rows = "filter (\<lambda>p. active_member c fromUser p \<or> active_member c t p) (participants d)"
  have "length ?rows = (if fromUser = t then length (filter (active_member c t) (participants d))
      else length (filter (active_member c fromUser) (participants d)) + length (filter (active_member c t) (participants d)))"
    by (cases "fromUser = t") (simp, simp, rule filter_exclusive, simp add: active_member_def)
  then have "length ?rows = 2 \<longleftrightarrow> fromUser \<noteq> t \<and> member c fromUser d \<and> member c t d"
    by (simp add: member_rows_length [OF assms(1)])
  moreover have "signal_members_stmt E cv fromUser toUser now d = Inr (map p_user_id ?rows, d)"
    by (auto simp: signal_members_stmt_def with_uuid_def uuid_param_def assms(2,3) select_stmt_def
        active_member_def intro!: arg_cong [where f = "map p_user_id"] filter_cong)
  ultimately show thesis using that by simp
qed


definition offer_json :: json where
  "offer_json = JObj [(''type'', JStr ''offer''), (''to'', JStr (uuid (CHR ''b''))), (''payload'',
     JObj [(''conversationId'', JStr (uuid (CHR ''c''))), (''callId'', JStr ''1'')])]"


text \<open>A message on a socket whose session has expired or was revoked has no effect but that
  the socket is closed.\<close>

lemma expired_session_closed:
  assumes "find_client i w = Some c" and "run (authenticateToken E (cl_session_token c)) w = (Inr user, w)"
    and "user \<noteq> Some (cl_user_id c)"
  shows "run (on_message E i (Some msg)) w = (Inr (), close_socket i w)"
  using assms by (simp add: on_message_def handleMessage_def run_await run_try_catch)

lemma expired_session_closed_witness:
  "run (on_message sample_externals ''s'' (Some offer_json)) sample_online = (Inr (), close_socket ''s'' sample_online)"
proof -
  have "auth_user (tokenHash sample_externals sample_token) (clock sample_online) sample_db = Some (uuid (CHR ''a''))"
    by code_simp
  moreover have "hex64 sample_token" by code_simp
  ultimately have auth: "run (authenticateToken sample_externals (cl_session_token (sample_client (CHR ''s'') (CHR ''b'')))) sample_online =
      (Inr (Some (uuid (CHR ''a''))), sample_online)"
    by (simp add: run_authenticateToken sample_client_def sample_online_ok)
  show ?thesis
    by (rule expired_session_closed [OF sample_online_clients(2) auth]) (simp add: sample_client_def uuid_def)
qed

section \<open>Joining\<close>

lemma run_property_source_Inr [runs]:
  "run (property_source v) w = (Inr a, w') \<longleftrightarrow> v = Some a \<and> a \<noteq> JNull \<and> w' = w"
  by (cases v rule: property_source.cases) auto

lemma clients_frame [simp]:
  "clients (close_socket i w) = clients w" "clients (send_error i m w) = clients w"
  by (simp_all add: close_socket_def send_error_def send_def)

lemma membership_stmt_Inr:
  assumes "membership_stmt E v u now d = Inr (n, d')" and "n = 1"
  shows "d' = d \<and> (\<exists>cv c. v = JStr cv \<and> pg_uuid E cv = Some c \<and> member c u d)"
  using assms
  by (auto simp: membership_stmt_def with_uuid_json_def with_uuid_def uuid_param_def select_stmt_def member_filter
      split: json.splits option.splits) (metis One_nat_def list.size(3) member_filter zero_neq_one)

lemma run_membership:
  "run (case v of None \<Rightarrow> Return True
     | Some c \<Rightarrow> if truthy v then await (query (membership_stmt E c u)) (\<lambda>rowCount.
           if rowCount \<noteq> 1 then await (modify (close_socket i)) (\<lambda>_. Return False)
           else await (query (touch_member_stmt E c u)) (\<lambda>_. Return True)) else Return True) w = (Inr ok, w') \<Longrightarrow>
   clients w' = clients w \<and> (ok \<longrightarrow> truthy v \<longrightarrow> (\<exists>cv c. v = Some (JStr cv) \<and> pg_uuid E cv = Some c \<and> member c u (database w)))"
  by (cases v) (auto simp: runs run_await split: if_splits sum.splits prod.splits dest: membership_stmt_Inr)

text \<open>C24. A join admits a socket only for the account of a valid token, with a device, and, if a
  conversation is named, only for an active member of it; it registers exactly this socket
  under exactly this account and leaves every other registration alone.\<close>

theorem join_admits:
  assumes "run (handleJoin E i msg) w = (Inr (), w')" and "clients w' \<noteq> clients w"
  shows "\<exists>payload token u. json_prop ''payload'' (Some msg) = Some payload \<and>
    json_prop ''token'' (Some payload) = Some (JStr token) \<and> hex64 token \<and>
    auth_user (tokenHash E token) (clock w) (database w) = Some u \<and>
    truthy (json_prop ''deviceId'' (Some payload)) \<and>
    (truthy (json_prop ''conversationId'' (Some payload)) \<longrightarrow>
      (\<exists>cv c. json_prop ''conversationId'' (Some payload) = Some (JStr cv) \<and> pg_uuid E cv = Some c \<and>
        member c u (database w))) \<and>
    (\<exists>x. find_client i w' = Some x \<and> cl_user_id x = u) \<and>
    (\<forall>j. j \<noteq> i \<longrightarrow> find_client j w' = find_client j w)"
proof -
  from assms(1) obtain payload where payload: "json_prop ''payload'' (Some msg) = Some payload"
    by (auto simp: handleJoin_def runs)
  define user where "user = (case json_prop ''token'' (Some payload) of
      Some (JStr t) \<Rightarrow> if hex64 t then auth_user (tokenHash E t) (clock w) (database w) else None | _ \<Rightarrow> None)"
  let ?v = "json_prop ''conversationId'' (Some payload)"
  have auth: "run (authenticateToken E (json_prop ''token'' (Some payload))) w = (Inr user, w)"
    unfolding user_def by (rule run_authenticateToken)
  show ?thesis
  proof (cases user)
    case None
    with assms payload auth show ?thesis by (auto simp: handleJoin_def Let_def runs)
  next
    case (Some u)
    then obtain token where token: "json_prop ''token'' (Some payload) = Some (JStr token)" "hex64 token"
        "auth_user (tokenHash E token) (clock w) (database w) = Some u"
      unfolding user_def by (auto split: option.splits json.splits if_splits)
    from assms payload auth Some obtain ok w1 where device: "truthy (json_prop ''deviceId'' (Some payload))"
      and adm: "run (case ?v of None \<Rightarrow> Return True
        | Some c \<Rightarrow> if truthy ?v then await (query (membership_stmt E c u)) (\<lambda>rowCount.
              if rowCount \<noteq> 1 then await (modify (close_socket i)) (\<lambda>_. Return False)
              else await (query (touch_member_stmt E c u)) (\<lambda>_. Return True)) else Return True) w = (Inr ok, w1)"
      and rest: "run (if \<not> ok then Return () else modify (register_client
          \<lparr>cl_id = i, cl_user_id = u, cl_device_id = the (json_prop ''deviceId'' (Some payload)),
           cl_conversation_id = ?v, cl_last_ping = 0,
           cl_session_token = json_prop ''token'' (Some payload)\<rparr>)) w1 = (Inr (), w')"
      by (auto simp: handleJoin_def Let_def runs split: if_splits)
    from run_membership [OF adm] have same: "clients w1 = clients w" by simp
    with rest assms(2) have ok: ok by (cases ok) auto
    from same have "find_client j w1 = find_client j w" for j by (simp add: find_client_def)
    with run_membership [OF adm] ok rest payload token device show ?thesis
      by (auto simp: find_register)
  qed
qed


theorem join_admits_witness:
  "\<exists>x. find_client ''r'' (snd (run (handleJoin sample_externals ''r'' join_json) sample_world)) = Some x \<and>
     cl_user_id x = uuid (CHR ''a'')"
proof -
  let ?r = "run (handleJoin sample_externals ''r'' join_json) sample_world"
  have ran: "fst ?r = Inr ()" "map cl_user_id (clients (snd ?r)) = [uuid (CHR ''a'')]"
    and user: "auth_user (tokenHash sample_externals sample_token) (clock sample_world) (database sample_world) = Some (uuid (CHR ''a''))"
    by code_simp+
  have "?r = (Inr (), snd ?r)" using ran(1) by (simp add: prod_eq_iff)
  moreover have "clients (snd ?r) \<noteq> clients sample_world" using ran(2) by (auto simp: sample_world_def)
  ultimately show ?thesis
    using join_admits [of sample_externals "''r''" join_json sample_world "snd ?r"] user
    by (auto simp: join_json_def)
qed

section \<open>Dropping clients\<close>

definition stale :: "world \<Rightarrow> client \<Rightarrow> bool" where
  "stale w c \<longleftrightarrow> 60000 < date_now w - cl_last_ping c"

lemma clients_disconnect: "clients (handleDisconnect i w) = filter (\<lambda>x. cl_id x \<noteq> i) (clients w)"
proof (cases "find_client i w")
  case None
  then have "\<forall>x \<in> set (clients w). cl_id x \<noteq> i" by (auto simp: find_client_def find_None_iff)
  with None show ?thesis by (simp add: handleDisconnect_def filter_True)
qed (simp add: handleDisconnect_def delete_where_def)

lemma disconnect_frame [simp]:
  "open_sockets (handleDisconnect i w) = open_sockets w" "frames (handleDisconnect i w) = frames w"
  "clock (handleDisconnect i w) = clock w"
  by (simp_all add: handleDisconnect_def split: option.split)

text \<open>The clean-up drops exactly the clients that were silent for more than a minute and
  closes exactly their sockets; it sends nothing, touches no data and leaves the registry
  consistent.\<close>

lemma cleanup_exact:
  assumes "registry_ok w"
  shows "let w' = cleanupStaleClients w in
    clients w' = filter (\<lambda>c. \<not> stale w c) (clients w) \<and>
    open_sockets w' = filter (\<lambda>i. \<not> (\<exists>c \<in> set (clients w). stale w c \<and> cl_id c = i)) (open_sockets w) \<and>
    frames w' = frames w \<and> database w' = database w \<and> registry_ok w'"
proof -
  have "clients (fold cleanup_one cs v) = filter (\<lambda>x. \<not> (\<exists>c \<in> set cs. stale w c \<and> cl_id c = cl_id x)) (clients v) \<and>
      open_sockets (fold cleanup_one cs v) = filter (\<lambda>i. \<not> (\<exists>c \<in> set cs. stale w c \<and> cl_id c = i)) (open_sockets v) \<and>
      frames (fold cleanup_one cs v) = frames v"
    if "clock v = clock w" for cs v
    using that
  proof (induction cs arbitrary: v)
    case (Cons c cs)
    have "clock (cleanup_one c v) = clock w"
      using Cons.prems by (simp add: cleanup_one_def close_socket_def)
    from Cons.IH [OF this] Cons.prems show ?case
      by (auto simp: cleanup_one_def clients_disconnect close_socket_def stale_def date_now_def
          removeAll_filter_not_eq intro!: filter_cong)
  qed simp
  moreover have "(\<exists>c \<in> set (clients w). stale w c \<and> cl_id c = cl_id x) = stale w x" if "x \<in> set (clients w)" for x
    using assms that by (auto simp: registry_ok_def distinct_map dest: inj_onD)
  then have "filter (\<lambda>x. \<not> (\<exists>c \<in> set (clients w). stale w c \<and> cl_id c = cl_id x)) (clients w) =
      filter (\<lambda>c. \<not> stale w c) (clients w)"
    by (intro filter_cong) simp_all
  ultimately show ?thesis
    using registry_cleanup [OF assms] by (simp add: Let_def) (simp add: cleanupStaleClients_def)
qed

lemma cleanup_exact_witness:
  "clients (cleanupStaleClients (sample_online\<lparr>clock := 60001000\<rparr>)) = []"
proof -
  have ok: "registry_ok (sample_online\<lparr>clock := 60001000\<rparr>)" by (simp add: sample_online_ok)
  have "clients sample_online = [sample_client (CHR ''r'') (CHR ''a''), sample_client (CHR ''s'') (CHR ''b'')]"
    by code_simp
  then show ?thesis
    using cleanup_exact [OF ok] by (simp add: Let_def stale_def date_now_def sample_client_def)
qed

text \<open>A heartbeat tick pings a client that answered within the last thirty seconds and changes
  no registration; otherwise it is the last tick and the client is dropped, while its socket
  stays open.\<close>

lemma heartbeat_exact:
  assumes "find_client i w = Some c"
  shows "let (again, w') = heartbeat i w in
    again = (date_now w - cl_last_ping c \<le> 30000) \<and> open_sockets w' = open_sockets w \<and>
    find_client i w' = (if again then Some c else None) \<and>
    frames w' = frames w @ (if again \<and> i \<in> set (open_sockets w)
                            then [(i, server_signal ''ping'' (JObj []) w)] else [])"
  using assms
  by (auto simp: heartbeat_def find_disconnect Let_def send_def) (simp add: find_client_def)

lemma heartbeat_exact_witness:
  "fst (heartbeat ''r'' sample_online) \<and> \<not> fst (heartbeat ''r'' (sample_online\<lparr>clock := 30001000\<rparr>))"
proof -
  have "find_client ''r'' (sample_online\<lparr>clock := 30001000\<rparr>) = Some (sample_client (CHR ''r'') (CHR ''a''))"
    using sample_online_clients(1) by (simp add: find_client_def)
  moreover have "clock sample_online = 10" by code_simp
  ultimately show ?thesis
    using heartbeat_exact [OF sample_online_clients(1)] heartbeat_exact [of "''r''" "sample_online\<lparr>clock := 30001000\<rparr>"]
    by (auto simp: Let_def case_prod_beta date_now_def sample_client_def)
qed

text \<open>A connection that has not joined when its heartbeat first ticks is never watched again:
  whatever happens afterwards, joining included, no further tick pings it or drops it.\<close>

lemma late_joiner_unwatched:
  assumes "i \<in> set (connections w)" and "find_client i w = None"
    and "server_reaches E order fcm (ping_interval i w) w' ps"
  shows "ping_interval i w' = w'"
proof -
  have "i \<notin> set (ping_intervals (ping_interval i w))"
    using assms(2) intervals_heartbeat [of i w] by (auto simp: ping_interval_def heartbeat_def)
  moreover have "connections (ping_interval i w) = connections w"
    using assms(2) by (simp add: ping_interval_def heartbeat_def)
  ultimately have "i \<notin> set (ping_intervals w')"
    using intervals.reached_state [OF assms(3)] assms(1) by (auto simp: intervals_step_def)
  then show ?thesis by (simp add: ping_interval_def)
qed

definition late_run :: "(exn + response option) \<times> world" where
  "late_run = run (await (on_message sample_externals ''r'' (Some join_json)) (\<lambda>_. Return None))
     (ping_interval ''r'' (on_connection ''r'' sample_world))"

lemma late_joiner_unwatched_witness:
  "map cl_id (clients (snd late_run)) = [''r''] \<and> ping_interval ''r'' (snd late_run) = snd late_run"
proof -
  have "server_reaches sample_externals id (\<lambda>_. None) (ping_interval ''r'' (on_connection ''r'' sample_world))
      (snd late_run) [settled (fst late_run)]"
    unfolding late_run_def by (intro run_reaches a_message)
  then have "ping_interval ''r'' (snd late_run) = snd late_run"
    by (rule late_joiner_unwatched [rotated 2]) (simp_all add: on_connection_def find_client_def sample_world_def)
  moreover have "map cl_id (clients (snd late_run)) = [''r'']" by code_simp
  ultimately show ?thesis by (rule conjI [rotated])
qed

section \<open>A join that outlives its socket\<close>

text \<open>The first actions of a program, and the program that is left.\<close>

fun advance :: "nat \<Rightarrow> ('s, 'e, 'a) prog \<Rightarrow> 's \<Rightarrow> ('s, 'e, 'a) prog \<times> 's" where
  "advance 0 p s = (p, s)"
| "advance (Suc n) p s = (case p of Act f \<Rightarrow> advance n (fst (f s)) (snd (f s)) | _ \<Rightarrow> (p, s))"

lemma advance_steps: "advance n p s = (q, t) \<Longrightarrow> pool_steps env progs (s, [p]) (t, [q])"
proof (induction n arbitrary: p s)
  case (Suc n)
  show ?case
  proof (cases p)
    case (Act f)
    have "pool_step env progs (s, [Act f]) (snd (f s), [Act f][0 := fst (f s)])"
      by (rule pool_act) simp_all
    with Suc Act show ?thesis by (simp add: converse_rtranclp_into_rtranclp)
  qed (use Suc.prems in simp_all)
qed simp

text \<open>The socket closes after the membership was checked and before the client is registered.\<close>

definition interrupted_join :: "(world, exn, response option) prog \<times> world" where
  "interrupted_join = advance 3 (await (on_message sample_externals ''r'' (Some join_json)) (\<lambda>_. Return None))
     (on_connection ''r'' sample_world)"

definition ghost_run :: "(exn + response option) \<times> world" where
  "ghost_run = (case interrupted_join of (p, w) \<Rightarrow> run p (on_close ''r'' w))"

lemma ghost_reached: "server_reaches sample_externals id (\<lambda>_. None) (on_connection ''r'' sample_world)
    (snd ghost_run) [settled (fst ghost_run)]"
proof -
  let ?p = "await (on_message sample_externals ''r'' (Some join_json)) (\<lambda>_. Return None)"
  let ?progs = "server_prog sample_externals id (\<lambda>_. None)"
  let ?w = "on_connection ''r'' sample_world"
  have "pool_steps environment ?progs (?w, []) (?w, [?p])"
    using pool_start [where progs = ?progs and p = ?p and s = ?w and ps = "[]"] by (auto intro: a_message)
  also have "pool_steps environment ?progs (?w, [?p]) (snd interrupted_join, [fst interrupted_join])"
    by (rule advance_steps) (simp add: interrupted_join_def)
  also have "pool_steps environment ?progs (snd interrupted_join, [fst interrupted_join])
      (on_close ''r'' (snd interrupted_join), [fst interrupted_join])"
    by (rule r_into_rtranclp) (rule pool_env, rule socket_closes)
  also have "pool_steps environment ?progs (on_close ''r'' (snd interrupted_join), [fst interrupted_join])
      (snd ghost_run, [settled (fst ghost_run)])"
    unfolding ghost_run_def case_prod_beta by (rule run_pool_steps)
  finally show ?thesis by (simp add: server_reaches_def)
qed

definition registry_view :: "world \<Rightarrow> string list \<times> string list \<times> string list \<times> string list" where
  "registry_view w = (map cl_id (clients w), getConnectedUsers w, open_sockets w, ping_intervals w)"

lemma ghost_state: "registry_view (snd ghost_run) = ([''r''], [uuid (CHR ''a'')], [], [])"
  by code_simp


end
