(* ===== verification/Sessions.thy ===== *)
theory Sessions
  imports Messaging
begin

text \<open>
  The session and credential functions as a whole: the table of sessions refines a map from
  tokens to users with an expiry, and a credential verifies exactly against its own hash.
\<close>

section \<open>Sessions\<close>

text \<open>What happens to sessions: a token is issued to a user, or revoked.\<close>

datatype session_event = Issued timestamp bytes string | Revoked string

text \<open>The programs behind the events, run at their time.\<close>

fun session_trace :: "externals \<Rightarrow> session_event list \<Rightarrow> world \<Rightarrow> world option" where
  "session_trace E [] w = Some w"
| "session_trace E (Issued t rnd userId # es) w =
     (case run (issueSession E rnd userId) (w\<lparr>clock := t\<rparr>) of
        (Inl e, w') \<Rightarrow> None | (Inr token, w') \<Rightarrow> session_trace E es w')"
| "session_trace E (Revoked token # es) w =
     (case run (query (delete_session (tokenHash E token))) w of
        (Inl e, w') \<Rightarrow> None | (Inr r, w') \<Rightarrow> session_trace E es w')"

fun event_rows :: "externals \<Rightarrow> session_event \<Rightarrow> string \<times> string \<times> timestamp + string" where
  "event_rows E (Issued t rnd userId) = Inl (tokenHash E (to_hex rnd), userId, t)"
| "event_rows E (Revoked token) = Inr (tokenHash E token)"

lemma trace_history:
  "session_trace E es w = Some w' \<Longrightarrow> store.history (map (event_rows E) es) (database w) = Some (database w')"
proof (induction es arbitrary: w)
  case (Cons e es)
  show ?case
  proof (cases e)
    case (Issued t rnd u)
    with Cons show ?thesis
      by (auto simp: run_simps split: sum.splits prod.splits dest!: insert_session_stmt_Inr Cons.IH)
  next
    case (Revoked token)
    with Cons show ?thesis
      by (auto simp: run_simps delete_session_def exec_stmt_def revoke_row_def [symmetric] dest!: Cons.IH)
  qed
qed simp

lemma event_rows_Inl: "event_rows E e = Inl (h, u, t) \<Longrightarrow> \<exists>rnd. e = Issued t rnd u"
  by (cases e) auto

text \<open>C30. Sessions refine a map from token hashes to a user and an expiry: after any sequence of
  tokens issued to active accounts and revoked again, at any time, a presented token
  authenticates the account the map gives it, if the thirty days since it was issued are not
  over, and otherwise nobody.\<close>

theorem sessions_refine:
  assumes "keys_ok (database w)" and "auth_sessions (database w) = []"
    and "session_trace E es w = Some w'" and "\<And>t rnd u. Issued t rnd u \<in> set es \<Longrightarrow> active_user u (database w)"
  shows "run (authenticateToken E (Some (JStr token))) (w'\<lparr>clock := n\<rparr>) =
    (Inr (if hex64 token
          then session_at (session_map session_days (map (event_rows E) es) Map.empty) (tokenHash E token) n
          else None), w'\<lparr>clock := n\<rparr>)"
proof -
  have "auth_user h n (database w) = session_at Map.empty h n" for h n
    using assms(2) by (simp add: auth_user_def session_users_absent has_key_def first_user_def session_at_def)
  moreover have "active_user u (database w)" if "Inl (h, u, t) \<in> set (map (event_rows E) es)" for h u t
    using that assms(4) by (auto dest!: event_rows_Inl [OF sym])
  ultimately have "auth_user h n (database w') =
      session_at (session_map session_days (map (event_rows E) es) Map.empty) h n" for h
    using store.history_refines [OF assms(1) trace_history [OF assms(3)]] by blast
  then show ?thesis by (simp add: run_authenticateToken)
qed

theorem sessions_refine_witness:
  "\<exists>w'. session_trace sample_externals [Issued 5 (replicate 32 17) (uuid (CHR ''a'')), Revoked ''x'']
       (sample_world\<lparr>database := sample_db\<lparr>auth_sessions := []\<rparr>\<rparr>) = Some w' \<and>
     fst (run (authenticateToken sample_externals (Some (JStr (key_of (CHR ''1''))))) (w'\<lparr>clock := 6\<rparr>)) =
       Inr (Some (uuid (CHR ''a'')))"
proof -
  let ?es = "[Issued 5 (replicate 32 17) (uuid (CHR ''a'')), Revoked ''x'']"
  let ?w = "sample_world\<lparr>database := sample_db\<lparr>auth_sessions := []\<rparr>\<rparr>"
  have "session_trace sample_externals ?es ?w \<noteq> None" by code_simp
  then obtain w' where w': "session_trace sample_externals ?es ?w = Some w'" by blast
  have start: "keys_ok (database ?w)" "auth_sessions (database ?w) = []"
    and user: "active_user (uuid (CHR ''a'')) (database ?w)"
    and token: "hex64 (key_of (CHR ''1''))"
    and rows: "session_at (session_map session_days (map (event_rows sample_externals) ?es) Map.empty)
      (tokenHash sample_externals (key_of (CHR ''1''))) 6 = Some (uuid (CHR ''a''))"
    by code_simp+
  have "active_user u (database ?w)" if "Issued t rnd u \<in> set ?es" for t rnd u
    using that user by simp
  from sessions_refine [OF start w' this, where token = "key_of (CHR ''1'')" and n = 6] show ?thesis
    using w' token rows by (auto split: prod.split)
qed

section \<open>Credentials\<close>

text \<open>C31. A credential verifies against its own hash, a proof verifies against the hash of another
  exactly if the two agree under scrypt with the stored salt, and verification decides every
  stored text without throwing.\<close>

theorem credential_roundtrip:
  assumes "externals_ok E" and "rnd \<noteq> []"
  shows "verifyCredential E pf (hashCredential E rnd pf) = Inr True \<and>
    (verifyCredential E pf' (hashCredential E rnd pf) = Inr True \<longleftrightarrow>
      scrypt E pf' (to_hex rnd) 32 = scrypt E pf (to_hex rnd) 32) \<and>
    (\<exists>b. verifyCredential E pf stored = Inr b)"
  using verify_hash [OF assms] verify_total [OF assms(1)] by simp

theorem credential_roundtrip_witness:
  "verifyCredential sample_externals ''a'' (hashCredential sample_externals [0] ''a'') = Inr True \<and>
   verifyCredential sample_externals ''b'' (hashCredential sample_externals [0] ''a'') \<noteq> Inr True"
proof -
  have "scrypt sample_externals ''b'' (to_hex [0]) 32 \<noteq> scrypt sample_externals ''a'' (to_hex [0]) 32"
    by code_simp
  with credential_roundtrip [OF sample_externals_ok, of "[0]" "''a''" "''b''"] show ?thesis by simp
qed

end
