(* ===== verification/Paths.thy ===== *)
theory Paths
  imports Messaging
begin

text \<open>
  The onion service: which path is selected, what the health checks do to the cache and to
  the table, and what the simulated relay delivers.
\<close>

section \<open>A sample network\<close>

definition sample_row :: "char \<Rightarrow> char \<Rightarrow> int \<Rightarrow> int \<Rightarrow> onion_row" where
  "sample_row i r latency h =
     \<lparr>n_id = [i], n_address = [i], n_public_key = [], n_region = [r], n_latency_ms = latency, n_reliability = h,
      n_is_active = True, n_last_health_check = None\<rparr>"

definition sample_network :: db where
  "sample_network = empty_db\<lparr>onion_nodes := [sample_row (CHR ''a'') (CHR ''x'') 40 80,
     sample_row (CHR ''b'') (CHR ''x'') 10 95, sample_row (CHR ''c'') (CHR ''y'') 20 50,
     sample_row (CHR ''d'') (CHR ''z'') 5 99]\<rparr>"

definition sample_cache :: "onion_node list" where
  "sample_cache = loadNodes sample_network []"

lemma sample_cache_ids: "map on_id sample_cache = [''a'', ''b'', ''c'', ''d'']"
  by code_simp

section \<open>Path selection\<close>

text \<open>The reference: the first node of every region, in order.\<close>

fun first_of_each :: "('n \<Rightarrow> string) \<Rightarrow> 'n list \<Rightarrow> 'n list" where
  "first_of_each region [] = []"
| "first_of_each region (n # ns) = n # filter (\<lambda>x. region x \<noteq> region n) (first_of_each region ns)"

definition take_hops :: "int \<Rightarrow> 'n list \<Rightarrow> 'n list" where
  "take_hops h ns = (if h \<le> 0 then ns else take (nat h) ns)"

lemma first_of_each_filter:
  "first_of_each region (filter (\<lambda>x. region x \<notin> R) ns) = filter (\<lambda>x. region x \<notin> R) (first_of_each region ns)"
  by (induction ns) (auto simp: conj_commute intro!: filter_cong)

lemma pick_nodes_eq:
  assumes "0 < h \<Longrightarrow> length picked < nat h"
  shows "pick_nodes region h ex used picked ns = picked @
    take_hops (h - int (length picked)) (first_of_each region
      (filter (\<lambda>n. or_null ex \<noteq> Some (region n) \<and> region n \<notin> set used) ns))"
    (is "_ = picked @ take_hops _ (?rest used ns)")
  using assms
proof (induction ns arbitrary: used picked)
  case Nil
  then show ?case by (simp add: take_hops_def)
next
  case (Cons n ns)
  show ?case
  proof (cases "or_null ex = Some (region n) \<or> region n \<in> set used")
    case True
    with Cons show ?thesis by auto
  next
    case False
    let ?ok = "\<lambda>n. or_null ex \<noteq> Some (region n) \<and> region n \<notin> set used"
    have "filter (\<lambda>x. region x \<noteq> region n) (?rest used ns) = ?rest (region n # used) ns"
      using first_of_each_filter [of region "{region n}" "filter ?ok ns"]
      by (simp add: conj_ac)
    then have rest: "?rest used (n # ns) = n # ?rest (region n # used) ns" using False by simp
    show ?thesis
    proof (cases "int (length (picked @ [n])) = h")
      case True
      then have "h - int (length picked) = 1" by simp
      with True False show ?thesis by (simp add: rest take_hops_def Let_def del: filter.simps)
    next
      case next_hop: False
      then have "0 < h \<Longrightarrow> length (picked @ [n]) < nat h" using Cons.prems by auto
      from Cons.IH [OF this] have "pick_nodes region h ex used picked (n # ns) = picked @ n #
          take_hops (h - int (length (picked @ [n]))) (?rest (region n # used) ns)"
        using False next_hop by (simp add: Let_def)
      moreover have "nat (1 + int (length picked)) = Suc (length picked)" by linarith
      moreover from this have "n # take_hops (h - int (length (picked @ [n]))) xs = take_hops (h - int (length picked)) (n # xs)" for xs
        using Cons.prems next_hop by (auto simp: take_hops_def nat_diff_distrib Suc_diff_Suc take_Cons')
      ultimately show ?thesis by (simp only: rest)
    qed
  qed
qed

lemma pick_nodes_reference:
  "pick_nodes region h ex [] [] ns = take_hops h (first_of_each region (filter (\<lambda>n. or_null ex \<noteq> Some (region n)) ns))"
  using pick_nodes_eq [of h "[]" region ex "[]" ns] by simp

text \<open>The score of a row, where its reliability is positive.\<close>

definition score :: "onion_row \<Rightarrow> rat" where
  "score r = to_double (of_int (n_latency_ms r) / to_double (of_int (n_reliability r) / 100))"

lemma row_score: "0 < n_reliability r \<Longrightarrow> row_score r = Num (score r)"
proof -
  assume "0 < n_reliability r"
  then have "0 < to_double (of_int (n_reliability r) / 100)" by simp
  then have "to_double (of_int (n_reliability r) / 100) \<noteq> 0" by (rule less_imp_neq [symmetric])
  then show ?thesis by (simp add: row_score_def score_def)
qed



lemma first_of_each_region: "distinct (map region (first_of_each region ns))"
  by (induction ns) (auto simp: distinct_map_filter)

lemma first_of_each_set: "set (first_of_each region ns) \<subseteq> set ns"
  by (induction ns) auto

lemma first_of_each_regions: "region ` set (first_of_each region ns) = region ` set ns"
proof (induction ns)
  case (Cons n ns)
  have "region ` set (first_of_each region (n # ns)) = insert (region n) (region ` set (first_of_each region ns))"
    by auto
  with Cons show ?case by simp
qed simp

text \<open>No path visits a region twice or the excluded region, all its nodes are active, and it is
  as long as it can be: one node for every region available, up to the hops asked for.  This
  holds whatever the reliabilities and the random shuffle.\<close>

lemma path_regions:
  assumes "\<And>ns. mset (shuffle ns) = mset ns" and "0 < h"
  shows "let path = getOptimalPath shuffle h ex cache;
      regions = on_region ` {n \<in> set cache. on_is_active n \<and> or_null ex \<noteq> Some (on_region n)} in
    distinct (map on_region path) \<and> set path \<subseteq> {n \<in> set cache. on_is_active n \<and> or_null ex \<noteq> Some (on_region n)} \<and>
    length path = min (nat h) (card regions)"
proof -
  let ?sorted = "js_sort (\<lambda>a b. js_sub (node_score a) (node_score b)) (shuffle (filter on_is_active cache))"
  let ?firsts = "first_of_each on_region (filter (\<lambda>n. or_null ex \<noteq> Some (on_region n)) ?sorted)"
  have "set ?sorted = {n \<in> set cache. on_is_active n}"
    using mset_eq_setD [OF assms(1), of "filter on_is_active cache"] by simp
  then have set: "set (filter (\<lambda>n. or_null ex \<noteq> Some (on_region n)) ?sorted) =
      {n \<in> set cache. on_is_active n \<and> or_null ex \<noteq> Some (on_region n)}" by auto
  have path: "getOptimalPath shuffle h ex cache = take (nat h) ?firsts"
    using assms(2) by (simp add: getOptimalPath_def Let_def pick_nodes_reference take_hops_def)
  have "length ?firsts = card (on_region ` set ?firsts)"
    using distinct_card [OF first_of_each_region] by (metis length_map list.set_map)
  then have "length ?firsts = card (on_region ` {n \<in> set cache. on_is_active n \<and> or_null ex \<noteq> Some (on_region n)})"
    by (simp only: first_of_each_regions set)
  moreover have "set (take (nat h) ?firsts) \<subseteq> {n \<in> set cache. on_is_active n \<and> or_null ex \<noteq> Some (on_region n)}"
    using set_take_subset first_of_each_set unfolding set [symmetric] by fast
  moreover have "distinct (map on_region (take (nat h) ?firsts))"
    using distinct_take [OF first_of_each_region] by (simp add: take_map)
  ultimately show ?thesis by (simp add: Let_def path min.commute)
qed

lemma path_regions_witness:
  "distinct (map on_region (getOptimalPath rev 2 None sample_cache))"
  using path_regions [of rev 2 None sample_cache] by (simp add: Let_def)

section \<open>Health checks\<close>

definition checked_node :: "(string \<Rightarrow> int option) \<Rightarrow> onion_node \<Rightarrow> onion_node" where
  "checked_node probe n =
     (case probe (on_id n) of Some l \<Rightarrow> node_reachable l n | None \<Rightarrow> node_unreachable n)"

definition checked_row :: "(string \<Rightarrow> int option) \<Rightarrow> (string \<Rightarrow> timestamp) \<Rightarrow> onion_row \<Rightarrow> onion_row" where
  "checked_row probe now r =
     (case probe (n_id r) of Some l \<Rightarrow> row_reachable l (now (n_id r)) r | None \<Rightarrow> row_unreachable r)"

lemma checked_ids [simp]: "on_id (checked_node probe n) = on_id n" "n_id (checked_row probe now r) = n_id r"
  by (simp_all add: checked_node_def checked_row_def node_reachable_def node_unreachable_def Let_def
      row_reachable_def row_unreachable_def split: option.split)

lemma check_node_eq:
  "check_node probe now i (cache, d) =
     (map (\<lambda>n. if on_id n = i then checked_node probe n else n) cache,
      d\<lparr>onion_nodes := map (\<lambda>r. if n_id r = i then checked_row probe now r else r) (onion_nodes d)\<rparr>)"
  by (auto simp: check_node_def checked_node_def checked_row_def update_where_def split: option.split
      intro!: arg_cong [where f = "\<lambda>t. d\<lparr>onion_nodes := t\<rparr>"])

lemma healthCheckNodes_round:
  assumes "distinct (map on_id cache)"
  shows "healthCheckNodes probe now (cache, d) =
    (map (checked_node probe) cache,
     d\<lparr>onion_nodes := map (\<lambda>r. if n_id r \<in> on_id ` set cache then checked_row probe now r else r) (onion_nodes d)\<rparr>)"
proof -
  have "distinct ids \<Longrightarrow> fold (check_node probe now) ids (cs, d) =
      (map (\<lambda>n. if on_id n \<in> set ids then checked_node probe n else n) cs,
       d\<lparr>onion_nodes := map (\<lambda>r. if n_id r \<in> set ids then checked_row probe now r else r) (onion_nodes d)\<rparr>)"
    for ids cs and d :: db
  proof (induction ids arbitrary: cs d)
    case (Cons i ids)
    then show ?case by (auto simp: check_node_eq)
  qed simp
  from this [OF assms, of cache d] show ?thesis
    by (simp add: healthCheckNodes_def cong: map_cong)
qed

text \<open>A round of health checks, which goes through the cache one node after the other, updates
  every cached node and every row of a cached node once, by the result of its own probe, and
  no other row.\<close>

lemma health_round:
  assumes "distinct (map on_id cache)"
  shows "healthCheckNodes probe now (cache, d) =
    (map (checked_node probe) cache,
     d\<lparr>onion_nodes := map (\<lambda>r. if n_id r \<in> on_id ` set cache then checked_row probe now r else r) (onion_nodes d)\<rparr>)"
  by (rule healthCheckNodes_round [OF assms])

lemma health_round_witness:
  "map on_id (fst (healthCheckNodes (\<lambda>_. None) (\<lambda>_. 0) (sample_cache, sample_network))) = [''a'', ''b'', ''c'', ''d'']"
  using health_round [of sample_cache "\<lambda>_. None" "\<lambda>_. 0" sample_network] sample_cache_ids
  by (simp add: comp_def)

text \<open>Several rounds.\<close>

fun health_rounds ::
  "((string \<Rightarrow> int option) \<times> (string \<Rightarrow> timestamp)) list \<Rightarrow> onion_node list \<times> db \<Rightarrow> onion_node list \<times> db" where
  "health_rounds [] s = s"
| "health_rounds ((probe, now) # rs) s = health_rounds rs (healthCheckNodes probe now s)"

abbreviation node_after where
  "node_after rs n \<equiv> fold (\<lambda>(probe, now). checked_node probe) rs n"

abbreviation row_after where
  "row_after rs r \<equiv> fold (\<lambda>(probe, now). checked_row probe now) rs r"

lemma after_ids [simp]: "on_id (node_after rs n) = on_id n" "n_id (row_after rs r) = n_id r"
  by (induction rs arbitrary: n r) auto

lemma health_rounds_eq:
  assumes "distinct (map on_id cache)"
  shows "health_rounds rs (cache, d) =
    (map (node_after rs) cache,
     d\<lparr>onion_nodes := map (\<lambda>r. if n_id r \<in> on_id ` set cache then row_after rs r else r) (onion_nodes d)\<rparr>)"
  using assms
proof (induction rs arbitrary: cache d)
  case (Cons x rs)
  obtain probe now where x: "x = (probe, now)" by (cases x)
  have ids: "map on_id (map (checked_node probe) cache) = map on_id cache" by simp
  then have "distinct (map on_id (map (checked_node probe) cache))" using Cons.prems by (simp only: ids)
  from Cons.IH [OF this] show ?case
    using arg_cong [OF ids, of set]
    by (simp add: x healthCheckNodes_round [OF Cons.prems] image_image)
qed (simp cong: if_cong)

definition reliability_ok :: "onion_row \<Rightarrow> bool" where
  "reliability_ok r \<longleftrightarrow> 50 \<le> n_reliability r \<and> n_reliability r \<le> 99"

lemma row_after_ok: "reliability_ok r \<Longrightarrow> reliability_ok (row_after rs r)"
proof (induction rs arbitrary: r)
  case (Cons x rs)
  moreover have "reliability_ok (checked_row probe now r)" for probe now
    using Cons.prems by (auto simp: reliability_ok_def checked_row_def row_reachable_def row_unreachable_def
        split: option.split)
  ultimately show ?case by (cases x) simp
qed simp

text \<open>In the table the reliability of a node never leaves the range from 0.50 to 0.99, whatever
  the probes find.\<close>

lemma reliability_bounded:
  assumes "distinct (map on_id cache)" and "list_all reliability_ok (onion_nodes d)"
  shows "list_all reliability_ok (onion_nodes (snd (health_rounds rs (cache, d))))"
  using assms by (auto simp: health_rounds_eq list_all_iff row_after_ok)

lemma sample_network_ok: "list_all reliability_ok (onion_nodes sample_network)"
  by code_simp

lemma sample_cache_distinct: "distinct (map on_id sample_cache)"
  by (simp add: sample_cache_ids)

lemma reliability_bounded_witness:
  "list_all reliability_ok (onion_nodes (snd (health_rounds (replicate 3 (\<lambda>_. None, \<lambda>_. 0)) (sample_cache, sample_network))))"
  by (rule reliability_bounded [OF sample_cache_distinct sample_network_ok])

lemma row_after_failures:
  assumes "\<And>probe now. (probe, now) \<in> set rs \<Longrightarrow> probe (n_id r) = None" and "n_reliability r \<le> 99"
  shows "n_reliability (row_after rs r) \<le> max (99 - 5 * int (length rs)) 50 \<and>
    (9 \<le> length rs \<longrightarrow> \<not> n_is_active (row_after rs r))"
  using assms
proof (induction rs rule: rev_induct)
  case (snoc x rs)
  obtain probe now where x: "x = (probe, now)" by (cases x)
  have "probe (n_id r) = None" using snoc.prems(1) [of probe now] by (simp add: x)
  then have "checked_row probe now (row_after rs r) = row_unreachable (row_after rs r)"
    by (simp add: checked_row_def)
  moreover have "n_reliability (row_after rs r) \<le> max (99 - 5 * int (length rs)) 50 \<and>
      (9 \<le> length rs \<longrightarrow> \<not> n_is_active (row_after rs r))"
    using snoc by auto
  ultimately show ?case by (auto simp: x row_unreachable_def)
qed simp

text \<open>In the table a node that fails nine checks in a row is inactive, whatever its history.\<close>

lemma failing_row_deactivated:
  assumes "distinct (map on_id cache)" and "list_all reliability_ok (onion_nodes d)" and "i \<in> on_id ` set cache"
    and "\<And>probe now. (probe, now) \<in> set rs \<Longrightarrow> probe i = None" and "9 \<le> length rs"
  shows "list_all (\<lambda>r. n_id r = i \<longrightarrow> \<not> n_is_active r) (onion_nodes (snd (health_rounds rs (cache, d))))"
  using assms row_after_failures [of rs]
  by (auto simp: health_rounds_eq list_all_iff reliability_ok_def)

lemma failing_row_deactivated_witness:
  "list_all (\<lambda>r. n_id r = ''a'' \<longrightarrow> \<not> n_is_active r)
     (onion_nodes (snd (health_rounds (replicate 9 (\<lambda>_. None, \<lambda>_. 0)) (sample_cache, sample_network))))"
proof (rule failing_row_deactivated [OF sample_cache_distinct sample_network_ok])
  show "''a'' \<in> on_id ` set sample_cache" using arg_cong [OF sample_cache_ids, of set] by auto
qed auto

lemma node_after_NaN:
  "on_reliability n = Number NaN \<Longrightarrow>
   on_reliability (node_after rs n) = Number NaN \<and> on_is_active (node_after rs n) = on_is_active n"
proof (induction rs arbitrary: n)
  case (Cons x rs)
  have "on_reliability (checked_node probe n) = Number NaN \<and> on_is_active (checked_node probe n) = on_is_active n" for probe
    using Cons.prems
    by (auto simp: checked_node_def node_reachable_def node_unreachable_def Let_def js_min_def
        lower_reliability_def js_max_def js_sub_def below_threshold_def split: option.split)
  with Cons.IH show ?case by (cases x) simp
qed simp

text \<open>The cache does not follow the table: once a check of a freshly loaded node has succeeded,
  its cached reliability is \<open>NaN\<close> and no number of failures makes the cached node inactive.\<close>

lemma cache_never_deactivates:
  assumes "distinct (map on_id cache)" and "n \<in> set cache" and "on_reliability n = DecimalText h"
    and "on_is_active n" and "probe (on_id n) = Some l"
  shows "\<exists>n' \<in> set (fst (health_rounds ((probe, now) # rs) (cache, d))).
    on_id n' = on_id n \<and> on_is_active n' \<and> on_reliability n' = Number NaN"
proof -
  have "on_reliability (checked_node probe n) = Number NaN" "on_is_active (checked_node probe n)"
    using assms(3-5) by (simp_all add: checked_node_def node_reachable_def)
  from node_after_NaN [OF this(1), of rs] this(2)
  have "on_is_active (node_after ((probe, now) # rs) n)" "on_reliability (node_after ((probe, now) # rs) n) = Number NaN"
    by simp_all
  with assms(2) show ?thesis
    unfolding health_rounds_eq [OF assms(1)] by (auto intro!: bexI [of _ n])
qed

lemma cache_never_deactivates_witness:
  "\<exists>n' \<in> set (fst (health_rounds ((\<lambda>_. Some 30, \<lambda>_. 0) # replicate 9 (\<lambda>_. None, \<lambda>_. 0)) (sample_cache, sample_network))).
     on_id n' = ''a'' \<and> on_is_active n'"
proof -
  let ?n = "node_of_row (sample_row (CHR ''a'') (CHR ''x'') 40 80)"
  have "hd sample_cache = ?n" by code_simp
  then have "?n \<in> set sample_cache"
    using sample_cache_ids by (metis hd_in_set list.simps(8) list.distinct(1))
  from cache_never_deactivates [OF sample_cache_distinct this, of 80 "\<lambda>_. Some 30" 30 "\<lambda>_. 0"
      "replicate 9 (\<lambda>_. None, \<lambda>_. 0)" sample_network] show ?thesis
    by (auto simp: node_of_row_def sample_row_def)
qed

section \<open>The relay\<close>

definition sample_packet :: onion_packet where
  "sample_packet = \<lparr>pk_packet_id = ''p'', pk_payload = [1, 2], pk_layers_remaining = 2, pk_route_path = [''a'', ''b''],
     pk_circuit_id = ''q'', pk_ttl_seconds = 60\<rparr>"

fun innermost :: "relay_reply \<Rightarrow> relay_reply" where
  "innermost (Nested r) = innermost r"
| "innermost r = r"

lemma relay_chain_Suc:
  "relay_chain (Suc fuel) cache p next =
     (case handleRelay cache p next of Answer r \<Rightarrow> Some r
      | Forward address q next' \<Rightarrow> map_option Nested (relay_chain fuel cache (Some q) next'))"
  by simp

text \<open>The simulated relay delivers nothing: every answer that comes back to the sender of a
  packet is an error, however many relays forward it.\<close>

lemma relay_never_delivers:
  assumes "relay_chain fuel cache packet next = Some r"
  shows "\<exists>e. innermost r = RelayError e"
  using assms
proof (induction fuel arbitrary: packet "next" r)
  case (Suc fuel)
  then show ?case
    by (auto simp: handleRelay_def split: relay_action.splits option.splits prod.splits if_splits)
qed simp

lemma relay_never_delivers_witness:
  "\<exists>r e. relay_chain 1 sample_cache (Some sample_packet) (Some ''q'') = Some r \<and> innermost r = RelayError e"
proof -
  have "relay_chain 1 sample_cache (Some sample_packet) (Some ''q'') \<noteq> None" by code_simp
  then obtain r where "relay_chain 1 sample_cache (Some sample_packet) (Some ''q'') = Some r" by blast
  with relay_never_delivers [OF this] show ?thesis by blast
qed



lemma wrapMessage_eq: "wrapMessage nonces m = concat (rev nonces) @ m"
  by (induction nonces arbitrary: m) auto

lemma unwrap_layers:
  "fold (\<lambda>k p. unwrapLayer p k) keys p =
     p\<lparr>pk_layers_remaining := pk_layers_remaining p - int (length keys),
       pk_route_path := drop (length keys) (pk_route_path p)\<rparr>"
  by (induction keys arbitrary: p) (simp_all add: unwrapLayer_def drop_drop [symmetric] drop_Suc)

text \<open>Wrapping hides nothing and unwrapping does not undo it: after all layers are unwrapped the
  payload is still the wrapped text, twelve bytes longer for every hop, with the message in
  the clear behind them.\<close>

lemma wrap_unwrap:
  assumes "list_all (\<lambda>nonce. length nonce = 12) nonces"
  shows "let p' = fold (\<lambda>k p. unwrapLayer p k) keys (p\<lparr>pk_payload := wrapMessage nonces m\<rparr>) in
    pk_payload p' = wrapMessage nonces m \<and> length (pk_payload p') = 12 * length nonces + length m \<and>
    drop (12 * length nonces) (pk_payload p') = m \<and>
    pk_layers_remaining p' = pk_layers_remaining p - int (length keys) \<and>
    pk_route_path p' = drop (length keys) (pk_route_path p)"
proof -
  have "length (concat (rev nonces)) = 12 * length nonces"
    using assms by (induction nonces) auto
  then show ?thesis by (simp add: Let_def unwrap_layers wrapMessage_eq)
qed

lemma wrap_unwrap_witness:
  "pk_payload (fold (\<lambda>k p. unwrapLayer p k) [''k'', ''l'']
     (sample_packet\<lparr>pk_payload := wrapMessage [replicate 12 7, replicate 12 8] [1]\<rparr>)) \<noteq> [1]"
  using wrap_unwrap [of "[replicate 12 7, replicate 12 8]", where keys = "[''k'', ''l'']" and p = sample_packet and m = "[1]"]
  by (auto simp: Let_def)

end
