(* ===== verification/Relay.thy ===== *)
theory Relay
  imports Paths
begin

text \<open>
  The relay service of \<open>onion-relay.ts\<close> as it runs: its start, the messages of its connections
  with all that can come back from the next relay, and the checks of its nodes beside a
  database that others change.  \<open>index.ts\<close> does not start it.
\<close>

section \<open>Messages\<close>

text \<open>What the next relay does with a forwarded packet: it cannot be reached or reports an error or
  stays silent, it answers, or it answers with something that is not JSON.\<close>

datatype hop_result =
  HopError string
| HopAnswer relay_reply
| HopGarbage

text \<open>An exception in the callback of a socket is not caught by the handler and ends the process.\<close>

datatype relay_effect =
  Sent relay_reply
| Silent
| Crashed

definition relay_hop :: "hop_result \<Rightarrow> relay_effect" where
  "relay_hop result =
     (case result of
        HopError e \<Rightarrow> Sent (RelayError e)
      | HopAnswer response \<Rightarrow> Sent (Nested response)
      | HopGarbage \<Rightarrow> Crashed)"

text \<open>\<open>hop\<close> is the network: what a relay at an address does with a message.\<close>

definition relay_message_effect ::
  "(string \<Rightarrow> relay_message \<Rightarrow> hop_result) \<Rightarrow> onion_node list \<Rightarrow> relay_message option \<Rightarrow> relay_effect" where
  "relay_message_effect hop cache data =
     (case on_relay_data cache data of
        None \<Rightarrow> Silent
      | Some (Answer r) \<Rightarrow> Sent r
      | Some (Forward address packet next) \<Rightarrow> relay_hop (hop address (Relay (Some packet) next)))"

section \<open>The service\<close>

record relay_service =
  rl_cache :: "onion_node list"
  rl_database :: db
  rl_listening :: bool

text \<open>The nodes are loaded before the service listens; the timer of the health checks is set once.\<close>

definition startOnionRelayServer :: "db \<Rightarrow> relay_service" where
  "startOnionRelayServer d = \<lparr>rl_cache = loadNodes d [], rl_database = d, rl_listening = True\<rparr>"

text \<open>Rounds of health checks may overlap, since the timer does not wait for the last one: any node
  may be checked at any time.  Others change the database.\<close>

inductive relay_event :: "relay_service \<Rightarrow> relay_service \<Rightarrow> bool" where
  node_checked: "i \<in> on_id ` set (rl_cache s) \<Longrightarrow>
     check_node probe now i (rl_cache s, rl_database s) = (cache, d) \<Longrightarrow>
     relay_event s (s\<lparr>rl_cache := cache, rl_database := d\<rparr>)"
| database_changes: "relay_event s (s\<lparr>rl_database := d\<rparr>)"

inductive_cases relay_eventE: "relay_event s t"

section \<open>Every message is answered\<close>

lemma unanswered_iff:
  "relay_message_effect hop cache data = Silent \<longleftrightarrow> data = None \<or> data = Some OtherMessage"
  by (cases data) (auto simp: relay_message_effect_def on_relay_data_def handleRelayMessage_def relay_hop_def
      split: option.splits relay_message.splits relay_action.splits hop_result.splits)

text \<open>One peer that answers with something else than JSON ends the service.\<close>

lemma crashed_iff:
  "relay_message_effect hop cache data = Crashed \<longleftrightarrow>
     (\<exists>p next node. data = Some (Relay (Some p) (Some (on_id node))) \<and> on_id node \<noteq> [] \<and>
        find (\<lambda>n. on_id n = on_id node) cache = Some node \<and> on_is_active node \<and>
        hop (on_address node) (Relay (Some p) (route_at 1 p)) = HopGarbage)"
proof
  assume "relay_message_effect hop cache data = Crashed"
  then obtain address p "next" where forward: "on_relay_data cache data = Some (Forward address p next)"
    and garbage: "hop address (Relay (Some p) next) = HopGarbage"
    by (auto simp: relay_message_effect_def relay_hop_def split: option.splits relay_action.splits hop_result.splits)
  from forward obtain i node where "data = Some (Relay (Some p) (Some i))" "i \<noteq> []"
    "find (\<lambda>n. on_id n = i) cache = Some node" "on_is_active node" "address = on_address node" "next = route_at 1 p"
    by (auto simp: on_relay_data_def handleRelayMessage_def handleRelay_def or_null_def
        split: bind_splits relay_message.splits option.splits if_splits)
  moreover from this(3) have "on_id node = i" by (auto simp: find_Some_iff)
  ultimately show "\<exists>p next node. data = Some (Relay (Some p) (Some (on_id node))) \<and> on_id node \<noteq> [] \<and>
      find (\<lambda>n. on_id n = on_id node) cache = Some node \<and> on_is_active node \<and>
      hop (on_address node) (Relay (Some p) (route_at 1 p)) = HopGarbage" using garbage by auto
qed (auto simp: relay_message_effect_def on_relay_data_def handleRelayMessage_def handleRelay_def or_null_def relay_hop_def)

section \<open>The nodes of a service\<close>

text \<open>What a check leaves of a node.\<close>

definition same_node :: "onion_node \<Rightarrow> onion_node \<Rightarrow> bool" where
  "same_node n n' \<longleftrightarrow> on_id n' = on_id n \<and> on_address n' = on_address n \<and> on_public_key n' = on_public_key n \<and>
     on_region n' = on_region n \<and> (on_is_active n' \<longrightarrow> on_is_active n)"

lemma same_node_refl: "same_node n n"
  by (simp add: same_node_def)

lemma same_node_trans: "same_node n n' \<Longrightarrow> same_node n' n'' \<Longrightarrow> same_node n n''"
  by (simp add: same_node_def)

lemma same_node_checked: "same_node n (checked_node probe n)"
  by (simp add: same_node_def checked_node_def node_reachable_def node_unreachable_def Let_def split: option.split)

lemma relay_event_nodes:
  assumes "relay_event s t"
  shows "list_all2 same_node (rl_cache s) (rl_cache t) \<and> rl_listening t = rl_listening s"
  using assms
  by cases (auto simp: check_node_eq list_all2_map2 intro!: list_all2_refl list.rel_refl_strong
      intro: same_node_checked same_node_refl)

text \<open>The service keeps the nodes it found active when it started, under the addresses they had: no
  later change of the table adds, moves or revives one.\<close>

lemma service_nodes:
  assumes "relay_event\<^sup>*\<^sup>* (startOnionRelayServer d) s"
  shows "list_all2 same_node (loadNodes d []) (rl_cache s) \<and> rl_listening s"
  using assms
proof (induction rule: rtranclp_induct)
  case base
  show ?case by (simp add: startOnionRelayServer_def list.rel_refl_strong same_node_refl)
next
  case (step s t)
  with relay_event_nodes [OF step(2)] show ?case
    by (auto elim: list_all2_trans [rotated] intro: same_node_trans)
qed

end
