(* ===== verification/Accounts.thy ===== *)
theory Accounts
  imports Messaging
begin

text \<open>
  Settings, linked devices and notifications: the exact effect of each request.
\<close>

section \<open>Settings\<close>

definition settings_given :: "settings_data \<Rightarrow> bool" where
  "settings_given data \<longleftrightarrow> st_biometricEnabled data \<noteq> None \<or> or_null (st_pin data) \<noteq> None \<or> or_null (st_panicPin data) \<noteq> None"

definition with_settings :: "externals \<Rightarrow> settings_data \<Rightarrow> timestamp \<Rightarrow> user \<Rightarrow> user" where
  "with_settings E data now u =
     u\<lparr>u_biometric_enabled := (case st_biometricEnabled data of None \<Rightarrow> u_biometric_enabled u | Some b \<Rightarrow> b),
       u_pin_hash := (case or_null (st_pin data) of None \<Rightarrow> u_pin_hash u | Some p \<Rightarrow> Some (to_hex (sha256 E p))),
       u_panic_pin_hash := (case or_null (st_panicPin data) of None \<Rightarrow> u_panic_pin_hash u | Some p \<Rightarrow> Some (to_hex (sha256 E p))),
       u_updated_at := now\<rparr>"



section \<open>Notifications\<close>

text \<open>A notification never fails its caller and changes nothing but device tokens: where Firebase
  answers, exactly the account's tokens reported as not registered are cleared, all others
  of every account stay, and the result says whether a token was reached.\<close>

lemma notification_exact:
  "let tokens = user_tokens (pj_user_id job) (database w);
       sent = (if push_ready w \<and> tokens \<noteq> []
         then fcm \<lparr>fm_tokens = tokens, fm_title = pj_title job, fm_body = pj_body job, fm_data = pj_data job\<rparr> else None);
       gone = (case sent of None \<Rightarrow> [] | Some rs \<Rightarrow> failed_tokens rs tokens);
       (res, w') = run (sendPushNotification fcm job) w in
    res = Inr (\<exists>rs. sent = Some rs \<and> Delivered \<in> set rs) \<and>
    w' = w\<lparr>database := (database w)\<lparr>devices := devices (database w')\<rparr>\<rparr> \<and>
    user_tokens v (database w') =
      (if v = pj_user_id job then filter (\<lambda>t. t \<notin> set gone) (user_tokens v (database w)) else user_tokens v (database w))"
proof -
  have unchanged: "clear_tokens u [] d = d" for u and d :: db
    by (simp add: clear_tokens_def update_where_none split: option.split)
  have some: "0 < success_count rs \<longleftrightarrow> Delivered \<in> set rs" for rs
    by (auto simp: success_count_def filter_empty_conv)
  have devices: "clear_tokens u ts d = d\<lparr>devices := devices (clear_tokens u ts d)\<rparr>" for u ts and d :: db
    by (simp add: clear_tokens_def)
  let ?u = "pj_user_id job" and ?tokens = "user_tokens (pj_user_id job) (database w)"
  show ?thesis
  proof (cases "push_ready w \<and> ?tokens \<noteq> []")
    case False
    then show ?thesis
      by (auto simp: sendPushNotification_def run_simps getUserFCMTokens_def select_stmt_def)
  next
    case True
    let ?msg = "\<lparr>fm_tokens = ?tokens, fm_title = pj_title job, fm_body = pj_body job, fm_data = pj_data job\<rparr>"
    show ?thesis
    proof (cases "fcm ?msg")
      case None
      with True show ?thesis
        by (simp add: sendPushNotification_def run_simps getUserFCMTokens_def select_stmt_def)
    next
      case (Some rs)
      have "failed_tokens rs ?tokens = []" if "failure_count rs = 0"
      proof -
        from that have "r = Delivered" if "r \<in> set rs" for r
          using that by (auto simp: failure_count_def filter_empty_conv)
        then show ?thesis by (auto simp: failed_tokens_def filter_empty_conv dest!: set_zip_leftD)
      qed
      then have "run (sendPushNotification fcm job) w = (Inr (Delivered \<in> set rs),
          w\<lparr>database := clear_tokens ?u (failed_tokens rs ?tokens) (database w)\<rparr>)"
        using True Some
        by (auto simp: sendPushNotification_def run_simps getUserFCMTokens_def select_stmt_def removeFCMTokens_def
            clear_tokens_stmt_def exec_stmt_def unchanged some)
      with True Some devices [of ?u "failed_tokens rs ?tokens" "database w"] show ?thesis
        by (simp add: Let_def user_tokens_clear)
    qed
  qed
qed

section \<open>Linked devices\<close>

text \<open>The row of a linked device, new or already there.\<close>

lemma link_device_stmt_Inr:
  assumes "link_device_stmt E userId data now d = Inr (n, d')"
  obtains i where "pg_uuid E (lk_deviceId data) = Some i"
    and "filter (\<lambda>r. d_user_id r \<noteq> userId) (devices d') = filter (\<lambda>r. d_user_id r \<noteq> userId) (devices d)"
    and "n \<noteq> 0 \<longrightarrow> list_ex (\<lambda>r. d_id r = i \<and> d_user_id r = userId \<and> d_is_linked r) (devices d')"
    and "n \<noteq> 1 \<longrightarrow> has_key d_id i (devices d) \<and> n = length (filter (\<lambda>r. d_id r = i \<and> d_user_id r = userId) (devices d)) \<and>
      (n = 0 \<longrightarrow> d' = d)"
proof -
  from assms obtain i where i: "pg_uuid E (lk_deviceId data) = Some i"
    and ins: "insert_device
         \<lparr>dv_user_id = userId, dv_id = i,
          dv_device_name = Some (or_default (lk_deviceName data) ''Linked Device''),
          dv_platform = Some (or_default (lk_platform data) ''unknown''),
          dv_fcm_token = None, dv_public_key = Some (lk_publicKey data), dv_is_linked = True\<rparr>
         (Some (\<lambda>row excluded. d_user_id row = d_user_id excluded,
                \<lambda>row excluded. row\<lparr>d_is_linked := True,
                                     d_last_active_at := d_last_active_at excluded\<rparr>)) now d = Inr (n, d')"
    by (auto simp: link_device_stmt_def with_uuid_def uuid_param_def split: option.splits)
  from ins show thesis
  proof (cases rule: insert_device_cases)
    case (new excluded)
    from new(1) have "d_is_linked excluded" by (auto simp: device_row_def)
    with new show thesis
      using device_row_Inr [OF new(1)] by (intro that [OF i]) auto
  next
    case (old wher upd excluded)
    let ?hit = "\<lambda>r. d_id r = i \<and> d_user_id r = userId"
    have d': "devices d' = update_where ?hit (\<lambda>r. r\<lparr>d_is_linked := True, d_last_active_at := d_last_active_at excluded\<rparr>) (devices d)"
      and n: "n = length (filter ?hit (devices d))"
      using old device_row_Inr [OF old(1)] by auto
    have "filter (\<lambda>r. d_user_id r \<noteq> userId) (devices d') = filter (\<lambda>r. d_user_id r \<noteq> userId) (devices d)"
      unfolding d' by (rule filter_update_where) auto
    moreover have "list_ex (\<lambda>r. d_id r = i \<and> d_user_id r = userId \<and> d_is_linked r) (devices d')" if "n \<noteq> 0"
    proof -
      from that n obtain r where "r \<in> set (devices d)" "?hit r"
        by (auto simp: filter_empty_conv)
      then have "r\<lparr>d_is_linked := True, d_last_active_at := d_last_active_at excluded\<rparr> \<in> set (devices d')"
        unfolding d' set_update_where by (intro image_eqI [of _ _ r]) simp_all
      then show ?thesis
        unfolding list_ex_iff by (rule bexI [rotated]) (use \<open>?hit r\<close> in simp)
    qed
    moreover have "d' = d" if "n = 0"
      using that n old(5) device_row_Inr [OF old(1)] old(2) by (auto simp: update_where_none filter_empty_conv)
    ultimately show thesis
      using old(3) n by (intro that [OF i]) auto
  qed
qed

text \<open>C32. Linking a device answers 200 only when the device is then the account's own and marked as
  linked, and 409 only when it belongs to another account, changing nothing; in every case the
  devices of other accounts stay as they are.\<close>

theorem link_device_sound:
  assumes "run (devices_link E json userId) w = (Inr x, w')"
  shows "\<exists>data i. linkSchema E json = Some data \<and> pg_uuid E (lk_deviceId data) = Some i \<and>
    filter (\<lambda>r. d_user_id r \<noteq> userId) (devices (database w')) = filter (\<lambda>r. d_user_id r \<noteq> userId) (devices (database w)) \<and>
    (status x = 200 \<and> list_ex (\<lambda>r. d_id r = i \<and> d_user_id r = userId \<and> d_is_linked r) (devices (database w')) \<or>
     status x = 409 \<and> (db_ok (database w) \<longrightarrow> w' = w \<and> list_ex (\<lambda>r. d_id r = i \<and> d_user_id r \<noteq> userId) (devices (database w))))"
proof -
  from assms obtain data n d' where data: "linkSchema E json = Some data"
    and link: "link_device_stmt E userId data (clock w) (database w) = Inr (n, d')"
    and w': "w' = w\<lparr>database := d'\<rparr>" and x: "status x = (if n = 1 then 200 else 409)"
    by (auto simp: devices_link_def runs split: if_splits)
  from link show ?thesis
  proof (rule link_device_stmt_Inr)
    fix i
    let ?mine = "\<lambda>r. d_id r = i \<and> d_user_id r = userId"
    assume i: "pg_uuid E (lk_deviceId data) = Some i"
      and others: "filter (\<lambda>r. d_user_id r \<noteq> userId) (devices d') = filter (\<lambda>r. d_user_id r \<noteq> userId) (devices (database w))"
      and linked: "n \<noteq> 0 \<longrightarrow> list_ex (\<lambda>r. d_id r = i \<and> d_user_id r = userId \<and> d_is_linked r) (devices d')"
      and taken: "n \<noteq> 1 \<longrightarrow> has_key d_id i (devices (database w)) \<and> n = length (filter ?mine (devices (database w))) \<and>
        (n = 0 \<longrightarrow> d' = database w)"
    have "n = 0 \<and> list_ex (\<lambda>r. d_id r = i \<and> d_user_id r \<noteq> userId) (devices (database w))" if "n \<noteq> 1" "db_ok (database w)"
    proof -
      from taken that(1) obtain r where r: "r \<in> set (devices (database w))" "d_id r = i"
        by (auto simp: has_key_iff)
      have "filter (\<lambda>s. d_id s = d_id r) (devices (database w)) = [r]"
        using that(2) r(1) by (intro filter_key_singleton) (simp_all add: db_ok_def keys_ok_def)
      then have "filter ?mine (devices (database w)) = filter (\<lambda>s. d_user_id s = userId) [r]"
        using r(2) by (metis (no_types, lifting) filter_cong filter_filter)
      with taken that(1) r show ?thesis by (auto simp: list_ex_iff split: if_splits)
    qed
    with i others linked taken data w' x show ?thesis by auto
  qed
qed

definition link_json :: json where
  "link_json = JObj [(''deviceId'', JStr (uuid (CHR ''d''))), (''publicKey'', JStr (key_of (CHR ''a'')))]"

theorem link_device_sound_witness:
  "\<exists>x w'. run (devices_link sample_externals link_json (uuid (CHR ''a''))) sample_world = (Inr x, w') \<and> status x = 409 \<and>
     w' = sample_world"
proof -
  let ?r = "run (devices_link sample_externals link_json (uuid (CHR ''a''))) sample_world"
  have "answer ?r = Some 409" by code_simp
  then obtain x w' where r: "?r = (Inr x, w')" "status x = 409" by (auto simp: answer_Some)
  with link_device_sound [OF r(1)] sample_world_ok show ?thesis by auto
qed

end
