(* ===== verification/Startup.thy ===== *)
theory Startup
  imports Config Server
begin

text \<open>
  The start of the server: the migrations of \<open>db.ts\<close> as statements on the catalog of the
  database, the connection pool, and the order in which \<open>index.ts\<close> brings the services up.
  Whether a query reaches the database is a parameter.
\<close>

section \<open>The catalog\<close>

datatype column_type =
  T_uuid | T_varchar nat | T_char nat | T_text | T_bytea | T_boolean | T_timestamptz | T_smallint
| T_integer | T_decimal nat nat | T_jsonb | T_uuid_array

record column =
  co_name :: string
  co_type :: column_type
  co_not_null :: bool
  co_unique :: bool
  co_default :: "string option"
  co_references :: "(string \<times> string) option"

record schema_table =
  tb_columns :: "column list"
  tb_unique :: "string list list"

record catalog =
  ct_tables :: "string \<Rightarrow> schema_table option"
  ct_indexes :: "string \<Rightarrow> (string \<times> string list) option"

definition empty_catalog :: catalog where
  "empty_catalog = \<lparr>ct_tables = Map.empty, ct_indexes = Map.empty\<rparr>"

definition column_names :: "schema_table \<Rightarrow> string list" where
  "column_names t = map co_name (tb_columns t)"

text \<open>The columns under a unique index: one for each unique column and each table constraint.\<close>

definition unique_keys :: "schema_table \<Rightarrow> string list list" where
  "unique_keys t = map (\<lambda>c. [co_name c]) (filter co_unique (tb_columns t)) @ tb_unique t"

datatype ddl =
  CreateTable string schema_table
| AlterType string string column_type
| AddColumn string column
| CreateIndex string string "string list"

datatype ddl_error = UndefinedTable | UndefinedColumn | DuplicateColumn | ConnectionFailed

definition reference_ok :: "(string \<Rightarrow> schema_table option) \<Rightarrow> column \<Rightarrow> bool" where
  "reference_ok ts c \<longleftrightarrow>
     (case co_references c of
        None \<Rightarrow> True
      | Some (n, k) \<Rightarrow> (case ts n of None \<Rightarrow> False | Some t \<Rightarrow> [k] \<in> set (unique_keys t)))"

definition retype :: "string \<Rightarrow> column_type \<Rightarrow> schema_table \<Rightarrow> schema_table" where
  "retype k ty t = t\<lparr>tb_columns := map (\<lambda>x. if co_name x = k then x\<lparr>co_type := ty\<rparr> else x) (tb_columns t)\<rparr>"

text \<open>All of them carry \<open>IF NOT EXISTS\<close>; the change of type is to \<open>TEXT\<close>, which every text has.\<close>

fun apply_ddl :: "ddl \<Rightarrow> catalog \<Rightarrow> ddl_error + catalog" where
  "apply_ddl (CreateTable n t) c =
     (if ct_tables c n \<noteq> None then Inr c
      else if \<not> distinct (column_names t) then Inl DuplicateColumn
      else if \<not> list_all (\<lambda>k. set k \<subseteq> set (column_names t)) (tb_unique t) then Inl UndefinedColumn
      else
        let ts = (ct_tables c)(n \<mapsto> t) in
        if \<not> list_all (reference_ok ts) (tb_columns t) then Inl UndefinedTable
        else Inr (c\<lparr>ct_tables := ts\<rparr>))"
| "apply_ddl (AlterType n k ty) c =
     (case ct_tables c n of
        None \<Rightarrow> Inl UndefinedTable
      | Some t \<Rightarrow>
          if k \<notin> set (column_names t) then Inl UndefinedColumn
          else Inr (c\<lparr>ct_tables := (ct_tables c)(n \<mapsto> retype k ty t)\<rparr>))"
| "apply_ddl (AddColumn n x) c =
     (case ct_tables c n of
        None \<Rightarrow> Inl UndefinedTable
      | Some t \<Rightarrow>
          if co_name x \<in> set (column_names t) then Inr c
          else Inr (c\<lparr>ct_tables := (ct_tables c)(n \<mapsto> t\<lparr>tb_columns := tb_columns t @ [x]\<rparr>)\<rparr>))"
| "apply_ddl (CreateIndex i n ks) c =
     (case ct_tables c n of
        None \<Rightarrow> Inl UndefinedTable
      | Some t \<Rightarrow>
          if ct_indexes c i \<noteq> None then Inr c
          else if \<not> set ks \<subseteq> set (column_names t) then Inl UndefinedColumn
          else Inr (c\<lparr>ct_indexes := (ct_indexes c)(i \<mapsto> (n, ks))\<rparr>))"

text \<open>The statements of one query text are one transaction.\<close>

fun apply_all :: "ddl list \<Rightarrow> catalog \<Rightarrow> ddl_error + catalog" where
  "apply_all [] c = Inr c"
| "apply_all (s # ss) c = (case apply_ddl s c of Inl e \<Rightarrow> Inl e | Inr c' \<Rightarrow> apply_all ss c')"

section \<open>The migrations\<close>

definition col :: "string \<Rightarrow> column_type \<Rightarrow> column" where
  "col n ty = \<lparr>co_name = n, co_type = ty, co_not_null = False, co_unique = False, co_default = None,
     co_references = None\<rparr>"

definition not_null_col :: "string \<Rightarrow> column_type \<Rightarrow> column" where
  "not_null_col n ty = (col n ty)\<lparr>co_not_null := True\<rparr>"

definition key_col :: "string \<Rightarrow> column_type \<Rightarrow> column" where
  "key_col n ty = (col n ty)\<lparr>co_not_null := True, co_unique := True\<rparr>"

definition default_col :: "string \<Rightarrow> column_type \<Rightarrow> string \<Rightarrow> column" where
  "default_col n ty d = (col n ty)\<lparr>co_default := Some d\<rparr>"

definition foreign_col :: "string \<Rightarrow> string \<Rightarrow> column" where
  "foreign_col n t = (col n T_uuid)\<lparr>co_references := Some (t, ''id'')\<rparr>"

definition uuid_key :: column where
  "uuid_key = (key_col ''id'' T_uuid)\<lparr>co_default := Some ''gen_random_uuid()''\<rparr>"

definition now_col :: "string \<Rightarrow> column" where
  "now_col n = default_col n T_timestamptz ''NOW()''"

definition tab :: "column list \<Rightarrow> string list list \<Rightarrow> schema_table" where
  "tab cs us = \<lparr>tb_columns = cs, tb_unique = us\<rparr>"

definition migrations :: "ddl list list" where
  "migrations =
     [[CreateTable ''users'' (tab
        [uuid_key, key_col ''chhaya_id'' (T_varchar 66), not_null_col ''display_name'' (T_varchar 100),
         not_null_col ''public_key'' (T_varchar 66), not_null_col ''encrypted_private_key'' T_bytea,
         not_null_col ''recovery_phrase_hash'' T_text, default_col ''biometric_enabled'' T_boolean ''false'',
         col ''pin_hash'' (T_varchar 64), col ''panic_pin_hash'' (T_varchar 64), now_col ''created_at'',
         now_col ''updated_at'', col ''last_seen_at'' T_timestamptz,
         default_col ''is_active'' T_boolean ''true''] [])],
      [CreateTable ''contacts'' (tab
        [uuid_key, foreign_col ''user_id'' ''users'', foreign_col ''contact_id'' ''users'',
         not_null_col ''display_name'' (T_varchar 100), default_col ''verification_level'' T_smallint ''1'',
         default_col ''is_blocked'' T_boolean ''false'', now_col ''created_at''] [[''user_id'', ''contact_id'']])],
      [CreateTable ''conversations'' (tab
        [uuid_key, default_col ''type'' (T_varchar 20) ''direct'', col ''name'' (T_varchar 100),
         col ''avatar_url'' T_text, foreign_col ''created_by'' ''users'', now_col ''created_at'',
         now_col ''updated_at''] [])],
      [CreateTable ''conversation_participants'' (tab
        [uuid_key, foreign_col ''conversation_id'' ''conversations'', foreign_col ''user_id'' ''users'',
         now_col ''joined_at'', col ''left_at'' T_timestamptz, default_col ''is_admin'' T_boolean ''false'']
        [[''conversation_id'', ''user_id'']])],
      [CreateTable ''messages'' (tab
        [uuid_key, foreign_col ''conversation_id'' ''conversations'', foreign_col ''sender_id'' ''users'',
         not_null_col ''content'' T_text, default_col ''message_type'' (T_varchar 20) ''text'',
         col ''media_url'' T_text, col ''media_meta'' T_jsonb, foreign_col ''reply_to_id'' ''messages'',
         now_col ''sent_at'', col ''delivered_at'' T_timestamptz, col ''read_at'' T_timestamptz,
         default_col ''is_deleted'' T_boolean ''false''] [])],
      [CreateTable ''devices'' (tab
        [uuid_key, foreign_col ''user_id'' ''users'', col ''device_name'' (T_varchar 100),
         col ''platform'' (T_varchar 20), col ''fcm_token'' T_text, not_null_col ''public_key'' (T_varchar 66),
         now_col ''last_active_at'', default_col ''is_linked'' T_boolean ''false'', now_col ''created_at''] [])],
      [CreateTable ''push_subscriptions'' (tab
        [uuid_key, foreign_col ''user_id'' ''users'', not_null_col ''endpoint'' T_text,
         not_null_col ''p256dh'' T_text, not_null_col ''auth'' T_text, now_col ''created_at''] [])],
      [CreateTable ''onion_nodes'' (tab
        [key_col ''id'' (T_varchar 50), not_null_col ''address'' (T_varchar 100),
         not_null_col ''public_key'' T_bytea, not_null_col ''region'' (T_varchar 20),
         default_col ''latency_ms'' T_integer ''0'', default_col ''reliability'' (T_decimal 3 2) ''0.95'',
         default_col ''is_active'' T_boolean ''true'', col ''last_health_check'' T_timestamptz,
         now_col ''created_at''] [])],
      [CreateTable ''circuits'' (tab
        [uuid_key, foreign_col ''user_id'' ''users'', not_null_col ''path'' T_uuid_array,
         default_col ''status'' (T_varchar 20) ''active'', now_col ''created_at'',
         col ''expires_at'' T_timestamptz] [])],
      [AlterType ''users'' ''recovery_phrase_hash'' T_text,
       AddColumn ''conversation_participants'' (default_col ''last_read_at'' T_timestamptz ''epoch''),
       AddColumn ''conversation_participants'' (now_col ''last_active_at'')],
      [CreateTable ''identity_challenges'' (tab
        [key_col ''id'' T_uuid, not_null_col ''public_key'' (T_char 64), not_null_col ''device_id'' T_uuid,
         not_null_col ''purpose'' T_text, not_null_col ''proof_hash'' (T_char 64),
         not_null_col ''expires_at'' T_timestamptz] [])],
      [CreateTable ''auth_sessions'' (tab
        [key_col ''token_hash'' (T_char 64), foreign_col ''user_id'' ''users'',
         not_null_col ''expires_at'' T_timestamptz] [])],
      [CreateTable ''rate_limits'' (tab
        [key_col ''key'' (T_varchar 100), default_col ''count'' T_integer ''0'', now_col ''window_start''] [])],
      [CreateIndex ''idx_users_chhaya_id'' ''users'' [''chhaya_id''],
       CreateIndex ''idx_contacts_user_id'' ''contacts'' [''user_id''],
       CreateIndex ''idx_conversations_updated'' ''conversations'' [''updated_at''],
       CreateIndex ''idx_messages_conversation'' ''messages'' [''conversation_id'', ''sent_at''],
       CreateIndex ''idx_devices_user_id'' ''devices'' [''user_id''],
       CreateIndex ''idx_devices_fcm_token'' ''devices'' [''fcm_token''],
       CreateIndex ''idx_onion_nodes_region'' ''onion_nodes'' [''region'', ''is_active''],
       CreateIndex ''idx_circuits_user'' ''circuits'' [''user_id'', ''status'']]]"

fun runMigrations :: "(ddl list \<Rightarrow> bool) \<Rightarrow> ddl list list \<Rightarrow> catalog \<Rightarrow> ddl_error option \<times> catalog" where
  "runMigrations online [] c = (None, c)"
| "runMigrations online (q # qs) c =
     (if \<not> online q then (Some ConnectionFailed, c)
      else (case apply_all q c of Inl e \<Rightarrow> (Some e, c) | Inr c' \<Rightarrow> runMigrations online qs c'))"

section \<open>The pool\<close>

text \<open>The module variable \<open>pool\<close> and the database behind it.\<close>

record db_module =
  dm_pool :: bool
  dm_catalog :: catalog

definition initDb :: "(ddl list \<Rightarrow> bool) \<Rightarrow> db_module \<Rightarrow> ddl_error option \<times> db_module" where
  "initDb online m =
     (if dm_pool m then (None, m)
      else
        let m' = m\<lparr>dm_pool := True\<rparr> in
        case runMigrations online migrations (dm_catalog m') of
          (e, c) \<Rightarrow> (e, m'\<lparr>dm_catalog := c\<rparr>))"

definition getDb :: "db_module \<Rightarrow> unit option" where
  "getDb m = (if dm_pool m then Some () else None)"

definition closeDb :: "db_module \<Rightarrow> db_module" where
  "closeDb m = m\<lparr>dm_pool := False\<rparr>"

section \<open>Start\<close>

datatype startup_event = SignalingListens js_number | HttpListens js_number | Exits nat

definition start ::
  "(string \<Rightarrow> string \<Rightarrow> string \<Rightarrow> bool) \<Rightarrow> (ddl list \<Rightarrow> bool) \<Rightarrow> config \<Rightarrow> db_module \<times> world \<Rightarrow>
   startup_event list \<times> db_module \<times> world" where
  "start admin_init online config s =
     (case s of (m, w) \<Rightarrow>
      case initDb online m of
        (Some e, m') \<Rightarrow> ([Exits 1], m', w)
      | (None, m') \<Rightarrow>
          ([SignalingListens (cf_SIGNALING_PORT config), HttpListens (cf_PORT config)], m',
           initPushNotifications admin_init (cf_FIREBASE_PROJECT_ID config) (cf_FIREBASE_CLIENT_EMAIL config)
             (cf_FIREBASE_PRIVATE_KEY config) w))"

section \<open>Starting again\<close>

text \<open>A statement that leaves the catalog as it is stays so while the others are applied.\<close>

definition satisfied :: "ddl \<Rightarrow> catalog \<Rightarrow> bool" where
  "satisfied s c \<longleftrightarrow> apply_ddl s c = Inr c"

fun compatible :: "ddl \<Rightarrow> ddl \<Rightarrow> bool" where
  "compatible (AlterType n k ty) (AlterType m l ty') = (n = m \<and> k = l \<longrightarrow> ty = ty')"
| "compatible (AddColumn n x) (AlterType m l ty) = True"
| "compatible _ _ = True"

lemma column_names_retype [simp]: "column_names (retype k ty t) = column_names t"
  by (simp add: column_names_def retype_def)

lemma column_names_add [simp]: "column_names (t\<lparr>tb_columns := tb_columns t @ [x]\<rparr>) = column_names t @ [co_name x]"
  by (simp add: column_names_def)

lemma retype_idem [simp]: "retype k ty (retype k ty t) = retype k ty t"
  by (simp add: retype_def)

lemma retype_same: "retype k ty t = t \<longleftrightarrow> (\<forall>x \<in> set (tb_columns t). co_name x = k \<longrightarrow> co_type x = ty)"
proof -
  have "map (\<lambda>x. if co_name x = k then x\<lparr>co_type := ty\<rparr> else x) cs = cs \<longleftrightarrow>
      (\<forall>x \<in> set cs. co_name x = k \<longrightarrow> co_type x = ty)" for cs
  proof (induction cs)
    case (Cons x cs)
    have "x\<lparr>co_type := ty\<rparr> = x \<longleftrightarrow> co_type x = ty" by (cases x) auto
    with Cons show ?case by auto
  qed simp
  then show ?thesis by (cases t) (simp add: retype_def)
qed

lemma set_tables_same: "c\<lparr>ct_tables := ts\<rparr> = c \<longleftrightarrow> ts = ct_tables c"
  and set_indexes_same: "c\<lparr>ct_indexes := is\<rparr> = c \<longleftrightarrow> is = ct_indexes c"
  by (cases c; auto)+

lemma update_same: "m(k \<mapsto> v) = m \<longleftrightarrow> m k = Some v"
  by (auto simp: fun_eq_iff)

lemma add_column_same [simp]:
  "t\<lparr>tb_columns := tb_columns t @ [x]\<rparr> \<noteq> t" "t \<noteq> t\<lparr>tb_columns := tb_columns t @ [x]\<rparr>"
  by (cases t; simp)+

lemma satisfied_simps [simp]:
  "satisfied (CreateTable n t) c \<longleftrightarrow> ct_tables c n \<noteq> None"
  "satisfied (AlterType n k ty) c \<longleftrightarrow> (\<exists>t. ct_tables c n = Some t \<and> k \<in> set (column_names t) \<and> retype k ty t = t)"
  "satisfied (AddColumn n x) c \<longleftrightarrow> (\<exists>t. ct_tables c n = Some t \<and> co_name x \<in> set (column_names t))"
  "satisfied (CreateIndex i n ks) c \<longleftrightarrow> ct_tables c n \<noteq> None \<and> ct_indexes c i \<noteq> None"
  by (auto simp: satisfied_def Let_def set_tables_same set_indexes_same update_same
      split: option.splits if_splits)

lemma retype_retype: "retype k ty t = t \<Longrightarrow> k \<noteq> l \<or> ty = ty' \<Longrightarrow> retype k ty (retype l ty' t) = retype l ty' t"
  unfolding retype_same by (auto simp: retype_def)

lemma retype_add_column:
  "retype k ty t = t \<Longrightarrow> k \<in> set (column_names t) \<Longrightarrow> co_name x \<notin> set (column_names t) \<Longrightarrow>
   retype k ty (t\<lparr>tb_columns := tb_columns t @ [x]\<rparr>) = t\<lparr>tb_columns := tb_columns t @ [x]\<rparr>"
  unfolding retype_same by auto

lemma apply_ddl_satisfies: "apply_ddl s c = Inr c' \<Longrightarrow> satisfied s c'"
  by (cases s) (auto simp: Let_def split: option.splits if_splits)

lemma satisfied_stable:
  "satisfied s c \<Longrightarrow> apply_ddl s' c = Inr c' \<Longrightarrow> compatible s s' \<Longrightarrow> satisfied s c'"
  by (cases s; cases s')
    (auto simp: Let_def retype_add_column intro!: retype_retype split: option.splits if_splits)

lemma apply_all_append:
  "apply_all (ss @ ts) c = (case apply_all ss c of Inl e \<Rightarrow> Inl e | Inr c' \<Rightarrow> apply_all ts c')"
  by (induction ss arbitrary: c) (simp_all split: sum.split)

lemma apply_all_stable:
  "satisfied s c \<Longrightarrow> apply_all ss c = Inr c' \<Longrightarrow> (\<And>s'. s' \<in> set ss \<Longrightarrow> compatible s s') \<Longrightarrow> satisfied s c'"
  by (induction ss arbitrary: c) (auto dest: satisfied_stable split: sum.splits)

lemma apply_all_satisfies:
  "apply_all ss c = Inr c' \<Longrightarrow> (\<And>s s'. s \<in> set ss \<Longrightarrow> s' \<in> set ss \<Longrightarrow> compatible s s') \<Longrightarrow> s \<in> set ss \<Longrightarrow> satisfied s c'"
proof (induction ss arbitrary: c)
  case (Cons t ss)
  then obtain c1 where c1: "apply_ddl t c = Inr c1" "apply_all ss c1 = Inr c'" by (auto split: sum.splits)
  show ?case
  proof (cases "s = t")
    case True
    with c1 Cons.prems show ?thesis by (auto intro!: apply_all_stable [OF apply_ddl_satisfies])
  qed (use Cons c1 in auto)
qed simp

lemma apply_all_idle: "(\<And>s. s \<in> set ss \<Longrightarrow> satisfied s c) \<Longrightarrow> apply_all ss c = Inr c"
  by (induction ss) (simp_all add: satisfied_def)

lemma runMigrations_prefix:
  assumes "runMigrations online qs c = (e, c1)"
  obtains pre post where "qs = pre @ post" and "apply_all (concat pre) c = Inr c1" and "e = None \<longrightarrow> post = []"
  using assms
proof (induction qs arbitrary: c thesis)
  case (Cons q qs)
  show ?case
  proof (cases "online q \<and> (\<exists>c'. apply_all q c = Inr c')")
    case True
    then obtain c' where c': "apply_all q c = Inr c'" by blast
    with True Cons.prems(2) have "runMigrations online qs c' = (e, c1)" by simp
    from Cons.IH [OF _ this] obtain pre post
      where "qs = pre @ post" "apply_all (concat pre) c' = Inr c1" "e = None \<longrightarrow> post = []" by blast
    with c' show ?thesis by (intro Cons.prems(1) [of "q # pre" post]) (simp_all add: apply_all_append)
  next
    case False
    with Cons.prems(2) have "c1 = c \<and> e \<noteq> None" by (auto split: if_splits sum.splits)
    then show ?thesis by (intro Cons.prems(1) [of "[]" "q # qs"]) simp_all
  qed
qed simp

lemma runMigrations_online:
  "runMigrations (\<lambda>_. True) qs c = (None, c') \<longleftrightarrow> apply_all (concat qs) c = Inr c'"
  by (induction qs arbitrary: c) (auto simp: apply_all_append split: sum.splits)

lemma migrations_compatible: "s \<in> set (concat migrations) \<Longrightarrow> s' \<in> set (concat migrations) \<Longrightarrow> compatible s s'"
  by (cases s; cases s') (simp_all add: migrations_def)

text \<open>C28. The migrations can be repeated: a start that breaks off anywhere, because a statement fails or
  the connection is lost, leaves a catalog from which the next one reaches the same result as
  an undisturbed start; in particular a completed start changes nothing when repeated.\<close>

theorem migrations_resume:
  assumes "runMigrations (\<lambda>_. True) migrations c = (None, c')" and "runMigrations online migrations c = (e, c1)"
  shows "runMigrations (\<lambda>_. True) migrations c1 = (None, c')"
proof -
  obtain pre post where split: "migrations = pre @ post" "apply_all (concat pre) c = Inr c1"
    using runMigrations_prefix [OF assms(2)] .
  have "satisfied s c1" if "s \<in> set (concat pre)" for s
    by (rule apply_all_satisfies [OF split(2) migrations_compatible that]) (auto simp: split(1))
  then have "apply_all (concat pre) c1 = Inr c1" by (rule apply_all_idle)
  with assms(1) split(2) show ?thesis
    unfolding runMigrations_online split(1) by (simp add: apply_all_append)
qed

definition sample_config :: "rat \<Rightarrow> rat \<Rightarrow> config" where
  "sample_config signaling http =
     \<lparr>cf_PORT = Num http, cf_NODE_ENV = ''test'', cf_LOG_LEVEL = ''info'', cf_DATABASE_URL = [], cf_REDIS_URL = [],
      cf_FIREBASE_PROJECT_ID = None, cf_FIREBASE_CLIENT_EMAIL = None, cf_FIREBASE_PRIVATE_KEY = None,
      cf_SIGNALING_PORT = Num signaling, cf_ONION_PORT = Num 8445, cf_ONION_REGIONS = default_regions,
      cf_JWT_SECRET = default_secret, cf_TRUST_PROXY_HOPS = Num 0, cf_API_RATE_LIMIT = Num 100,
      cf_WS_RATE_LIMIT = Num 50, cf_METRICS_PORT = Num 9090, cf_HEALTH_CHECK_INTERVAL = Num 30000\<rparr>"

definition fresh_catalog :: catalog where
  "fresh_catalog = snd (runMigrations (\<lambda>_. True) migrations empty_catalog)"

lemma fresh_start: "runMigrations (\<lambda>_. True) migrations empty_catalog = (None, fresh_catalog)"
proof -
  have "fst (runMigrations (\<lambda>_. True) migrations empty_catalog) = None" by code_simp
  then show ?thesis by (simp add: fresh_catalog_def prod_eq_iff)
qed

theorem migrations_resume_witness:
  "runMigrations (\<lambda>_. True) migrations
     (snd (runMigrations (\<lambda>q. length q < 3) migrations empty_catalog)) = (None, fresh_catalog)"
  by (rule migrations_resume [OF fresh_start]) (rule surjective_pairing)

text \<open>The unique indexes of the fresh schema are those the model of the tables checks.\<close>

lemma fresh_keys:
  "map (\<lambda>n. map_option unique_keys (ct_tables fresh_catalog n))
     [''users'', ''contacts'', ''conversation_participants'', ''devices'', ''push_subscriptions'', ''auth_sessions''] =
   [Some [[''id''], [''chhaya_id'']], Some [[''id''], [''user_id'', ''contact_id'']],
    Some [[''id''], [''conversation_id'', ''user_id'']], Some [[''id'']], Some push_subscription_indexes,
    Some [[''token_hash'']]]"
  by code_simp

text \<open>C29. The server accepts requests only on a complete schema: when it listens, the pool is open and no
  migration has anything left to do; otherwise it exits with status 1 and has opened no port.\<close>

theorem listens_when_migrated:
  assumes "\<not> dm_pool m" and "start admin_init online config (m, w) = (events, m', w')"
  shows "events = [SignalingListens (cf_SIGNALING_PORT config), HttpListens (cf_PORT config)] \<and>
      getDb m' = Some () \<and> list_all (\<lambda>s. satisfied s (dm_catalog m')) (concat migrations) \<or>
    events = [Exits 1] \<and> w' = w"
proof -
  obtain e c1 where run: "runMigrations online migrations (dm_catalog m) = (e, c1)" by (cases "runMigrations online migrations (dm_catalog m)")
  show ?thesis
  proof (cases e)
    case None
    obtain pre post where split: "migrations = pre @ post" "apply_all (concat pre) (dm_catalog m) = Inr c1" "post = []"
      using runMigrations_prefix [OF run] None by metis
    have "satisfied s c1" if "s \<in> set (concat migrations)" for s
      by (rule apply_all_satisfies [OF split(2) migrations_compatible]) (use that split(1,3) in auto)
    then have "list_all (\<lambda>s. satisfied s c1) (concat migrations)" unfolding list_all_iff by blast
    with assms run None show ?thesis by (auto simp: start_def initDb_def getDb_def Let_def)
  qed (use assms run in \<open>auto simp: start_def initDb_def Let_def\<close>)
qed

theorem listens_when_migrated_witness:
  "\<exists>m' w'. start (\<lambda>_ _ _. True) (\<lambda>_. True) (sample_config 8444 8443)
      (\<lparr>dm_pool = False, dm_catalog = empty_catalog\<rparr>, initial_world empty_db) =
    ([SignalingListens (Num 8444), HttpListens (Num 8443)], m', w') \<and> getDb m' = Some ()"
proof -
  let ?m = "\<lparr>dm_pool = False, dm_catalog = empty_catalog\<rparr>"
  obtain events m' w' where start: "start (\<lambda>_ _ _. True) (\<lambda>_. True) (sample_config 8444 8443) (?m, initial_world empty_db) = (events, m', w')"
    by (rule prod_cases3)
  have "events \<noteq> [Exits 1]"
    using start by (auto simp: start_def initDb_def fresh_start Let_def)
  with listens_when_migrated [OF _ start] start show ?thesis by (auto simp: sample_config_def)
qed

text \<open>A start that failed leaves the pool set: a second one would skip the migrations.\<close>

lemma retry_skips_migrations:
  assumes "initDb online m = (Some e, m')"
  shows "initDb online' m' = (None, m')"
  using assms by (auto simp: initDb_def Let_def split: if_splits prod.splits)

end
