(* ===== verification/Scoring.thy ===== *)
theory Scoring
  imports Numbers
begin

text \<open>
  \<open>loadtest/analyze-results.js\<close>: percentiles of latencies and the scores derived from them.
\<close>

section \<open>Arithmetic\<close>

definition js_ceil :: "js_number \<Rightarrow> js_number" where
  "js_ceil n = (case n of Num x \<Rightarrow> Num (of_int \<lceil>x\<rceil>) | _ \<Rightarrow> n)"

text \<open>\<open>Math.round\<close>: the nearest integer, the greater one of two.\<close>

definition js_round :: "js_number \<Rightarrow> js_number" where
  "js_round n = (case n of Num x \<Rightarrow> Num (of_int \<lfloor>x + 1 / 2\<rfloor>) | _ \<Rightarrow> n)"

text \<open>\<open>a > b\<close>\<close>

definition above :: "js_number \<Rightarrow> rat \<Rightarrow> bool" where
  "above n b = js_less (Num b) n"

text \<open>\<open>xs[i]\<close>: \<open>None\<close> is \<open>undefined\<close>.\<close>

definition element_at :: "'x list \<Rightarrow> js_number \<Rightarrow> 'x option" where
  "element_at xs i = (case i of
     Num x \<Rightarrow> if x = of_int \<lfloor>x\<rfloor> \<and> 0 \<le> x \<and> nat \<lfloor>x\<rfloor> < length xs then Some (xs ! nat \<lfloor>x\<rfloor>) else None
   | _ \<Rightarrow> None)"

section \<open>Percentiles\<close>

definition percentile :: "js_number list option \<Rightarrow> rat \<Rightarrow> js_number option" where
  "percentile arr p =
     (case arr of
        None \<Rightarrow> Some (Num 0)
      | Some [] \<Rightarrow> Some (Num 0)
      | Some xs \<Rightarrow>
          let sorted = js_sort (\<lambda>a b. js_sub a b) xs;
              idx = js_sub (js_ceil (js_mul (js_div (Num p) (Num 100)) (Num (of_nat (length sorted))))) (Num 1)
          in element_at sorted (js_max (Num 0) idx))"

section \<open>Scores\<close>

text \<open>\<open>Math.min(bound, (p - target) / unit)\<close>, taken off where the target is missed.\<close>

definition penalty :: "js_number \<Rightarrow> rat \<Rightarrow> rat \<Rightarrow> rat \<Rightarrow> js_number \<Rightarrow> js_number" where
  "penalty p target bound unit score =
     (if above p target
      then js_sub score (js_min (Num bound) (js_div (js_sub p (Num target)) (Num unit))) else score)"

definition calculateLatencyScore :: "js_number \<Rightarrow> js_number \<Rightarrow> js_number \<Rightarrow> js_number" where
  "calculateLatencyScore p50 p95 p99 =
     (let score = penalty p99 500 40 50 (penalty p95 200 30 20 (penalty p50 50 30 10 (Num 100)))
      in js_max (Num 0) (js_round score))"

definition calculateThroughputScore :: "js_number \<Rightarrow> js_number \<Rightarrow> js_number \<Rightarrow> js_number" where
  "calculateThroughputScore rps totalRequests durationMs =
     (let targetRps = js_mul (Num 500) (Num (to_double (2 / 10)));
          ratio = js_div rps targetRps
      in js_min (Num 100) (js_round (js_mul ratio (Num 100))))"

text \<open>\<open>errorRate\<close> is the number its text stands for, to which every use converts it.\<close>

definition calculateErrorScore :: "js_number \<Rightarrow> js_number" where
  "calculateErrorScore errorRate =
     (if js_less errorRate (Num (to_double (1 / 10))) then Num 100
      else if js_less errorRate (Num (1 / 2)) then Num 95
      else if js_less errorRate (Num 1) then Num 90
      else if js_less errorRate (Num 2) then Num 75
      else if js_less errorRate (Num 5) then Num 50
      else js_max (Num 0) (js_sub (Num 100) (js_mul errorRate (Num 10))))"

definition overall_score :: "js_number \<Rightarrow> js_number \<Rightarrow> js_number \<Rightarrow> js_number" where
  "overall_score latencyScore throughputScore errorScore =
     js_round (js_div (js_add (js_add latencyScore throughputScore) errorScore) (Num 3))"

datatype rating = Excellent | VeryGood | Good | Fair | NeedsImprovement | Critical

definition getEfficiencyRating :: "js_number \<Rightarrow> rating" where
  "getEfficiencyRating score =
     (if js_leq (Num 90) score then Excellent
      else if js_leq (Num 80) score then VeryGood
      else if js_leq (Num 70) score then Good
      else if js_leq (Num 60) score then Fair
      else if js_leq (Num 50) score then NeedsImprovement
      else Critical)"

text \<open>Ratings are ordered from \<open>Critical\<close> up.\<close>

primrec stars :: "rating \<Rightarrow> nat" where
  "stars Excellent = 5"
| "stars VeryGood = 4"
| "stars Good = 3"
| "stars Fair = 2"
| "stars NeedsImprovement = 1"
| "stars Critical = 0"

lemma stars_inject [simp]: "stars r = stars r' \<longleftrightarrow> r = r'"
  by (cases r; cases r') simp_all

instantiation rating :: linorder
begin

definition less_eq_rating :: "rating \<Rightarrow> rating \<Rightarrow> bool" where
  "less_eq_rating r r' \<longleftrightarrow> stars r \<le> stars r'"

definition less_rating :: "rating \<Rightarrow> rating \<Rightarrow> bool" where
  "less_rating r r' \<longleftrightarrow> stars r < stars r'"

instance
  by standard (auto simp: less_eq_rating_def less_rating_def)

end

datatype recommendation =
  MedianHigh | MedianMedium | TailHigh | TailMedium | CircuitBreakers | ThroughputHigh | ThroughputMedium
| ErrorsCritical | ErrorsMedium | SuccessMedium | AllOptimal | DoubleLoad

definition generateRecommendations ::
  "js_number \<Rightarrow> js_number \<Rightarrow> js_number \<Rightarrow> js_number \<Rightarrow> js_number \<Rightarrow> js_number \<Rightarrow> recommendation list" where
  "generateRecommendations p50 p95 p99 rps errorRate successRate =
     (let recs =
        (if above p50 100 then [MedianHigh] else if above p50 50 then [MedianMedium] else []) @
        (if above p95 500 then [TailHigh] else if above p95 200 then [TailMedium] else []) @
        (if above p99 1000 then [CircuitBreakers] else []) @
        (if js_less rps (Num 50) then [ThroughputHigh] else if js_less rps (Num 100) then [ThroughputMedium] else []) @
        (if above errorRate 5 then [ErrorsCritical] else if above errorRate 1 then [ErrorsMedium] else []) @
        (if js_less successRate (Num 99) then [SuccessMedium] else [])
      in if recs = [] then [AllOptimal, DoubleLoad] else recs)"

section \<open>Percentiles are ranks\<close>

text \<open>The rank the code computes, for a list of \<open>n\<close> numbers.\<close>

definition rank :: "rat \<Rightarrow> nat \<Rightarrow> nat" where
  "rank p n = nat (\<lceil>to_double (to_double (p / 100) * of_nat n)\<rceil> - 1)"

lemma to_double_le_int: "0 \<le> x \<Longrightarrow> x \<le> of_int k \<Longrightarrow> \<bar>k\<bar> < 2 ^ 53 \<Longrightarrow> to_double x \<le> of_int k"
  using to_double_mono [of x "of_int k"] to_double_int [of k] by simp

lemma position_bounds:
  assumes "0 \<le> p" and "p \<le> 100" and "n < 2 ^ 53"
  shows "0 \<le> \<lceil>to_double (to_double (p / 100) * of_nat n)\<rceil> \<and> \<lceil>to_double (to_double (p / 100) * of_nat n)\<rceil> \<le> int n"
proof -
  have fraction: "0 \<le> to_double (p / 100)" "to_double (p / 100) \<le> 1"
    using assms to_double_le_int [of "p / 100" 1] by simp_all
  then have product: "0 \<le> to_double (p / 100) * of_nat n" "to_double (p / 100) * of_nat n \<le> of_int (int n)"
    by (simp_all add: mult_left_le_one_le)
  have "to_double (to_double (p / 100) * of_nat n) \<le> of_int (int n)"
    using product assms(3) by (intro to_double_le_int) simp_all
  moreover have "0 \<le> to_double (to_double (p / 100) * of_nat n)" unfolding to_double_nonneg by (rule product(1))
  then have "0 \<le> \<lceil>to_double (to_double (p / 100) * of_nat n)\<rceil>" by linarith
  ultimately show ?thesis by (simp only: ceiling_le_iff of_int_of_nat_eq simp_thms)
qed

lemma rank_less: "0 \<le> p \<Longrightarrow> p \<le> 100 \<Longrightarrow> 0 < n \<Longrightarrow> n < 2 ^ 53 \<Longrightarrow> rank p n < n"
  using position_bounds [of p n] by (auto simp: rank_def)

lemma rank_mono: "0 \<le> p \<Longrightarrow> p \<le> q \<Longrightarrow> rank p n \<le> rank q n"
  unfolding rank_def
  by (intro nat_mono diff_right_mono ceiling_mono to_double_mono mult_right_mono mult_nonneg_nonneg)
    (simp_all add: divide_right_mono)

lemma js_sort_numbers: "js_sort js_sub (map Num xs) = map Num (sort xs)"
proof -
  define g where "g n = (case n of Num x \<Rightarrow> x | _ \<Rightarrow> 0)" for n
  have "js_sort (\<lambda>a b. js_sub a b) (map Num xs) = sort_key g (map Num xs)"
    by (rule js_sort_eq [where f = "\<lambda>n. n"]) (auto simp: g_def)
  moreover have "sort_key g (map Num xs) = map Num (map g (sort_key g (map Num xs)))"
    by (rule map_idI [symmetric, THEN trans]) (auto simp: g_def)
  moreover have "map g (sort_key g (map Num xs)) = sort xs"
  proof (rule properties_for_sort [symmetric])
    show "mset (map g (sort_key g (map Num xs))) = mset xs"
      by (simp add: multiset.map_comp comp_def g_def)
  qed simp
  ultimately show ?thesis by simp
qed

lemma index_number:
  assumes "to_double (of_int (k - 1)) = of_int (k - 1)"
  shows "js_max (Num 0) (js_sub (Num (of_int k)) (Num 1)) = Num (of_nat (nat (k - 1)))"
proof (cases "1 \<le> k")
  case True
  then have "of_nat (nat (k - 1)) = (of_int (k - 1) :: rat)" by (simp add: of_nat_nat)
  with True assms show ?thesis by (simp add: js_max_def js_sub_def)
qed (use assms in \<open>simp add: js_max_def js_sub_def\<close>)

lemma percentile_nonempty:
  "ys \<noteq> [] \<Longrightarrow> percentile (Some ys) p = element_at (js_sort js_sub ys)
     (js_max (Num 0) (js_sub (js_ceil (js_mul (js_div (Num p) (Num 100))
       (Num (of_nat (length (js_sort js_sub ys)))))) (Num 1)))"
  by (cases ys) (simp_all only: percentile_def Let_def option.case list.case, simp)

lemma percentile_element:
  assumes "ys \<noteq> []" and "0 \<le> p" and "p \<le> 100" and "length ys < 2 ^ 53"
  shows "percentile (Some ys) p = Some (js_sort js_sub ys ! rank p (length ys))"
proof -
  let ?c = "\<lceil>to_double (to_double (p / 100) * of_nat (length ys))\<rceil>"
  have c: "0 \<le> ?c" "?c \<le> int (length ys)" using position_bounds [OF assms(2-4)] by simp_all
  have "to_double (of_int (?c - 1)) = of_int (?c - 1)"
  proof (rule to_double_int)
    have "int (length ys) < 2 ^ 53" using assms(4) by (metis of_nat_less_iff of_nat_numeral of_nat_power)
    moreover have "\<bar>k - 1\<bar> < 2 ^ 53" if "0 \<le> k" "k \<le> n" "n < 2 ^ 53" for k n :: int
      using that by (auto simp: abs_if)
    ultimately show "\<bar>?c - 1\<bar> < 2 ^ 53" using c by blast
  qed
  then have "js_max (Num 0) (js_sub (js_ceil (js_mul (js_div (Num p) (Num 100)) (Num (of_nat (length ys))))) (Num 1)) =
      Num (of_nat (rank p (length ys)))"
    unfolding rank_def by (intro index_number [THEN trans [rotated], of ?c]) (simp_all add: js_ceil_def)
  moreover have "length (js_sort js_sub ys) = length ys" by (metis mset_js_sort size_mset)
  moreover have "rank p (length ys) < length ys" using assms by (intro rank_less) simp_all
  ultimately show ?thesis
    using assms(1) by (simp add: percentile_nonempty element_at_def del: js_div.simps js_mul.simps)
qed

lemma percentile_rank:
  assumes "xs \<noteq> []" and "0 \<le> p" and "p \<le> 100" and "length xs < 2 ^ 53"
  shows "percentile (Some (map Num xs)) p = Some (Num (sort xs ! rank p (length xs)))"
  using percentile_element [of "map Num xs" p] rank_less [of p "length xs"] assms by (simp add: js_sort_numbers)

text \<open>A percentile is one of the measured values, the one at the computed rank of the sorted
  list, and percentiles are ordered as their percentages are.\<close>

lemma percentile_ordered:
  assumes "xs \<noteq> []" and "length xs < 2 ^ 53" and "0 \<le> p" and "p \<le> q" and "q \<le> 100"
  shows "\<exists>v v'. percentile (Some (map Num xs)) p = Some (Num v) \<and> percentile (Some (map Num xs)) q = Some (Num v') \<and>
    v \<in> set xs \<and> v' \<in> set xs \<and> v \<le> v'"
proof -
  have ranks: "rank p (length xs) < length (sort xs)" "rank q (length xs) < length (sort xs)"
    using assms by (auto intro!: rank_less)
  then have "sort xs ! rank p (length xs) \<in> set xs" "sort xs ! rank q (length xs) \<in> set xs"
    using nth_mem [OF ranks(1)] nth_mem [OF ranks(2)] by simp_all
  moreover have "sort xs ! rank p (length xs) \<le> sort xs ! rank q (length xs)"
    using assms ranks by (intro sorted_nth_mono rank_mono) simp_all
  ultimately show ?thesis
    using assms by (simp add: percentile_rank)
qed

lemma percentile_ordered_witness:
  "\<exists>v v'. percentile (Some (map Num [30, 10, 20])) 50 = Some (Num v) \<and>
     percentile (Some (map Num [30, 10, 20])) 95 = Some (Num v') \<and> v \<le> v'"
  using percentile_ordered [of "[30, 10, 20]" 50 95] by auto

section \<open>Scores are percentages\<close>

definition percentage :: "js_number \<Rightarrow> bool" where
  "percentage n = (case n of Num x \<Rightarrow> 0 \<le> x \<and> x \<le> 100 | _ \<Rightarrow> False)"

lemma penalty_range:
  assumes "of_int lo \<le> s" and "s \<le> 100" and "0 < b" and "b \<le> lo" and "0 < unit"
  shows "\<exists>t. penalty (Num p) target (of_int b) unit (Num s) = Num t \<and> of_int (lo - b) \<le> t \<and> t \<le> 100"
proof (cases "target < p")
  case True
  define d where "d = min (of_int b) (to_double (to_double (p - target) / unit))"
  have d: "0 < d" "d \<le> of_int b" using True assms(3,5) by (simp_all add: d_def)
  have "penalty (Num p) target (of_int b) unit (Num s) = Num (to_double (s - d))"
    using True assms(5) by (simp add: penalty_def above_def js_sub_def js_min_def d_def min_def)
  moreover have "of_int lo \<le> (100 :: rat)" using assms(1,2) by linarith
  then have lo: "lo \<le> 100" by simp
  have "to_double (s - d) \<le> of_int 100" using d assms by (intro to_double_le_int) simp_all
  moreover have "of_int (lo - b) \<le> to_double (s - d)"
    using to_double_mono [of "of_int (lo - b)" "s - d"] to_double_int [of "lo - b"] d assms lo by simp
  ultimately show ?thesis by simp
qed (use assms in \<open>simp add: penalty_def above_def\<close>)

lemma round_percentage: "0 \<le> x \<Longrightarrow> x \<le> 100 \<Longrightarrow> percentage (js_round (Num x))"
  by (simp add: percentage_def js_round_def le_floor_iff floor_le_iff)

lemma max_percentage: "percentage n \<Longrightarrow> percentage (js_max (Num 0) n)"
  by (auto simp: percentage_def js_max_def split: js_number.splits)

lemma latency_percentage: "percentage (calculateLatencyScore (Num a) (Num b) (Num c))"
proof -
  obtain s1 where s1: "penalty (Num a) 50 30 10 (Num 100) = Num s1" "70 \<le> s1" "s1 \<le> 100"
    using penalty_range [of 100 100 30 10 a 50] by auto
  obtain s2 where s2: "penalty (Num b) 200 30 20 (Num s1) = Num s2" "40 \<le> s2" "s2 \<le> 100"
    using penalty_range [of 70 s1 30 20 b 200] s1 by auto
  obtain s3 where s3: "penalty (Num c) 500 40 50 (Num s2) = Num s3" "0 \<le> s3" "s3 \<le> 100"
    using penalty_range [of 40 s2 40 50 c 500] s2 by auto
  show ?thesis
    using round_percentage [OF s3(2,3)] by (simp add: calculateLatencyScore_def s1 s2 s3 max_percentage)
qed

lemma throughput_percentage: "0 \<le> r \<Longrightarrow> percentage (calculateThroughputScore (Num r) n t)"
proof -
  assume r: "0 \<le> r"
  have "0 < to_double (500 * to_double (2 / 10))" by simp
  then have "0 \<le> to_double (to_double (r / to_double (500 * to_double (2 / 10))) * 100)"
    using r by (simp only: to_double_nonneg) (intro mult_nonneg_nonneg, simp_all)
  then show ?thesis
    by (auto simp: calculateThroughputScore_def Let_def js_round_def js_min_def percentage_def le_floor_iff)
qed

lemma error_percentage: "0 \<le> e \<Longrightarrow> percentage (calculateErrorScore (Num e))"
proof -
  assume e: "0 \<le> e"
  have "to_double (100 - to_double (e * 10)) \<le> 100" if "0 \<le> 100 - to_double (e * 10)"
    using that e to_double_le_int [of "100 - to_double (e * 10)" 100] by simp
  then show ?thesis
    by (auto simp: calculateErrorScore_def percentage_def js_max_def js_sub_def not_less)
qed

lemma overall_percentage:
  assumes "percentage a" and "percentage b" and "percentage c"
  shows "percentage (overall_score a b c)"
proof -
  from assms obtain x y z where n: "a = Num x" "b = Num y" "c = Num z"
    and r: "0 \<le> x" "x \<le> 100" "0 \<le> y" "y \<le> 100" "0 \<le> z" "z \<le> 100"
    by (auto simp: percentage_def split: js_number.splits)
  let ?xy = "to_double (x + y)" and ?sum = "to_double (to_double (x + y) + z)"
  have xy: "0 \<le> ?xy" "?xy \<le> 200"
    using r to_double_le_int [of "x + y" 200] by simp_all
  have sum: "0 \<le> ?sum" "?sum \<le> 300"
    using r xy to_double_le_int [of "?xy + z" 300] by simp_all
  have "0 \<le> to_double (?sum / 3)" "to_double (?sum / 3) \<le> 100"
    using sum to_double_le_int [of "?sum / 3" 100] by simp_all
  then show ?thesis by (simp add: overall_score_def n round_percentage)
qed

text \<open>For any measured latencies, a throughput and an error rate that are not negative, each
  score and the overall score is a percentage, so no rounding carries a score out of its
  scale.\<close>

lemma scores_are_percentages:
  assumes "0 \<le> rps" and "0 \<le> errorRate"
  shows "percentage (overall_score (calculateLatencyScore (Num p50) (Num p95) (Num p99))
      (calculateThroughputScore (Num rps) n t) (calculateErrorScore (Num errorRate))) \<and>
    percentage (calculateLatencyScore (Num p50) (Num p95) (Num p99)) \<and>
    percentage (calculateThroughputScore (Num rps) n t) \<and> percentage (calculateErrorScore (Num errorRate))"
  using assms by (simp add: overall_percentage latency_percentage throughput_percentage error_percentage)

lemma scores_are_percentages_witness:
  "percentage (overall_score (calculateLatencyScore (Num 60) (Num 250) (Num 1000))
     (calculateThroughputScore (Num 80) (Num 1000) (Num 60000)) (calculateErrorScore (Num 7)))"
  using scores_are_percentages [of 80 7 60 250 1000 "Num 1000" "Num 60000"] by simp

text \<open>A better score never has a worse rating, and \<open>NaN\<close> has the worst.\<close>

lemma rating_mono: "x \<le> y \<Longrightarrow> getEfficiencyRating (Num x) \<le> getEfficiencyRating (Num y)"
  by (simp add: getEfficiencyRating_def js_leq_def less_eq_rating_def)

lemma rating_NaN: "getEfficiencyRating NaN \<le> r"
  by (simp add: getEfficiencyRating_def js_leq_def less_eq_rating_def)

section \<open>Recommendations\<close>

text \<open>The report calls everything optimal exactly if every threshold is met, for numbers; and it
  always recommends something.\<close>

lemma recommendations_exact:
  "(AllOptimal \<in> set (generateRecommendations (Num p50) (Num p95) (Num p99) (Num rps) (Num err) (Num ok)) \<longleftrightarrow>
      p50 \<le> 50 \<and> p95 \<le> 200 \<and> p99 \<le> 1000 \<and> 100 \<le> rps \<and> err \<le> 1 \<and> 99 \<le> ok) \<and>
    generateRecommendations a b c d e f \<noteq> []"
  by (auto simp: generateRecommendations_def Let_def above_def)

end
