(* ===== verification/Analysis.thy ===== *)
theory Analysis
  imports Scoring
begin

text \<open>
  \<open>analyzeResults\<close> of \<open>loadtest/analyze-results.js\<close>: from a results file, of k6 or of a list of
  latencies, to the summary it saves.  The fields of the file that the script reads are numbers
  or absent; what is printed on the way is left out, except where printing throws.
\<close>

section \<open>The results file\<close>

text \<open>\<open>re_req_count\<close> and \<open>re_req_rate\<close> are \<open>http_reqs?.count\<close> and \<open>http_reqs?.rate\<close>, \<open>re_failed_count\<close> is
  \<open>http_req_failed?.count\<close>; of the scenarios only the totals matter.\<close>

record results =
  re_req_count :: "js_number option"
  re_req_rate :: "js_number option"
  re_totalRequests :: "js_number option"
  re_failed_count :: "js_number option"
  re_failedRequests :: "js_number option"
  re_http_req_duration :: "(string \<Rightarrow> js_number option) option"
  re_latencies :: "js_number list option"
  re_duration :: "js_number option"
  re_scenario_totals :: "js_number list"

record summary =
  sy_overallScore :: js_number
  sy_rating :: rating
  sy_totalRequests :: js_number
  sy_successRate :: js_number
  sy_rps :: js_number
  sy_avg :: js_number
  sy_p50 :: js_number
  sy_p90 :: js_number
  sy_p95 :: js_number
  sy_p99 :: js_number
  sy_max :: js_number
  sy_errorRate :: js_number
  sy_latency :: js_number
  sy_throughput :: js_number
  sy_errorResilience :: js_number
  sy_recommendations :: "recommendation list"

section \<open>Numbers and their texts\<close>

text \<open>\<open>a || b\<close>\<close>

definition or_else :: "js_number option \<Rightarrow> js_number option \<Rightarrow> js_number option" where
  "or_else a b = (case a of None \<Rightarrow> b | Some n \<Rightarrow> if n = Num 0 \<or> n = NaN then b else a)"

text \<open>The number that \<open>n.toFixed(d)\<close> stands for: halves go up, signs are put aside.\<close>

definition fixed :: "nat \<Rightarrow> js_number \<Rightarrow> js_number" where
  "fixed d n = (case n of
     Num x \<Rightarrow> if 10 ^ 21 \<le> \<bar>x\<bar> then n
              else let y = of_int \<lfloor>\<bar>x\<bar> * 10 ^ d + 1 / 2\<rfloor> / 10 ^ d in Num (to_double (if x < 0 then - y else y))
   | _ \<Rightarrow> n)"

definition average :: "js_number list \<Rightarrow> js_number" where
  "average xs = js_div (foldl js_add (Num 0) xs) (Num (of_nat (length xs)))"

text \<open>\<open>Math.max(...xs)\<close>\<close>

definition maximum :: "js_number list \<Rightarrow> js_number" where
  "maximum xs = foldl js_max (Infinite False) xs"

section \<open>The analysis\<close>

text \<open>\<open>duration.mean || (latencies?.reduce(...) / latencies.length) || 0\<close>: the length of a missing
  list throws.\<close>

definition average_latency :: "js_number option \<Rightarrow> js_number list option \<Rightarrow> js_number option" where
  "average_latency mean latencies =
     (case or_else mean None of
        Some n \<Rightarrow> Some n
      | None \<Rightarrow> (case latencies of
            None \<Rightarrow> None
          | Some xs \<Rightarrow> or_else (Some (average xs)) (Some (Num 0))))"

text \<open>A row of the scenario table: for a total that is not positive the rate is the number 0, which
  has no \<open>padStart\<close>.\<close>

definition scenario_prints :: "js_number \<Rightarrow> bool" where
  "scenario_prints n \<longleftrightarrow> js_less (Num 0) n"

definition durations :: "results \<Rightarrow> string \<Rightarrow> js_number option" where
  "durations r = (case re_http_req_duration r of None \<Rightarrow> (\<lambda>_. None) | Some d \<Rightarrow> d)"

definition percentile_of :: "results \<Rightarrow> string \<Rightarrow> rat \<Rightarrow> js_number option" where
  "percentile_of r name p = or_else (durations r name) (percentile (re_latencies r) p)"

text \<open>The average and the percentiles 50, 90, 95 and 99; \<open>None\<close> is a \<open>TypeError\<close>.\<close>

definition latency_figures ::
  "results \<Rightarrow> (js_number \<times> js_number \<times> js_number \<times> js_number \<times> js_number) option" where
  "latency_figures r =
     Option.bind (average_latency (durations r ''mean'') (re_latencies r)) (\<lambda>avgLatency.
     Option.bind (percentile_of r ''p(50)'' 50) (\<lambda>p50.
     Option.bind (percentile_of r ''p(90)'' 90) (\<lambda>p90.
     Option.bind (percentile_of r ''p(95)'' 95) (\<lambda>p95.
     Option.bind (percentile_of r ''p(99)'' 99) (\<lambda>p99.
     Some (avgLatency, p50, p90, p95, p99))))))"

definition analyzeResults :: "results \<Rightarrow> summary option" where
  "analyzeResults r =
     (let reqs = the (or_else (re_req_count r) (or_else (re_totalRequests r) (Some (Num 0))));
          failed = the (or_else (re_failed_count r) (or_else (re_failedRequests r) (Some (Num 0))));
          percent = (\<lambda>n. fixed 2 (js_mul (js_div n reqs) (Num 100)));
          successRate = (if js_less (Num 0) reqs then percent (js_sub reqs failed) else Num 0);
          maxLatency = the (or_else (durations r ''max'')
            (Some (maximum (case re_latencies r of None \<Rightarrow> [Num 0] | Some xs \<Rightarrow> xs))));
          rps = the (or_else (re_req_rate r)
            (Some (js_div reqs (the (or_else (re_duration r) (Some (Num 1)))))))
      in
      case latency_figures r of
        None \<Rightarrow> None
      | Some (avgLatency, p50, p90, p95, p99) \<Rightarrow>
          let latencyScore = calculateLatencyScore p50 p95 p99;
              throughputScore = calculateThroughputScore rps reqs
                (the (or_else (re_duration r) (Some (Num 60000))));
              errorRate = percent failed;
              errorScore = calculateErrorScore errorRate;
              overallScore = overall_score latencyScore throughputScore errorScore
          in
          if \<not> list_all scenario_prints (re_scenario_totals r) then None
          else Some
            \<lparr>sy_overallScore = overallScore, sy_rating = getEfficiencyRating overallScore,
             sy_totalRequests = reqs, sy_successRate = successRate, sy_rps = fixed 2 rps,
             sy_avg = fixed 2 avgLatency, sy_p50 = fixed 2 p50, sy_p90 = fixed 2 p90, sy_p95 = fixed 2 p95,
             sy_p99 = fixed 2 p99, sy_max = fixed 2 maxLatency, sy_errorRate = errorRate,
             sy_latency = latencyScore, sy_throughput = throughputScore, sy_errorResilience = errorScore,
             sy_recommendations = generateRecommendations p50 p95 p99 rps errorRate successRate\<rparr>)"

section \<open>When it fails\<close>

lemma percentile_defined:
  assumes "0 \<le> p" and "p \<le> 100" and "\<And>xs. arr = Some xs \<Longrightarrow> length xs < 2 ^ 53"
  shows "percentile arr p \<noteq> None"
proof (cases "arr = None \<or> arr = Some []")
  case False
  then obtain ys where "arr = Some ys" "ys \<noteq> []" by auto
  with percentile_element [OF this(2) assms(1,2)] assms(3) show ?thesis by simp
qed (auto simp: percentile_def)

lemma or_else_None [simp]: "or_else a b = None \<longleftrightarrow> b = None \<and> (a = None \<or> a = Some (Num 0) \<or> a = Some NaN)"
  by (auto simp: or_else_def split: option.split)

text \<open>The analysis fails exactly on a results file that has neither a mean latency nor a list of
  latencies, as the summaries of k6 are, or in which a scenario has no request.\<close>

lemma analysis_fails_iff:
  assumes "\<And>xs. re_latencies r = Some xs \<Longrightarrow> length xs < 2 ^ 53"
  shows "analyzeResults r = None \<longleftrightarrow>
    re_latencies r = None \<and>
      (\<forall>d n. re_http_req_duration r = Some d \<and> d ''mean'' = Some n \<longrightarrow> n = Num 0 \<or> n = NaN) \<or>
    (\<exists>n \<in> set (re_scenario_totals r). \<not> js_less (Num 0) n)"
proof -
  have p: "percentile_of r a p \<noteq> None" if "0 \<le> p" "p \<le> 100" for a p
    using percentile_defined [OF that assms] by (simp add: percentile_of_def)
  from p [of 50 "''p(50)''"] p [of 90 "''p(90)''"] p [of 95 "''p(95)''"] p [of 99 "''p(99)''"] have "latency_figures r = None \<longleftrightarrow> average_latency (durations r ''mean'') (re_latencies r) = None"
    by (auto simp: latency_figures_def bind_eq_None_conv)
  moreover have "analyzeResults r = None \<longleftrightarrow> latency_figures r = None \<or> \<not> list_all scenario_prints (re_scenario_totals r)"
    by (cases "latency_figures r") (auto simp: analyzeResults_def Let_def split: prod.split)
  moreover have "average_latency (durations r ''mean'') (re_latencies r) = None \<longleftrightarrow> re_latencies r = None \<and>
      (\<forall>n. durations r ''mean'' = Some n \<longrightarrow> n = Num 0 \<or> n = NaN)"
    by (cases "durations r ''mean''") (auto simp: average_latency_def or_else_def split: option.split)
  moreover have "durations r ''mean'' = Some n \<longleftrightarrow> (\<exists>d. re_http_req_duration r = Some d \<and> d ''mean'' = Some n)" for n
    by (auto simp: durations_def split: option.split)
  ultimately show ?thesis
    by (auto simp: scenario_prints_def list_all_iff)
qed

text \<open>A summary as k6 exports it: its mean is called \<open>avg\<close>.\<close>

definition k6_results :: results where
  "k6_results =
     \<lparr>re_req_count = Some (Num 900), re_req_rate = Some (Num 15), re_totalRequests = None,
      re_failed_count = Some (Num 9), re_failedRequests = None,
      re_http_req_duration = Some ([''avg'' \<mapsto> Num 30, ''p(90)'' \<mapsto> Num 60, ''p(95)'' \<mapsto> Num 80]),
      re_latencies = None, re_duration = None, re_scenario_totals = []\<rparr>"

lemma analysis_fails_iff_witness: "analyzeResults k6_results = None"
  using analysis_fails_iff [of k6_results] by (simp add: k6_results_def)

section \<open>What the summary says\<close>

lemma fixed_percentage: "percentage n \<Longrightarrow> percentage (fixed 2 n)"
proof -
  assume "percentage n"
  then obtain x where x: "n = Num x" "0 \<le> x" "x \<le> 100" by (auto simp: percentage_def split: js_number.splits)
  let ?k = "\<lfloor>x * 10 ^ 2 + 1 / 2\<rfloor>"
  have "0 \<le> ?k" "?k \<le> 10000" using x by (auto simp: le_floor_iff floor_le_iff)
  then have k: "0 \<le> of_int ?k / (10 ^ 2 :: rat)" "of_int ?k / (10 ^ 2 :: rat) \<le> of_int 100"
    by (simp_all add: divide_le_eq of_int_le_iff [of _ 10000, simplified] del: floor_le_numeral le_floor_iff)
  then have "to_double (of_int ?k / 10 ^ 2) \<le> of_int 100" by (rule to_double_le_int) simp
  moreover have "0 \<le> to_double (of_int ?k / 10 ^ 2)" unfolding to_double_nonneg by (rule k(1))
  moreover have "\<not> (10 ^ 21 \<le> x)" using x by simp
  ultimately show ?thesis using x by (simp add: fixed_def Let_def percentage_def)
qed

lemma ratio_percentage:
  assumes "a \<le> b" and "0 < b" and "b < 2 ^ 53"
  shows "percentage (fixed 2 (js_mul (js_div (Num (of_nat a)) (Num (of_nat b))) (Num 100)))"
proof -
  let ?q = "to_double (of_nat a / of_nat b)"
  have "of_nat a / of_nat b \<le> (of_int 1 :: rat)" using assms by (simp add: divide_le_eq)
  then have q: "0 \<le> ?q" "?q \<le> 1" using to_double_le_int [of "of_nat a / of_nat b" 1] by simp_all
  then have "0 \<le> to_double (?q * 100)" "to_double (?q * 100) \<le> 100"
    using to_double_le_int [of "?q * 100" 100] by simp_all
  then show ?thesis using assms(2) by (intro fixed_percentage) (simp add: percentage_def)
qed

lemma maximum_eq: "xs \<noteq> [] \<Longrightarrow> maximum (map Num xs) = Num (Max (set xs))"
proof -
  have "foldl js_max (Num x) (map Num xs) = Num (fold max xs x)" for x xs
    by (induction xs arbitrary: x) (simp_all add: js_max_def max_def)
  moreover assume "xs \<noteq> []"
  ultimately show ?thesis
    by (cases xs) (simp_all add: maximum_def js_max_def Max.set_eq_fold [symmetric] del: Max_insert)
qed

lemma fixed_mono:
  assumes "0 \<le> x" and "x \<le> y" and "y < 10 ^ 21"
  shows "js_leq (fixed 2 (Num x)) (fixed 2 (Num y))"
proof -
  have "\<lfloor>x * 10 ^ 2 + 1 / 2\<rfloor> \<le> \<lfloor>y * 10 ^ 2 + 1 / 2\<rfloor>" using assms(2) by (intro floor_mono) simp
  moreover have "0 \<le> \<lfloor>x * 10 ^ 2 + 1 / 2\<rfloor>" using assms(1) by (simp add: le_floor_iff)
  ultimately have "to_double (of_int \<lfloor>x * 10 ^ 2 + 1 / 2\<rfloor> / 10 ^ 2) \<le> to_double (of_int \<lfloor>y * 10 ^ 2 + 1 / 2\<rfloor> / 10 ^ 2)"
    by (intro to_double_mono divide_right_mono) simp_all
  with assms show ?thesis by (simp add: fixed_def Let_def js_leq_def)
qed

text \<open>Percentiles of measured values ascend to the maximum, as printed too.\<close>

lemma percentile_figures:
  assumes "xs \<noteq> []" and "length xs < 2 ^ 53" and "\<And>x. x \<in> set xs \<Longrightarrow> 0 \<le> x \<and> x < 10 ^ 21"
  obtains v where "\<And>p. 0 \<le> p \<Longrightarrow> p \<le> 100 \<Longrightarrow> percentile (Some (map Num xs)) p = Some (Num (v p))"
    and "\<And>p. 0 \<le> p \<Longrightarrow> p \<le> 100 \<Longrightarrow> v p \<in> set xs"
    and "\<And>p q. 0 \<le> p \<Longrightarrow> p \<le> q \<Longrightarrow> q \<le> 100 \<Longrightarrow> js_leq (fixed 2 (Num (v p))) (fixed 2 (Num (v q)))"
    and "\<And>p. 0 \<le> p \<Longrightarrow> p \<le> 100 \<Longrightarrow> js_leq (fixed 2 (Num (v p))) (fixed 2 (maximum (map Num xs)))"
proof
  define v where "v p = sort xs ! rank p (length xs)" for p
  have rank: "rank p (length xs) < length (sort xs)" if "0 \<le> p" "p \<le> 100" for p
    using that assms(1,2) by (auto intro!: rank_less)
  show v: "v p \<in> set xs" if "0 \<le> p" "p \<le> 100" for p
    using nth_mem [OF rank [OF that]] by (simp add: v_def)
  show "percentile (Some (map Num xs)) p = Some (Num (v p))" if "0 \<le> p" "p \<le> 100" for p
    using percentile_rank [OF assms(1) that assms(2)] by (simp add: v_def)
  show "js_leq (fixed 2 (Num (v p))) (fixed 2 (Num (v q)))" if "0 \<le> p" "p \<le> q" "q \<le> 100" for p q
  proof (rule fixed_mono)
    show "v p \<le> v q" using that rank [of q] unfolding v_def by (intro sorted_nth_mono rank_mono) simp_all
  qed (use that v [of p] v [of q] assms(3) in auto)
  show "js_leq (fixed 2 (Num (v p))) (fixed 2 (maximum (map Num xs)))" if "0 \<le> p" "p \<le> 100" for p
    using assms(1,3) v [OF that] by (simp add: maximum_eq) (intro fixed_mono, simp_all)
qed

text \<open>A results file as a load test collects it: the latencies, the totals and the duration.\<close>

definition collected_results :: "rat list \<Rightarrow> nat \<Rightarrow> nat \<Rightarrow> rat \<Rightarrow> js_number list \<Rightarrow> results" where
  "collected_results xs requests failures duration totals =
     \<lparr>re_req_count = None, re_req_rate = None, re_totalRequests = Some (Num (of_nat requests)),
      re_failed_count = None, re_failedRequests = Some (Num (of_nat failures)), re_http_req_duration = None,
      re_latencies = Some (map Num xs), re_duration = Some (Num duration), re_scenario_totals = totals\<rparr>"

text \<open>C37. On collected results the analysis yields a consistent summary: the percentiles ascend from the
  median to the maximum, and the success rate, the error rate and all scores are percentages.\<close>

theorem analysis_sound:
  assumes "xs \<noteq> []" and "length xs < 2 ^ 53" and "\<And>x. x \<in> set xs \<Longrightarrow> 0 \<le> x \<and> x < 10 ^ 21"
    and "failures \<le> requests" and "0 < requests" and "requests < 2 ^ 53" and "0 < duration"
    and "list_all scenario_prints totals"
  shows "\<exists>s. analyzeResults (collected_results xs requests failures duration totals) = Some s \<and>
    js_leq (sy_p50 s) (sy_p90 s) \<and> js_leq (sy_p90 s) (sy_p95 s) \<and> js_leq (sy_p95 s) (sy_p99 s) \<and>
    js_leq (sy_p99 s) (sy_max s) \<and>
    list_all percentage [sy_successRate s, sy_errorRate s, sy_latency s, sy_throughput s, sy_errorResilience s, sy_overallScore s]"
proof -
  let ?r = "collected_results xs requests failures duration totals"
  obtain v where v: "\<And>p. 0 \<le> p \<Longrightarrow> p \<le> 100 \<Longrightarrow> percentile (Some (map Num xs)) p = Some (Num (v p))"
    and steps: "\<And>p q. 0 \<le> p \<Longrightarrow> p \<le> q \<Longrightarrow> q \<le> 100 \<Longrightarrow> js_leq (fixed 2 (Num (v p))) (fixed 2 (Num (v q)))"
    and last: "\<And>p. 0 \<le> p \<Longrightarrow> p \<le> 100 \<Longrightarrow> js_leq (fixed 2 (Num (v p))) (fixed 2 (maximum (map Num xs)))"
    using percentile_figures [OF assms(1-3)] by metis
  have percentile: "percentile_of ?r n p = Some (Num (v p))" if "0 \<le> p" "p \<le> 100" for n p
    using v [OF that] by (simp add: percentile_of_def collected_results_def durations_def or_else_def)
  have "average_latency (durations ?r ''mean'') (re_latencies ?r) \<noteq> None"
    by (simp add: average_latency_def or_else_def collected_results_def durations_def)
  then obtain avg where "average_latency (durations ?r ''mean'') (re_latencies ?r) = Some avg" by blast
  then have figures: "latency_figures ?r = Some (avg, Num (v 50), Num (v 90), Num (v 95), Num (v 99))"
    by (simp add: latency_figures_def percentile)
  obtain rps where rps: "js_div (Num (of_nat requests)) (Num duration) = Num rps" "0 \<le> rps"
    using assms(7) by simp
  have counts: "js_sub (Num (of_nat requests)) (Num (of_nat failures)) = Num (of_nat (requests - failures))"
    using assms(4,6) to_double_int [of "int (requests - failures)"] by (simp add: js_sub_def of_nat_diff)
  have given: "re_req_count ?r = None" "re_req_rate ?r = None" "re_totalRequests ?r = Some (Num (of_nat requests))"
    "re_failed_count ?r = None" "re_failedRequests ?r = Some (Num (of_nat failures))"
    "re_latencies ?r = Some (map Num xs)" "re_duration ?r = Some (Num duration)"
    "re_scenario_totals ?r = totals" "durations ?r n = None" for n
    by (simp_all add: collected_results_def durations_def)
  have defaults: "the (or_else (Some (Num (of_nat requests))) a) = Num (of_nat requests)"
    "the (or_else (Some (Num (of_nat failures))) (Some (Num 0))) = Num (of_nat failures)"
    "the (or_else (Some (Num duration)) a) = Num duration" "or_else None a = a" for a
    using assms(5,7) by (simp_all add: or_else_def)
  let ?percent = "\<lambda>n. fixed 2 (js_mul (js_div (Num (of_nat n)) (Num (of_nat requests))) (Num 100))"
  have rates: "percentage (?percent (requests - failures))" "percentage (?percent failures)"
    by (rule ratio_percentage; use assms(4-6) in simp)+
  then obtain e where e: "?percent failures = Num e" "0 \<le> e"
    by (auto simp: percentage_def split: js_number.splits)
  have scores: "percentage (calculateLatencyScore (Num (v 50)) (Num (v 95)) (Num (v 99)))"
    "percentage (calculateThroughputScore (Num rps) (Num (of_nat requests)) (Num duration))"
    "percentage (calculateErrorScore (Num e))"
    by (simp_all add: latency_percentage throughput_percentage rps error_percentage e)
  show ?thesis
    unfolding analyzeResults_def Let_def figures given defaults option.case prod.case counts rps
    using assms(5,8) steps [of 50 90] steps [of 90 95] steps [of 95 99] last [of 99] rates scores
      overall_percentage [OF scores]
    by (simp add: e del: js_div.simps js_mul.simps)
qed

theorem analysis_sound_witness:
  "\<exists>s. analyzeResults (collected_results [30, 10, 20] 3 1 60000 [Num 2, Num 1]) = Some s \<and>
     js_leq (sy_p50 s) (sy_p90 s) \<and> percentage (sy_successRate s)"
proof -
  have "0 \<le> x \<and> x < 10 ^ 21" if "x \<in> set [30, 10, 20]" for x :: rat
    using that by auto
  from analysis_sound [where xs = "[30, 10, 20]", OF _ _ this, where failures = 1 and requests = 3
      and duration = 60000 and totals = "[Num 2, Num 1]"]
  show ?thesis by (auto simp: scenario_prints_def)
qed

end
