(* ===== verification/Results.thy ===== *)
theory Results
  imports Analysis Config
begin

text \<open>
  The program \<open>loadtest/analyze-results.js\<close> around the analysis: its argument, the file it reads and
  the file it writes.
\<close>

section \<open>The program\<close>

text \<open>What a file holds; a saved summary has none of the figures of a results file that the analysis
  cannot do without.\<close>

datatype file_content =
  ResultsFile results
| SummaryFile summary
| OtherText

type_synonym files = "string \<Rightarrow> file_content option"

text \<open>\<open>s.replace(pattern, replacement)\<close> with a string as the pattern: its first occurrence.\<close>

fun replace_first :: "string \<Rightarrow> string \<Rightarrow> string \<Rightarrow> string" where
  "replace_first pattern replacement [] = (if pattern = [] then replacement else [])"
| "replace_first pattern replacement (c # s) =
     (if starts_with pattern (c # s) then replacement @ drop (length pattern) (c # s)
      else c # replace_first pattern replacement s)"

definition analysis_path :: "string \<Rightarrow> string" where
  "analysis_path resultsPath = replace_first ''.json'' ''-analysis.json'' resultsPath"

text \<open>The exit status and the files afterwards; an exception ends the process with status 1.\<close>

definition analyze_file :: "string \<Rightarrow> files \<Rightarrow> nat \<times> files" where
  "analyze_file resultsPath fs =
     (case fs resultsPath of
        Some (ResultsFile data) \<Rightarrow>
          (case analyzeResults data of
             None \<Rightarrow> (1, fs)
           | Some s \<Rightarrow> (0, fs(analysis_path resultsPath \<mapsto> SummaryFile s)))
      | _ \<Rightarrow> (1, fs))"

definition analyze_main :: "string list \<Rightarrow> files \<Rightarrow> nat \<times> files" where
  "analyze_main argv fs =
     (case drop 2 argv of
        [] \<Rightarrow> (1, fs)
      | resultsPath # _ \<Rightarrow> analyze_file resultsPath fs)"

lemma replace_first_length:
  "pattern \<noteq> [] \<Longrightarrow> length (replace_first pattern replacement s) + (if contains pattern s then length pattern else 0) =
     length s + (if contains pattern s then length replacement else 0)"
proof (induction s)
  case (Cons c s)
  then show ?case
    by (auto simp: starts_with_def dest: arg_cong [where f = length])
qed simp

lemma replace_first_absent: "pattern \<noteq> [] \<Longrightarrow> \<not> contains pattern s \<Longrightarrow> replace_first pattern replacement s = s"
  by (induction s) auto

text \<open>The analysis of a file whose name contains \<open>.json\<close> leaves it as it is and writes one other file;
  under any other name the results are overwritten by the analysis.\<close>

lemma analysis_writes:
  assumes "fs path = Some (ResultsFile data)" and "analyzeResults data = Some s"
  shows "analyze_main [node, script, path] fs = (0, fs(analysis_path path \<mapsto> SummaryFile s)) \<and>
    (analysis_path path = path \<longleftrightarrow> \<not> contains ''.json'' path)"
proof -
  have "analysis_path path = path \<longleftrightarrow> \<not> contains ''.json'' path"
    using replace_first_length [of "''.json''" "''-analysis.json''" path] replace_first_absent [of "''.json''" path]
    by (auto simp: analysis_path_def)
  then show ?thesis using assms by (simp add: analyze_main_def analyze_file_def)
qed

lemma analysis_overwrites:
  "\<exists>s. analyze_main [''node'', ''analyze-results.js'', ''results''] [''results'' \<mapsto> ResultsFile (collected_results [30, 10, 20] 3 1 60000 [])] =
     (0, [''results'' \<mapsto> SummaryFile s])"
proof -
  let ?r = "collected_results [30, 10, 20] 3 1 60000 []"
  have "analyzeResults ?r \<noteq> None"
    using analysis_fails_iff [of ?r] by (simp add: collected_results_def)
  then obtain s where "analyzeResults ?r = Some s" by blast
  moreover have name: "analysis_path ''results'' = ''results''" by code_simp
  ultimately show ?thesis
    using analysis_writes [where path = "''results''" and fs = "[''results'' \<mapsto> ResultsFile ?r]"] by auto
qed

text \<open>A run that fails changes no file.\<close>

lemma analysis_keeps_failed: "fst (analyze_main argv fs) = 1 \<Longrightarrow> snd (analyze_main argv fs) = fs"
  by (auto simp: analyze_main_def analyze_file_def split: list.splits option.splits file_content.splits)

end
