(* ===== verification/LoadTest.thy ===== *)
theory LoadTest
  imports Calls
begin

text \<open>
  \<open>loadtest/load-test.js\<close>: the simulated customers, run against the server.  The network is a
  function from the identifier of a request and its contents to what comes back, so it may
  answer, fail or time out as it likes; a network is one of this server if every answer is
  one the server's handler can give in some states of the world.  The main program that starts
  the customers and reports on them is in \<open>LoadRun\<close>.
\<close>

section \<open>Answers of the server\<close>

text \<open>What a program can return when each of its actions finds whatever state the others left.\<close>

inductive may_return :: "('s, 'e, 'a) prog \<Rightarrow> 'a \<Rightarrow> bool" where
  may_return_now: "may_return (Return a) a"
| may_return_later: "may_return (fst (f s)) a \<Longrightarrow> may_return (Act f) a"

inductive_simps may_return_Return [simp]: "may_return (Return b) a"
inductive_simps may_return_Throw [simp]: "may_return (Throw e) a"

lemma may_return_run: "run p s = (Inr a, t) \<Longrightarrow> may_return p a"
proof (induction p arbitrary: s)
  case (Act f)
  then have "may_return (fst (f s)) a"
    by (intro Act.IH [of "f s"]) (auto simp: run_Act intro: fsts.intros)
  then show ?case by (rule may_return_later)
qed (auto intro: may_return_now)

record call =
  hc_method :: string
  hc_path :: string
  hc_authorization :: "string option"
  hc_body :: "json option"

text \<open>A request without a body has none to refuse.\<close>

definition request_of :: "call \<Rightarrow> request" where
  "request_of c =
     \<lparr>rq_endpoint = endpoint_of (hc_method c) (tl (split_on (CHR ''/'') (hc_path c))) (\<lambda>_. None),
      rq_authorization = hc_authorization c,
      rq_body = Some (case hc_body c of None \<Rightarrow> JNull | Some j \<Rightarrow> j)\<rparr>"

text \<open>
  What comes back for a request: an answer with its status, its text, the text parsed if it is
  JSON, and the latency; a network error; or a time-out, after which the destroyed request may
  report an error of its own.
\<close>

datatype outcome =
  Answered nat string "json option" js_number
| Failed string js_number
| TimedOut js_number "(string \<times> js_number) option"

type_synonym network = "string \<Rightarrow> call \<Rightarrow> outcome"

definition network_of_server :: "externals \<Rightarrow> node_order \<Rightarrow> network \<Rightarrow> bool" where
  "network_of_server E order net \<longleftrightarrow>
     (\<forall>i c st txt data l. net i c = Answered st txt data l \<longrightarrow>
        (\<exists>admitted dw r. may_return (serve E order admitted dw (request_of c)) r \<and> status r = st))"

section \<open>Metrics\<close>

record scenario_metrics =
  sm_success :: nat
  sm_failed :: nat
  sm_latencies :: "js_number list"

record metrics =
  totalRequests :: nat
  successfulRequests :: nat
  failedRequests :: nat
  errors :: "string \<Rightarrow> nat option"
  latencies :: "js_number list"
  scenarioMetrics :: "string \<Rightarrow> scenario_metrics option"
  startTime :: int
  endTime :: int
  activeUsers :: int
  tokens :: "string \<Rightarrow> json option"
  userData :: "string \<Rightarrow> (string \<times> string) option"
  date_ms :: int

type_synonym 'a task = "(metrics, string, 'a) prog"

definition bump :: "string \<Rightarrow> (string \<Rightarrow> nat option) \<Rightarrow> string \<Rightarrow> nat option" where
  "bump error m = m(error \<mapsto> (case m error of None \<Rightarrow> 0 | Some n \<Rightarrow> n) + 1)"

definition count_request :: "js_number \<Rightarrow> metrics \<Rightarrow> metrics" where
  "count_request latency m =
     m\<lparr>latencies := latencies m @ [latency], totalRequests := totalRequests m + 1\<rparr>"

definition count_error :: "string \<Rightarrow> metrics \<Rightarrow> metrics" where
  "count_error error m = m\<lparr>failedRequests := failedRequests m + 1, errors := bump error (errors m)\<rparr>"

definition succeeded :: "nat \<Rightarrow> bool" where
  "succeeded st \<longleftrightarrow> 200 \<le> st \<and> st < 300"

record result =
  rs_status :: nat
  rs_data :: "json option"

text \<open>The decimal text of a number.\<close>

fun nat_text :: "nat \<Rightarrow> string" where
  "nat_text n = (if n < 10 then [hex_digit n] else nat_text (n div 10) @ [hex_digit (n mod 10)])"

declare nat_text.simps [simp del]

definition count_answer :: "nat \<Rightarrow> string \<Rightarrow> js_number \<Rightarrow> metrics \<Rightarrow> metrics" where
  "count_answer st txt latency m =
     (let m = count_request latency m in
      if succeeded st then m\<lparr>successfulRequests := successfulRequests m + 1\<rparr>
      else count_error (''HTTP '' @ nat_text st @ '': '' @ txt) m)"

text \<open>One exchange: the counters are updated in the callbacks of the request.  A token that the server
  issued is a string.\<close>

definition api_call :: "string \<Rightarrow> string \<Rightarrow> json option \<Rightarrow> json option \<Rightarrow> call" where
  "api_call method path content token =
     \<lparr>hc_method = method, hc_path = ''/api/v1'' @ path,
      hc_authorization = (if truthy token then Some (''Bearer '' @ json_text token) else None),
      hc_body = content\<rparr>"

definition http_request ::
  "network \<Rightarrow> string \<Rightarrow> string \<Rightarrow> string \<Rightarrow> json option \<Rightarrow> json option \<Rightarrow> result task" where
  "http_request net requestId method path content token =
     (case net requestId (api_call method path content token) of
        Answered st txt data latency \<Rightarrow>
          await (modify (count_answer st txt latency)) (\<lambda>_.
          Return \<lparr>rs_status = st, rs_data = (if succeeded st then data else None)\<rparr>)
      | Failed error latency \<Rightarrow>
          await (modify (count_error error \<circ> count_request latency)) (\<lambda>_. Throw error)
      | TimedOut latency destroyed \<Rightarrow>
          await (modify (count_error ''timeout'' \<circ> count_request latency)) (\<lambda>_.
          await (case destroyed of
                   None \<Rightarrow> Return ()
                 | Some (error, latency) \<Rightarrow> modify (count_error error \<circ> count_request latency)) (\<lambda>_.
          Throw ''timeout'')))"

section \<open>Scenarios\<close>

text \<open>The random values a scenario draws.\<close>

record load_draw =
  ld_request :: string
  ld_id :: bytes
  ld_key :: bytes
  ld_phrase :: bytes
  ld_uuid :: string

definition post_fields :: "(string \<times> string) list \<Rightarrow> json option" where
  "post_fields fs = Some (JObj (map (\<lambda>(k, v). (k, JStr v)) fs))"

definition registerUser :: "network \<Rightarrow> load_draw \<Rightarrow> string \<Rightarrow> result task" where
  "registerUser net dw userId =
     (let chhayaId = to_hex (ld_id dw); publicKey = to_hex (ld_key dw); deviceId = ld_uuid dw in
      await (http_request net (ld_request dw) ''POST'' ''/auth/register'' (post_fields
        [(''chhayaId'', chhayaId), (''displayName'', ''User'' @ userId), (''publicKey'', publicKey),
         (''encryptedPrivateKey'', ''encrypted''), (''recoveryPhraseHash'', to_hex (ld_phrase dw)),
         (''deviceId'', deviceId), (''deviceName'', ''LoadTest Device''), (''platform'', ''android'')]) None) (\<lambda>res.
      let token = json_prop ''token'' (rs_data res) in
      await (if rs_status res = 201 \<and> truthy token
             then modify (\<lambda>m. m\<lparr>tokens := (tokens m)(userId := token),
                                userData := (userData m)(userId \<mapsto> (chhayaId, deviceId))\<rparr>)
             else Return ()) (\<lambda>_.
      Return res)))"

definition loginUser :: "network \<Rightarrow> load_draw \<Rightarrow> string \<Rightarrow> result task" where
  "loginUser net dw userId =
     await (gets (\<lambda>m. userData m userId)) (\<lambda>known.
     case known of
       None \<Rightarrow> Return \<lparr>rs_status = 400, rs_data = None\<rparr>
     | Some (chhayaId, deviceId) \<Rightarrow>
         await (http_request net (ld_request dw) ''POST'' ''/auth/login'' (post_fields
           [(''chhayaId'', chhayaId), (''recoveryPhraseHash'', to_hex (ld_phrase dw)), (''deviceId'', deviceId),
            (''deviceName'', ''LoadTest Device''), (''platform'', ''android'')]) None) (\<lambda>res.
         let token = json_prop ''token'' (rs_data res) in
         await (if rs_status res = 200 \<and> truthy token
                then modify (\<lambda>m. m\<lparr>tokens := (tokens m)(userId := token)\<rparr>)
                else Return ()) (\<lambda>_.
         Return res)))"

text \<open>The check at the head of the other scenarios.\<close>

definition with_session :: "string \<Rightarrow> (json option \<Rightarrow> result task) \<Rightarrow> result task" where
  "with_session userId k =
     await (gets (\<lambda>m. tokens m userId)) (\<lambda>token.
     if \<not> truthy token then Return \<lparr>rs_status = 401, rs_data = None\<rparr> else k token)"

definition getProfile :: "network \<Rightarrow> load_draw \<Rightarrow> string \<Rightarrow> result task" where
  "getProfile net dw userId =
     with_session userId (http_request net (ld_request dw) ''GET'' ''/users/me'' None)"

definition addContact :: "network \<Rightarrow> load_draw \<Rightarrow> string \<Rightarrow> result task" where
  "addContact net dw userId =
     with_session userId (http_request net (ld_request dw) ''POST'' ''/contacts''
       (post_fields [(''chhayaId'', ''chhaya_'' @ to_hex (ld_id dw)), (''displayName'', ''Contact'' @ userId)]))"

definition getContacts :: "network \<Rightarrow> load_draw \<Rightarrow> string \<Rightarrow> result task" where
  "getContacts net dw userId =
     with_session userId (http_request net (ld_request dw) ''GET'' ''/contacts'' None)"

definition createConversation :: "network \<Rightarrow> load_draw \<Rightarrow> string \<Rightarrow> result task" where
  "createConversation net dw userId =
     with_session userId (http_request net (ld_request dw) ''POST'' ''/conversations''
       (Some (JObj [(''type'', JStr ''direct''), (''participantIds'', JArr [JStr (ld_uuid dw)])])))"

definition getConversations :: "network \<Rightarrow> load_draw \<Rightarrow> string \<Rightarrow> result task" where
  "getConversations net dw userId =
     with_session userId (http_request net (ld_request dw) ''GET'' ''/conversations'' None)"

definition sendMessage :: "network \<Rightarrow> load_draw \<Rightarrow> string \<Rightarrow> result task" where
  "sendMessage net dw userId =
     with_session userId (\<lambda>token.
     await (gets date_ms) (\<lambda>now.
     http_request net (ld_request dw) ''POST'' ''/messages'' (post_fields
       [(''conversationId'', ld_uuid dw),
        (''content'', ''Test message from user '' @ userId @ '' at '' @ nat_text (nat now)),
        (''messageType'', ''text'')]) token))"

definition getMessages :: "network \<Rightarrow> load_draw \<Rightarrow> string \<Rightarrow> result task" where
  "getMessages net dw userId =
     with_session userId (http_request net (ld_request dw) ''GET'' (''/messages/'' @ ld_uuid dw) None)"

section \<open>Simulated users\<close>

record scenario =
  sc_name :: string
  sc_weight :: rat
  sc_fn :: "network \<Rightarrow> load_draw \<Rightarrow> string \<Rightarrow> result task"

definition scenarios :: "scenario list" where
  "scenarios =
     [\<lparr>sc_name = ''register'', sc_weight = 15, sc_fn = registerUser\<rparr>,
      \<lparr>sc_name = ''login'', sc_weight = 20, sc_fn = loginUser\<rparr>,
      \<lparr>sc_name = ''getProfile'', sc_weight = 10, sc_fn = getProfile\<rparr>,
      \<lparr>sc_name = ''addContact'', sc_weight = 15, sc_fn = addContact\<rparr>,
      \<lparr>sc_name = ''getContacts'', sc_weight = 10, sc_fn = getContacts\<rparr>,
      \<lparr>sc_name = ''createConversation'', sc_weight = 10, sc_fn = createConversation\<rparr>,
      \<lparr>sc_name = ''getConversations'', sc_weight = 10, sc_fn = getConversations\<rparr>,
      \<lparr>sc_name = ''sendMessage'', sc_weight = 5, sc_fn = sendMessage\<rparr>,
      \<lparr>sc_name = ''getMessages'', sc_weight = 5, sc_fn = getMessages\<rparr>]"

fun select_scenario :: "rat \<Rightarrow> rat \<Rightarrow> scenario list \<Rightarrow> scenario option" where
  "select_scenario rand cumulative [] = None"
| "select_scenario rand cumulative (s # ss) =
     (let cumulative = cumulative + sc_weight s in
      if rand \<le> cumulative then Some s else select_scenario rand cumulative ss)"

definition track_scenario :: "string \<Rightarrow> js_number \<Rightarrow> nat \<Rightarrow> metrics \<Rightarrow> metrics" where
  "track_scenario name latency st m =
     (let sm = (case scenarioMetrics m name of
                  None \<Rightarrow> \<lparr>sm_success = 0, sm_failed = 0, sm_latencies = []\<rparr> | Some sm \<Rightarrow> sm);
          sm = sm\<lparr>sm_latencies := sm_latencies sm @ [latency]\<rparr>;
          sm = (if succeeded st then sm\<lparr>sm_success := sm_success sm + 1\<rparr> else sm\<lparr>sm_failed := sm_failed sm + 1\<rparr>)
      in m\<lparr>scenarioMetrics := (scenarioMetrics m)(name \<mapsto> sm)\<rparr>)"

text \<open>What an iteration draws: the selecting number, the values of the scenario, its latency.\<close>

type_synonym round_draw = "rat \<times> load_draw \<times> js_number"

fun user_round :: "network \<Rightarrow> string \<Rightarrow> round_draw \<Rightarrow> unit task" where
  "user_round net userId (rand, dw, latency) =
     (case select_scenario rand 0 scenarios of
        None \<Rightarrow> Return ()
      | Some s \<Rightarrow>
          await (try_catch (sc_fn s net dw userId) (\<lambda>_. Return \<lparr>rs_status = 0, rs_data = None\<rparr>)) (\<lambda>result.
          modify (track_scenario (sc_name s) latency (rs_status result))))"

text \<open>The loop, with the draws of as many iterations as there may be.\<close>

fun user_loop :: "network \<Rightarrow> string \<Rightarrow> int \<Rightarrow> round_draw list \<Rightarrow> unit task" where
  "user_loop net userId deadline [] = Return ()"
| "user_loop net userId deadline (r # rs) =
     await (gets date_ms) (\<lambda>now.
     if now < deadline then await (user_round net userId r) (\<lambda>_. user_loop net userId deadline rs)
     else Return ())"

definition finally_do :: "'a task \<Rightarrow> unit task \<Rightarrow> 'a task" where
  "finally_do p q = await (try_catch p (\<lambda>e. await q (\<lambda>_. Throw e))) (\<lambda>a. await q (\<lambda>_. Return a))"

definition simulateUser ::
  "network \<Rightarrow> int \<Rightarrow> load_draw \<Rightarrow> load_draw \<Rightarrow> round_draw list \<Rightarrow> string \<Rightarrow> unit task" where
  "simulateUser net duration dw1 dw2 rs userId =
     await (modify (\<lambda>m. m\<lparr>activeUsers := activeUsers m + 1\<rparr>)) (\<lambda>_.
     finally_do
       (await (registerUser net dw1 userId) (\<lambda>_.
        await (loginUser net dw2 userId) (\<lambda>_.
        await (gets (\<lambda>m. startTime m + duration * 1000)) (\<lambda>deadline.
        user_loop net userId deadline rs))))
       (modify (\<lambda>m. m\<lparr>activeUsers := activeUsers m - 1\<rparr>)))"

text \<open>The gate of the main program: its exit status, or \<open>None\<close> where it goes on to start the users.\<close>

definition health_gate :: "network \<Rightarrow> string \<Rightarrow> nat option task" where
  "health_gate net requestId = try_catch
     (await (modify (\<lambda>m. m\<lparr>startTime := date_ms m\<rparr>)) (\<lambda>_.
      await (http_request net requestId ''GET'' ''/health'' None None) (\<lambda>health.
      Return (if rs_status health \<noteq> 200 then Some 1 else None))))
     (\<lambda>_. Return (Some 1))"

text \<open>The exit status after a run, from the rate of successful requests.\<close>

definition exit_status :: "metrics \<Rightarrow> nat" where
  "exit_status m =
     (if js_leq (Num (to_double (95 / 100)))
           (js_div (Num (of_nat (successfulRequests m))) (Num (of_nat (totalRequests m))))
      then 0 else 1)"

section \<open>What this server answers\<close>

lemma may_return_refused:
  assumes "may_return (serve E order admitted dw rq) r" and "rq_body rq = Some json"
    and "route E order dw rq json = Throw ZodError \<or> route E order dw rq json = Return x"
    and "status x \<in> {400, 404}"
  shows "status r \<in> {400, 404, 429}"
  using assms by (auto simp: serve_def errorHandler_def reply_def split: if_splits)

lemma refused_by_server:
  assumes "network_of_server E order net" and "net i c = Answered st txt data l"
    and "\<And>dw. route E order dw (request_of c) (case hc_body c of None \<Rightarrow> JNull | Some j \<Rightarrow> j) = Return x"
    and "status x \<in> {400, 404}"
  shows "st \<in> {400, 404, 429}"
proof -
  obtain admitted dw r where "may_return (serve E order admitted dw (request_of c)) r" "status r = st"
    using assms(1,2) unfolding network_of_server_def by blast
  with may_return_refused [OF _ _ _ assms(4)] assms(3) show ?thesis
    by (force simp: request_of_def)
qed

lemma no_challenge_id:
  assumes "\<And>v. (''challengeId'', v) \<notin> set fs"
  shows "registerSchema E (JObj (map (\<lambda>(k, v). (k, JStr v)) fs)) = None"
    and "loginSchema E (JObj (map (\<lambda>(k, v). (k, JStr v)) fs)) = None"
proof -
  have "map_of (map (\<lambda>(k, v). (k, JStr v)) fs) ''challengeId'' = None"
    using assms by (auto simp: map_of_eq_None_iff)
  then show "registerSchema E (JObj (map (\<lambda>(k, v). (k, JStr v)) fs)) = None"
    and "loginSchema E (JObj (map (\<lambda>(k, v). (k, JStr v)) fs)) = None"
    by (simp_all add: registerSchema_def loginSchema_def required_def)
qed

lemmas route_simps = api_call_def route_def request_of_def endpoint_of_def parsed_def reply_def post_fields_def

lemma register_refused:
  assumes "network_of_server E order net" and "\<And>v. (''challengeId'', v) \<notin> set fs"
    and "net i (api_call ''POST'' ''/auth/register'' (post_fields fs) token) = Answered st txt data l"
  shows "st \<in> {400, 404, 429}"
  by (rule refused_by_server [OF assms(1,3), where x = "\<lparr>status = 400, body = BInvalidInput\<rparr>"])
    (simp_all add: route_simps auth_register_def no_challenge_id [OF assms(2)])

lemma login_unproved:
  assumes "network_of_server E order net" and "\<And>v. (''challengeId'', v) \<notin> set fs"
    and "net i (api_call ''POST'' ''/auth/login'' (post_fields fs) token) = Answered st txt data l"
  shows "st \<in> {400, 404, 429}"
  by (rule refused_by_server [OF assms(1,3), where x = "\<lparr>status = 400, body = BInvalidInput\<rparr>"])
    (simp_all add: route_simps auth_login_def no_challenge_id [OF assms(2)])

lemma health_unrouted:
  assumes "network_of_server E order net"
    and "net i (api_call ''GET'' ''/health'' None token) = Answered st txt data l"
  shows "st \<in> {400, 404, 429}"
  by (rule refused_by_server [OF assms, where x = "\<lparr>status = 404, body = BNoRoute\<rparr>"])
    (simp_all add: route_simps)

section \<open>Accounting\<close>

definition balanced :: "metrics \<Rightarrow> bool" where
  "balanced m \<longleftrightarrow>
     totalRequests m = successfulRequests m + failedRequests m \<and> length (latencies m) = totalRequests m"

definition steady :: "metrics \<Rightarrow> metrics \<Rightarrow> bool" where
  "steady m m' \<longleftrightarrow> tokens m' = tokens m \<and> userData m' = userData m \<and> (balanced m \<longrightarrow> balanced m')"

definition successes :: "string \<Rightarrow> metrics \<Rightarrow> nat" where
  "successes name m = (case scenarioMetrics m name of None \<Rightarrow> 0 | Some sm \<Rightarrow> sm_success sm)"

definition idle :: "metrics \<Rightarrow> metrics \<Rightarrow> bool" where
  "idle m m' \<longleftrightarrow> steady m m' \<and>
     (tokens m = Map.empty \<longrightarrow> successfulRequests m' = successfulRequests m \<and> (\<forall>n. successes n m' = successes n m))"

lemma steady_refl [simp]: "steady m m"
  by (simp add: steady_def)

lemma idle_refl [simp]: "idle m m"
  by (simp add: idle_def)

lemma idle_trans: "idle m m' \<Longrightarrow> idle m' m'' \<Longrightarrow> idle m m''"
  by (auto simp: idle_def steady_def)

lemma steady_count_error: "steady m (count_error e (count_request l m))"
  by (auto simp: steady_def count_error_def count_request_def balanced_def)

lemma steady_count_answer: "steady m (count_answer st txt l m)"
  by (auto simp: steady_def count_answer_def count_error_def count_request_def balanced_def Let_def)

lemma steady_track: "steady m (track_scenario n l st m)"
  by (simp add: steady_def track_scenario_def Let_def balanced_def)

lemma idle_count_error: "idle m (count_error e (count_request l m))"
  by (simp add: idle_def steady_count_error) (simp add: count_error_def count_request_def successes_def)

lemma idle_count_answer: "\<not> succeeded st \<Longrightarrow> idle m (count_answer st txt l m)"
  by (simp add: idle_def steady_count_answer)
    (simp add: count_answer_def count_error_def count_request_def successes_def)

lemma idle_track: "\<not> succeeded st \<Longrightarrow> idle m (track_scenario n l st m)"
  by (simp add: idle_def steady_track)
    (auto simp: track_scenario_def successes_def Let_def split: option.split)

lemma steady_request: "guar steady (http_request net i method path content token)"
  unfolding http_request_def
  by (auto intro!: guar_intros steady_count_answer steady_count_error simp: comp_def split: outcome.split option.split)

lemma rg_modify [simp]: "rg R G Q (modify f) s \<longleftrightarrow> (\<forall>t. R s t \<longrightarrow> G t (f t) \<and> Q (Inr ()) (f t))"
  by (simp add: modify_def rg_Act)

lemma rg_gets [simp]: "rg R G Q (gets f) s \<longleftrightarrow> (\<forall>t. R s t \<longrightarrow> G t t \<and> Q (Inr (f t)) t)"
  by (simp add: gets_def rg_Act)

text \<open>The result of a scenario that a user without a token can reach.\<close>

definition unsuccessful :: "string + result \<Rightarrow> metrics \<Rightarrow> bool" where
  "unsuccessful r m \<longleftrightarrow> (\<forall>x. tokens m = Map.empty \<and> r = Inr x \<longrightarrow> \<not> succeeded (rs_status x))"

lemma rg_tokened:
  assumes "guar steady p" and "tokens m \<noteq> Map.empty"
  shows "rg idle idle (\<lambda>_ m'. tokens m' \<noteq> Map.empty) p m"
  using assms
proof (induction arbitrary: m)
  case (guar_Act f)
  have "idle t (snd (f t)) \<and> rg idle idle (\<lambda>_ m'. tokens m' \<noteq> Map.empty) (fst (f t)) (snd (f t))" if "idle m t" for t
  proof -
    from that guar_Act.prems have "tokens t \<noteq> Map.empty" by (simp add: idle_def steady_def)
    moreover from this guar_Act.hyps(1) [of t] have "tokens (snd (f t)) \<noteq> Map.empty" by (simp add: steady_def)
    moreover from calculation guar_Act.hyps(1) [of t] have "idle t (snd (f t))" by (simp add: idle_def)
    ultimately show ?thesis using guar_Act.IH by blast
  qed
  then show ?case by (simp add: rg_Act)
qed simp_all

lemma rg_with_session:
  assumes "\<And>token. guar steady (k token)"
  shows "rg idle idle unsuccessful (with_session userId k) m"
proof (cases "tokens m = Map.empty")
  case True
  then show ?thesis
    by (simp add: with_session_def rg_await) (auto simp: idle_def steady_def unsuccessful_def succeeded_def)
next
  case False
  have "guar steady (with_session userId k)"
    unfolding with_session_def by (auto intro!: guar_intros assms)
  from rg_mono [OF rg_tokened [OF this False]] show ?thesis
    by (auto simp: unsuccessful_def)
qed

lemma rg_refused:
  assumes "\<And>st txt data l. net i (api_call method path content token) = Answered st txt data l \<Longrightarrow>
      st \<in> {400, 404, 429}"
  shows "rg idle idle (\<lambda>r _. \<forall>x. r = Inr x \<longrightarrow> \<not> succeeded (rs_status x)) (http_request net i method path content token) m"
  using assms unfolding http_request_def
  by (cases "net i (api_call method path content token)")
    (auto simp: rg_await idle_count_error succeeded_def intro!: idle_count_answer split: option.split)

text \<open>The eight requests are refused or not sent.\<close>

lemma rg_registerUser:
  assumes "network_of_server E order net"
  shows "rg idle idle unsuccessful (registerUser net dw userId) m"
  unfolding registerUser_def Let_def rg_await
  by (rule rg_mono [OF rg_refused], rule register_refused [OF assms, rotated])
    (auto simp: unsuccessful_def succeeded_def split: sum.split)

lemma rg_loginUser:
  assumes "network_of_server E order net"
  shows "rg idle idle unsuccessful (loginUser net dw userId) m"
proof -
  have "rg idle idle unsuccessful
    (await (http_request net i ''POST'' ''/auth/login'' (post_fields
           [(''chhayaId'', c), (''recoveryPhraseHash'', h), (''deviceId'', d),
            (''deviceName'', ''LoadTest Device''), (''platform'', ''android'')]) None) (\<lambda>res.
      await (if rs_status res = 200 \<and> P res then q res else Return ()) (\<lambda>_. Return res))) m" for i c h d P q m
    unfolding rg_await
    by (rule rg_mono [OF rg_refused], rule login_unproved [OF assms, rotated])
      (auto simp: unsuccessful_def succeeded_def split: sum.split)
  then show ?thesis
    by (auto simp: loginUser_def Let_def rg_await unsuccessful_def succeeded_def split: option.split)
qed

lemma rg_scenarios:
  assumes "network_of_server E order net" and "s \<in> set scenarios"
  shows "rg idle idle unsuccessful (sc_fn s net dw userId) m"
  using assms(2)
  by (auto simp: scenarios_def getProfile_def addContact_def getContacts_def createConversation_def
      getConversations_def sendMessage_def getMessages_def
      intro!: rg_registerUser [OF assms(1)] rg_loginUser [OF assms(1)] rg_with_session guar_intros steady_request)

lemma select_scenario_member: "select_scenario rand c ss = Some s \<Longrightarrow> s \<in> set ss"
  by (induction rand c ss rule: select_scenario.induct) (auto simp: Let_def split: if_splits)

lemma idle_track_unsuccessful:
  assumes "unsuccessful (Inr x) m" and "idle m t"
  shows "idle t (track_scenario name l (rs_status x) t)"
proof (cases "tokens t = Map.empty")
  case True
  with assms have "\<not> succeeded (rs_status x)" by (simp add: unsuccessful_def idle_def steady_def)
  then show ?thesis by (rule idle_track)
qed (simp add: idle_def steady_track)

lemma rg_round:
  assumes "network_of_server E order net"
  shows "rg idle idle (\<lambda>_ _. True) (user_round net userId r) m"
proof (cases r)
  case (fields rand dw latency)
  show ?thesis
  proof (cases "select_scenario rand 0 scenarios")
    case (Some s)
    show ?thesis
      unfolding fields user_round.simps Some option.case rg_await rg_try_catch
      by (rule rg_mono [OF rg_scenarios [OF assms select_scenario_member [OF Some]]])
        (auto simp: idle_track succeeded_def intro: idle_track_unsuccessful split: sum.split)
  qed (simp add: fields)
qed

lemma rg_true: "(\<And>a m. rg R G (\<lambda>_ _. True) (k a) m) \<Longrightarrow> rg R G (\<lambda>_ _. True) p m \<Longrightarrow> rg R G (\<lambda>_ _. True) (await p k) m"
  unfolding rg_await by (erule rg_mono) (simp split: sum.split)

lemma rg_loop:
  assumes "network_of_server E order net"
  shows "rg idle idle (\<lambda>_ _. True) (user_loop net userId e rs) m"
  by (induction rs arbitrary: m) (auto simp del: user_round.simps intro!: rg_true rg_round [OF assms])

lemma idle_active: "idle m (m\<lparr>activeUsers := n\<rparr>)"
  by (simp add: idle_def steady_def balanced_def successes_def)

lemma rg_simulateUser:
  assumes "network_of_server E order net"
  shows "rg idle idle (\<lambda>_ _. True) (simulateUser net duration dw1 dw2 rs userId) m"
proof -
  have "rg idle idle (\<lambda>_ _. True) (await (registerUser net dw1 userId) (\<lambda>_.
        await (loginUser net dw2 userId) (\<lambda>_.
        await (gets (\<lambda>m. startTime m + duration * 1000)) (\<lambda>deadline.
        user_loop net userId deadline rs)))) m" for m
    by (intro rg_true rg_loop [OF assms] rg_mono [OF rg_registerUser [OF assms]] rg_mono [OF rg_loginUser [OF assms]])
      simp_all
  from rg_mono [OF this] show ?thesis
    unfolding simulateUser_def finally_do_def
    by (auto simp: rg_await rg_try_catch idle_active split: sum.split)
qed

section \<open>The customers\<close>

inductive customer :: "network \<Rightarrow> int \<Rightarrow> unit task \<Rightarrow> bool" for net duration where
  a_customer: "customer net duration (simulateUser net duration dw1 dw2 rs userId)"

inductive load_time :: "metrics \<Rightarrow> metrics \<Rightarrow> bool" where
  load_time_passes: "date_ms m \<le> t \<Longrightarrow> load_time m (m\<lparr>date_ms := t\<rparr>)"

lemma idle_load_time: "load_time m m' \<Longrightarrow> idle m m'"
  by (auto elim!: load_time.cases simp: idle_def steady_def balanced_def successes_def)

definition initial_metrics :: metrics where
  "initial_metrics =
     \<lparr>totalRequests = 0, successfulRequests = 0, failedRequests = 0, errors = Map.empty, latencies = [],
      scenarioMetrics = Map.empty, startTime = 0, endTime = 0, activeUsers = 0, tokens = Map.empty,
      userData = Map.empty, date_ms = 0\<rparr>"

interpretation customers: interference idle load_time
  "\<lambda>p. network_of_server E order net \<and> customer net duration p" "\<lambda>_ _. True" for E order net duration
  by unfold_locales
    (auto intro: idle_trans idle_load_time elim!: customer.cases dest: rg_simulateUser)

definition sample_load :: load_draw where
  "sample_load =
     \<lparr>ld_request = ''r'', ld_id = replicate 33 5, ld_key = replicate 33 7, ld_phrase = replicate 32 9,
      ld_uuid = uuid (CHR ''f'')\<rparr>"

text \<open>A network that passes every request to the sample server.\<close>

definition sample_net :: network where
  "sample_net i c =
     (case run (serve sample_externals id True sample_draw (request_of c)) sample_world of
        (Inr r, _) \<Rightarrow> Answered (status r) [] None (Num 3)
      | (Inl e, _) \<Rightarrow> Failed ''ECONNRESET'' (Num 3))"

lemma sample_net_ok: "network_of_server sample_externals id sample_net"
  unfolding network_of_server_def sample_net_def
  by (auto split: sum.splits prod.splits dest!: may_return_run)



text \<open>So even a run that got as far as its customers would end as a failure.\<close>

lemma locked_out_exit:
  assumes "network_of_server E order net" and "pool_steps load_time (customer net duration) (initial_metrics, []) (m', ps)"
  shows "exit_status m' = 1"
proof -
  have "successfulRequests m' = 0"
    using customers.reachable_R [of E order net duration initial_metrics m' ps] assms
    by (simp add: idle_def initial_metrics_def)
  moreover have zero: "to_double 0 = 0" by simp
  ultimately show ?thesis by (auto simp: exit_status_def js_leq_def not_less zero)
qed

text \<open>The load test never gets as far as its customers: it asks for the health check under the
  prefix of the router, where the server has no such route, so whatever the network does it
  exits with status 1.\<close>

lemma load_test_exits:
  assumes "network_of_server E order net"
  shows "fst (run (health_gate net i) m) = Inr (Some 1)"
  by (cases "net i (api_call ''GET'' ''/health'' None None)")
    (auto simp: health_gate_def http_request_def run_simps split: option.splits dest!: health_unrouted [OF assms])

lemma load_test_exits_witness:
  "fst (run (health_gate sample_net ''r'') initial_metrics) = Inr (Some 1)"
  by (rule load_test_exits [OF sample_net_ok])

text \<open>A scenario is always found, so the loop of a customer never spins without waiting.\<close>

lemma scenario_selected: "rand \<le> 100 \<Longrightarrow> \<exists>s. select_scenario rand 0 scenarios = Some s \<and> s \<in> set scenarios"
proof -
  assume "rand \<le> 100"
  then have "select_scenario rand 0 scenarios \<noteq> None"
    by (simp add: scenarios_def Let_def)
  then show ?thesis by (auto dest: select_scenario_member)
qed

end
