(* ===== verification/LoadRun.thy ===== *)
theory LoadRun
  imports LoadTest Analysis Config
begin

text \<open>
  The main program of \<open>loadtest/load-test.js\<close>: its command line, the ramp-up that starts the
  customers of \<open>LoadTest\<close> one by one, the wait for the end, the printed report and the exit
  status, as a step relation on the run.  The customers run interleaved, each step one of their
  actions; the clock may advance between any two steps, and a timer fires when it is due or later.
\<close>

section \<open>Command line\<close>

record load_options =
  lo_users :: int
  lo_duration :: int
  lo_rampup :: int
  lo_host :: string

definition argument :: "string \<Rightarrow> string list \<Rightarrow> string option" where
  "argument name argv =
     map_option (\<lambda>arg. split_on (CHR ''='') arg ! 1) (find (starts_with (''--'' @ name @ ''='')) argv)"

definition load_options_of :: "string list \<Rightarrow> load_options" where
  "load_options_of argv =
     \<lparr>lo_users = parse_int_or (argument ''users'' argv) 500,
      lo_duration = parse_int_or (argument ''duration'' argv) 60,
      lo_rampup = parse_int_or (argument ''rampup'' argv) 10,
      lo_host = (case or_null (argument ''host'' argv) of None \<Rightarrow> ''localhost:8443'' | Some h \<Rightarrow> h)\<rparr>"

text \<open>\<open>[host, port]\<close>; the port is \<open>undefined\<close> where there is none.\<close>

definition load_target :: "load_options \<Rightarrow> string \<times> string option" where
  "load_target opts =
     (let parts = split_on (CHR '':'') (lo_host opts)
      in (hd parts, if 1 < length parts then Some (parts ! 1) else None))"

section \<open>The report\<close>

definition latency_percentile :: "js_number list \<Rightarrow> rat \<Rightarrow> js_number option" where
  "latency_percentile arr p =
     (if arr = [] then Some (Num 0)
      else let sorted = js_sort (\<lambda>a b. js_sub a b) arr;
               idx = js_sub (js_ceil (js_mul (js_div (Num p) (Num 100)) (Num (of_nat (length sorted))))) (Num 1)
           in element_at sorted (js_max (Num 0) idx))"

text \<open>The figures in the order in which they are printed; \<open>rt_memory\<close> are those of
  \<open>process.memoryUsage()\<close>, in megabytes.\<close>

record report =
  rt_options :: load_options
  rt_activeUsers :: int
  rt_total :: nat
  rt_successful :: nat
  rt_success_rate :: js_number
  rt_failed :: nat
  rt_failure_rate :: js_number
  rt_rps :: js_number
  rt_average :: js_number
  rt_p50 :: js_number
  rt_p75 :: js_number
  rt_p90 :: js_number
  rt_p95 :: js_number
  rt_p99 :: js_number
  rt_max :: js_number
  rt_errors :: "string \<Rightarrow> nat option"
  rt_scenarios :: "string \<Rightarrow> (nat \<times> nat \<times> nat \<times> js_number) option"
  rt_memory :: "js_number list"

definition scenario_line :: "scenario_metrics \<Rightarrow> nat \<times> nat \<times> nat \<times> js_number" where
  "scenario_line data =
     (let total = sm_success data + sm_failed data;
          avgLatency = (if sm_latencies data \<noteq> [] then average (sm_latencies data) else Num 0)
      in (total, sm_success data, sm_failed data, fixed 2 avgLatency))"

definition megabytes :: "js_number \<Rightarrow> js_number" where
  "megabytes n = fixed 2 (js_div (js_div n (Num 1024)) (Num 1024))"

text \<open>\<open>None\<close> where printing throws, because a percentile is \<open>undefined\<close>.\<close>

definition printReport :: "load_options \<Rightarrow> js_number list \<Rightarrow> metrics \<Rightarrow> report option" where
  "printReport opts memUsage m =
     (let elapsed = js_div (Num (of_int (endTime m - startTime m))) (Num 1000);
          rps = js_div (Num (of_nat (totalRequests m))) elapsed;
          rate = (\<lambda>n. fixed 2 (js_mul (js_div (Num (of_nat n)) (Num (of_nat (totalRequests m)))) (Num 100)))
      in
      Option.bind (latency_percentile (latencies m) 50) (\<lambda>p50.
      Option.bind (latency_percentile (latencies m) 75) (\<lambda>p75.
      Option.bind (latency_percentile (latencies m) 90) (\<lambda>p90.
      Option.bind (latency_percentile (latencies m) 95) (\<lambda>p95.
      Option.bind (latency_percentile (latencies m) 99) (\<lambda>p99.
      Some \<lparr>rt_options = opts, rt_activeUsers = activeUsers m,
        rt_total = totalRequests m,
        rt_successful = successfulRequests m, rt_success_rate = rate (successfulRequests m),
        rt_failed = failedRequests m, rt_failure_rate = rate (failedRequests m),
        rt_rps = fixed 2 rps, rt_average = fixed 2 (average (latencies m)),
        rt_p50 = fixed 2 p50, rt_p75 = fixed 2 p75, rt_p90 = fixed 2 p90, rt_p95 = fixed 2 p95,
        rt_p99 = fixed 2 p99, rt_max = fixed 2 (maximum (latencies m)),
        rt_errors = errors m, rt_scenarios = map_option scenario_line \<circ> scenarioMetrics m,
        rt_memory = map megabytes memUsage\<rparr>))))))"

section \<open>The run\<close>

text \<open>The delay of a timer in milliseconds: one out of range is 1, a fraction is cut off.\<close>

definition timer_delay :: "js_number \<Rightarrow> int" where
  "timer_delay d = (case d of Num x \<Rightarrow> if 1 \<le> x \<and> x \<le> 2 ^ 31 - 1 then \<lfloor>x\<rfloor> else 1 | _ \<Rightarrow> 1)"

definition rampInterval :: "load_options \<Rightarrow> js_number" where
  "rampInterval opts = js_div (Num (of_int (lo_rampup opts * 1000))) (Num (of_int (lo_users opts)))"

text \<open>
  \<open>Gate\<close> is the health check, \<open>Ramping i due\<close> the wait before customer \<open>i\<close> is started, \<open>Measuring due\<close>
  the wait for the duration of the test and \<open>Settling\<close> that for the customers.  A run that
  printed its report by itself has \<open>Completed\<close> with an exit status; all others are \<open>Stopped\<close>.
\<close>

datatype phase =
  Gate "nat option task"
| Ramping nat int
| Measuring int
| Settling
| Completed nat
| Stopped nat

record load_run =
  lr_metrics :: metrics
  lr_phase :: phase
  lr_users :: "unit task list"
  lr_report :: "report option"

text \<open>A call runs its first action at once.\<close>

definition begun :: "'a task \<Rightarrow> metrics \<Rightarrow> 'a task \<times> metrics" where
  "begun p m = (case p of Act f \<Rightarrow> f m | _ \<Rightarrow> (p, m))"

definition load_start :: "network \<Rightarrow> string \<Rightarrow> int \<Rightarrow> load_run" where
  "load_start net requestId now =
     (case begun (health_gate net requestId) (initial_metrics\<lparr>date_ms := now\<rparr>) of (p, m) \<Rightarrow>
        \<lparr>lr_metrics = m, lr_phase = Gate p, lr_users = [], lr_report = None\<rparr>)"

text \<open>The head of the loop \<open>for (i = ...; i < config.users; i++)\<close>, and what follows the start of a customer:
  the last one is not followed by a pause.\<close>

definition ramp_from :: "load_options \<Rightarrow> nat \<Rightarrow> int \<Rightarrow> int \<Rightarrow> phase" where
  "ramp_from opts i due now =
     (if int i < lo_users opts then Ramping i due
      else Measuring (now + timer_delay (Num (of_int (lo_duration opts * 1000)))))"

definition after_start :: "load_options \<Rightarrow> nat \<Rightarrow> int \<Rightarrow> phase" where
  "after_start opts i now =
     ramp_from opts (Suc i)
       (if int i < lo_users opts - 1 then now + timer_delay (rampInterval opts) else now) now"

primrec ended :: "phase \<Rightarrow> bool" where
  "ended (Gate p) = False"
| "ended (Ramping i due) = False"
| "ended (Measuring due) = False"
| "ended Settling = False"
| "ended (Completed code) = True"
| "ended (Stopped code) = True"

primrec pending :: "('s, 'e, 'a) prog \<Rightarrow> bool" where
  "pending (Return a) = False"
| "pending (Throw e) = False"
| "pending (Act f) = True"

text \<open>Until \<open>Promise.allSettled\<close> is called nobody handles the rejection of a customer, and an unhandled
  rejection ends the process with status 1.\<close>

definition after_action :: "phase \<Rightarrow> unit task \<Rightarrow> phase" where
  "after_action phase p = (case p of Throw e \<Rightarrow> if phase = Settling then phase else Stopped 1 | _ \<Rightarrow> phase)"

inductive load_step :: "network \<Rightarrow> load_options \<Rightarrow> load_run \<Rightarrow> load_run \<Rightarrow> bool" for net opts where
  gate_acts: "lr_phase s = Gate (Act f) \<Longrightarrow> f (lr_metrics s) = (p, m) \<Longrightarrow>
     load_step net opts s (s\<lparr>lr_metrics := m, lr_phase := Gate p\<rparr>)"
| gate_throws: "lr_phase s = Gate (Throw e) \<Longrightarrow> load_step net opts s (s\<lparr>lr_phase := Stopped 1\<rparr>)"
| gate_closes: "lr_phase s = Gate (Return (Some code)) \<Longrightarrow> load_step net opts s (s\<lparr>lr_phase := Stopped code\<rparr>)"
| gate_opens: "lr_phase s = Gate (Return None) \<Longrightarrow> now = date_ms (lr_metrics s) \<Longrightarrow>
     load_step net opts s (s\<lparr>lr_phase := ramp_from opts 0 now now\<rparr>)"
| user_starts: "lr_phase s = Ramping i due \<Longrightarrow> due \<le> date_ms (lr_metrics s) \<Longrightarrow>
     begun (simulateUser net (lo_duration opts) dw1 dw2 rs (''user_'' @ nat_text i)) (lr_metrics s) = (p, m) \<Longrightarrow>
     load_step net opts s
       (s\<lparr>lr_metrics := m, lr_users := lr_users s @ [p], lr_phase := after_start opts i (date_ms m)\<rparr>)"
| user_acts: "\<not> ended (lr_phase s) \<Longrightarrow> i < length (lr_users s) \<Longrightarrow> lr_users s ! i = Act f \<Longrightarrow>
     f (lr_metrics s) = (p, m) \<Longrightarrow>
     load_step net opts s
       (s\<lparr>lr_metrics := m, lr_users := (lr_users s)[i := p], lr_phase := after_action (lr_phase s) p\<rparr>)"
| clock_advances: "\<not> ended (lr_phase s) \<Longrightarrow> load_time (lr_metrics s) m \<Longrightarrow>
     load_step net opts s (s\<lparr>lr_metrics := m\<rparr>)"
| time_is_up: "lr_phase s = Measuring due \<Longrightarrow> due \<le> date_ms (lr_metrics s) \<Longrightarrow>
     load_step net opts s
       (s\<lparr>lr_metrics := (lr_metrics s)\<lparr>endTime := date_ms (lr_metrics s)\<rparr>, lr_phase := Settling\<rparr>)"
| all_settled: "lr_phase s = Settling \<Longrightarrow> list_all (\<lambda>p. \<not> pending p) (lr_users s) \<Longrightarrow>
     r = printReport opts memUsage (lr_metrics s) \<Longrightarrow>
     load_step net opts s
       (s\<lparr>lr_report := r,
          lr_phase := (case r of None \<Rightarrow> Stopped 1 | Some _ \<Rightarrow> Completed (exit_status (lr_metrics s)))\<rparr>)"

text \<open>The signal \<open>SIGINT\<close> prints the report and ends the process.\<close>

inductive interrupted :: "load_options \<Rightarrow> load_run \<Rightarrow> load_run \<Rightarrow> bool" for opts where
  sigint: "\<not> ended (lr_phase s) \<Longrightarrow> m = (lr_metrics s)\<lparr>endTime := date_ms (lr_metrics s)\<rparr> \<Longrightarrow>
     r = printReport opts memUsage m \<Longrightarrow>
     interrupted opts s
       (s\<lparr>lr_metrics := m, lr_report := r,
          lr_phase := (case r of None \<Rightarrow> Stopped 1 | Some _ \<Rightarrow> Stopped 0)\<rparr>)"

definition load_reaches :: "network \<Rightarrow> load_options \<Rightarrow> string \<Rightarrow> int \<Rightarrow> load_run \<Rightarrow> bool" where
  "load_reaches net opts requestId now s \<longleftrightarrow>
     (\<lambda>s t. load_step net opts s t \<or> interrupted opts s t)\<^sup>*\<^sup>* (load_start net requestId now) s"

inductive_cases load_stepE: "load_step net opts s t"
inductive_cases interruptedE: "interrupted opts s t"

section \<open>Command line and target\<close>

text \<open>No option is 0, whatever the arguments: the interval of the ramp-up never divides by 0, and an
  explicit 0 is ignored.\<close>

lemma options_nonzero:
  "lo_users (load_options_of argv) \<noteq> 0 \<and> lo_duration (load_options_of argv) \<noteq> 0 \<and> lo_rampup (load_options_of argv) \<noteq> 0"
  by (auto simp: load_options_of_def parse_int_or_def split: option.split)

lemma options_zero_ignored:
  "lo_rampup (load_options_of [''node'', ''load-test.js'', ''--users=20'', ''--rampup=0'']) = 10"
  by code_simp

lemma options_read:
  "load_options_of [''node'', ''load-test.js'', ''--users=20'', ''--host=chhaya.test:80''] =
     \<lparr>lo_users = 20, lo_duration = 60, lo_rampup = 10, lo_host = ''chhaya.test:80''\<rparr>"
  "load_target (load_options_of [''--host=chhaya.test:80'']) = (''chhaya.test'', Some ''80'')"
  by code_simp+


section \<open>What every task records\<close>

text \<open>Latencies are the differences of two readings of a monotone clock, in milliseconds.\<close>

definition latency_ok :: "js_number \<Rightarrow> bool" where
  "latency_ok n = (case n of Num x \<Rightarrow> 0 \<le> x \<and> x < 10 ^ 21 | _ \<Rightarrow> False)"

definition timed_network :: "network \<Rightarrow> bool" where
  "timed_network net \<longleftrightarrow>
     (\<forall>i c. case net i c of
        Answered st txt data latency \<Rightarrow> latency_ok latency
      | Failed error latency \<Rightarrow> latency_ok latency
      | TimedOut latency destroyed \<Rightarrow> latency_ok latency \<and> pred_option (\<lambda>(e, l). latency_ok l) destroyed)"

definition sound_metrics :: "metrics \<Rightarrow> bool" where
  "sound_metrics m \<longleftrightarrow> balanced m \<and> list_all latency_ok (latencies m)"

definition recording :: "metrics \<Rightarrow> metrics \<Rightarrow> bool" where
  "recording m m' \<longleftrightarrow> (sound_metrics m \<longrightarrow> sound_metrics m') \<and> totalRequests m \<le> totalRequests m' \<and>
     startTime m' = startTime m \<and> endTime m' = endTime m \<and> date_ms m \<le> date_ms m'"

text \<open>The same with the number of active users as it was, and at one moment.\<close>

definition gating :: "metrics \<Rightarrow> metrics \<Rightarrow> bool" where
  "gating m m' \<longleftrightarrow> recording m m' \<and> activeUsers m' = activeUsers m"

definition indoors :: "metrics \<Rightarrow> metrics \<Rightarrow> bool" where
  "indoors m m' \<longleftrightarrow> gating m m' \<and> date_ms m' = date_ms m"

lemma recording_refl [simp]: "recording m m" and gating_refl [simp]: "gating m m"
  and indoors_refl [simp]: "indoors m m"
  by (simp_all add: recording_def gating_def indoors_def)

lemma recording_trans: "recording m m' \<Longrightarrow> recording m' m'' \<Longrightarrow> recording m m''"
  by (auto simp: recording_def)

lemma gating_trans: "gating m m' \<Longrightarrow> gating m' m'' \<Longrightarrow> gating m m''"
  by (auto simp: gating_def intro: recording_trans)

lemma gating_load_time: "load_time m m' \<Longrightarrow> gating m m'"
  by (auto elim!: load_time.cases simp: gating_def recording_def sound_metrics_def balanced_def)

lemma indoors_count_error: "latency_ok l \<Longrightarrow> indoors m (count_error e (count_request l m))"
  by (simp add: indoors_def gating_def recording_def sound_metrics_def count_error_def count_request_def balanced_def)

lemma indoors_count_answer: "latency_ok l \<Longrightarrow> indoors m (count_answer st txt l m)"
  by (simp add: indoors_def gating_def recording_def sound_metrics_def count_answer_def count_error_def count_request_def
      balanced_def Let_def)

lemma indoors_track: "indoors m (track_scenario n l st m)"
  by (simp add: indoors_def gating_def recording_def sound_metrics_def track_scenario_def balanced_def Let_def)

lemma indoors_tokens:
  "indoors m (m\<lparr>tokens := t\<rparr>)" "indoors m (m\<lparr>tokens := t, userData := u\<rparr>)"
  by (simp_all add: indoors_def gating_def recording_def sound_metrics_def balanced_def)

lemma timed_latency:
  assumes "timed_network net"
  shows "net i c = Answered st txt data l \<Longrightarrow> latency_ok l" and "net i c = Failed e l \<Longrightarrow> latency_ok l"
    and "net i c = TimedOut l d \<Longrightarrow> latency_ok l" and "net i c = TimedOut l (Some (e, l')) \<Longrightarrow> latency_ok l'"
  using assms [unfolded timed_network_def, rule_format, of i c] by simp_all

lemma indoors_gating: "indoors m m' \<Longrightarrow> gating m m'"
  by (simp add: indoors_def)

lemma indoors_request:
  assumes "timed_network net"
  shows "guar indoors (http_request net i method path content token)"
  unfolding http_request_def
  by (auto intro!: guar_intros indoors_count_answer indoors_count_error simp: comp_def
      dest: timed_latency [OF assms] split: outcome.splits option.splits)

lemma indoors_scenario:
  assumes "timed_network net" and "s \<in> set scenarios"
  shows "guar indoors (sc_fn s net dw userId)"
  using assms(2)
  by (auto simp: scenarios_def registerUser_def loginUser_def getProfile_def addContact_def getContacts_def
      createConversation_def getConversations_def sendMessage_def getMessages_def with_session_def Let_def
      intro!: guar_intros indoors_request [OF assms(1)] indoors_tokens split: option.split)

lemma registers: "\<lparr>sc_name = ''register'', sc_weight = 15, sc_fn = registerUser\<rparr> \<in> set scenarios"
  and logs_in: "\<lparr>sc_name = ''login'', sc_weight = 20, sc_fn = loginUser\<rparr> \<in> set scenarios"
  by (simp_all add: scenarios_def)

lemma indoors_round:
  assumes "timed_network net" shows "guar indoors (user_round net userId r)"
proof (cases r)
  case (fields rand dw latency)
  then show ?thesis
    by (auto intro!: guar_intros indoors_scenario [OF assms] indoors_track dest: select_scenario_member
        split: option.split)
qed

lemma indoors_loop:
  assumes "timed_network net" shows "guar indoors (user_loop net userId deadline rs)"
  by (induction rs) (auto simp del: user_round.simps intro!: guar_intros indoors_round [OF assms])

text \<open>What a customer does between its arrival and its departure.\<close>

lemma indoors_stay:
  assumes "timed_network net"
  shows "guar indoors (await (registerUser net dw1 userId) (\<lambda>_. await (loginUser net dw2 userId) (\<lambda>_.
     await (gets (\<lambda>m. startTime m + duration * 1000)) (\<lambda>deadline. user_loop net userId deadline rs))))"
  using indoors_scenario [OF assms registers] indoors_scenario [OF assms logs_in]
  by (auto intro!: guar_intros indoors_loop [OF assms])

section \<open>Customers leave once\<close>

inductive leaving :: "'a task \<Rightarrow> bool" where
  leaves_now: "(\<And>m. recording m (snd (f m)) \<and> activeUsers (snd (f m)) = activeUsers m - 1 \<and> \<not> pending (fst (f m))) \<Longrightarrow>
     leaving (Act f)"
| stays: "(\<And>m. indoors m (snd (f m))) \<Longrightarrow> (\<And>m. leaving (fst (f m))) \<Longrightarrow> leaving (Act f)"

inductive_cases leaving_ActE: "leaving (Act f)"

lemma leaving_pending: "leaving p \<Longrightarrow> pending p"
  by (induction rule: leaving.induct) simp_all

lemma recording_leave: "recording m (m\<lparr>activeUsers := n\<rparr>)"
  by (simp add: recording_def sound_metrics_def balanced_def)

lemma leaving_finally:
  assumes "guar indoors p"
  shows "leaving (finally_do p (modify (\<lambda>m. m\<lparr>activeUsers := activeUsers m - 1\<rparr>)))"
  using assms
proof induction
  case (guar_Act f)
  then show ?case by (auto simp: finally_do_def intro!: stays)
qed (auto simp: finally_do_def modify_def recording_leave intro!: leaves_now)

lemma customer_arrives:
  assumes "timed_network net" and "begun (simulateUser net duration dw1 dw2 rs userId) m = (p, m')"
  shows "leaving p \<and> activeUsers m' = activeUsers m + 1 \<and> recording m m' \<and> date_ms m' = date_ms m"
  using assms(2) leaving_finally [OF indoors_stay [OF assms(1)]]
  by (auto simp: begun_def simulateUser_def modify_def recording_leave)

text \<open>An action of a customer.\<close>

lemma leaving_acts:
  assumes "leaving (Act f)" and "f m = (p, m')"
  shows "recording m m' \<and> activeUsers m' = activeUsers m - (if pending p then 0 else 1) \<and> (pending p \<longrightarrow> leaving p)"
  using assms(1)
proof (cases rule: leaving.cases)
  case leaves_now
  from leaves_now [of m] assms(2) show ?thesis by simp
next
  case stays
  from stays [of m] assms(2) leaving_pending show ?thesis by (auto simp: indoors_def gating_def)
qed

section \<open>Counting the customers\<close>

definition present :: "unit task list \<Rightarrow> nat" where
  "present ps = length (filter pending ps)"

lemma present_update:
  "i < length ps \<Longrightarrow> pending (ps ! i) \<Longrightarrow> int (present (ps[i := p])) = int (present ps) - (if pending p then 0 else 1)"
proof (induction ps arbitrary: i)
  case (Cons q ps)
  then show ?case by (cases i) (auto simp: present_def)
qed simp

lemma present_append [simp]: "present (ps @ [p]) = present ps + (if pending p then 1 else 0)"
  by (simp add: present_def)

lemma present_none: "list_all (\<lambda>p. \<not> pending p) ps \<Longrightarrow> present ps = 0"
  by (simp add: present_def list_all_iff)

section \<open>The invariant of a run\<close>

text \<open>What the health check has established when the gate opens.\<close>

definition checked :: "string + nat option \<Rightarrow> metrics \<Rightarrow> bool" where
  "checked r m \<longleftrightarrow> (r = Inr None \<longrightarrow> 0 < totalRequests m)"

text \<open>When customer \<open>i\<close> is due, and when the time is up.\<close>

definition ramp_delay :: "load_options \<Rightarrow> int" where
  "ramp_delay opts = timer_delay (rampInterval opts)"

definition test_delay :: "load_options \<Rightarrow> int" where
  "test_delay opts = timer_delay (Num (of_int (lo_duration opts * 1000)))"

definition full_time :: "load_options \<Rightarrow> int" where
  "full_time opts = int (nat (lo_users opts) - 1) * ramp_delay opts + test_delay opts"

definition on_schedule :: "load_options \<Rightarrow> load_run \<Rightarrow> bool" where
  "on_schedule opts s \<longleftrightarrow>
     (let m = lr_metrics s; started = length (lr_users s) in
      case lr_phase s of
        Gate p \<Rightarrow> started = 0 \<and> rg gating gating checked p m
      | Ramping i due \<Rightarrow> started = i \<and> int i < lo_users opts \<and> 0 < totalRequests m \<and>
          startTime m + int i * ramp_delay opts \<le> due
      | Measuring due \<Rightarrow> started = nat (lo_users opts) \<and> 0 < totalRequests m \<and>
          startTime m + full_time opts \<le> due
      | Settling \<Rightarrow> started = nat (lo_users opts) \<and> 0 < totalRequests m \<and>
          startTime m + full_time opts \<le> endTime m
      | _ \<Rightarrow> True)"

definition load_invariant :: "load_options \<Rightarrow> load_run \<Rightarrow> bool" where
  "load_invariant opts s \<longleftrightarrow>
     sound_metrics (lr_metrics s) \<and> startTime (lr_metrics s) \<le> date_ms (lr_metrics s) \<and>
     activeUsers (lr_metrics s) = int (present (lr_users s)) \<and>
     (\<forall>p \<in> set (lr_users s). pending p \<longrightarrow> leaving p) \<and> on_schedule opts s"

text \<open>What a completed run has reported.\<close>

definition reported :: "load_options \<Rightarrow> load_run \<Rightarrow> bool" where
  "reported opts s \<longleftrightarrow>
     (\<forall>code. lr_phase s = Completed code \<longrightarrow>
        code = exit_status (lr_metrics s) \<and> (\<exists>memUsage r. lr_report s = Some r \<and> printReport opts memUsage (lr_metrics s) = Some r) \<and>
        length (lr_users s) = nat (lo_users opts) \<and> activeUsers (lr_metrics s) = 0 \<and>
        0 < totalRequests (lr_metrics s) \<and>
        startTime (lr_metrics s) + full_time opts \<le> endTime (lr_metrics s))"

lemma checked_stable: "checked r m \<Longrightarrow> gating m m' \<Longrightarrow> checked r m'"
  by (auto simp: checked_def gating_def recording_def)

interpretation load_tasks: interference gating load_time "\<lambda>p :: nat option task. False" checked
  by unfold_locales
    (auto intro: gating_trans gating_load_time checked_stable)

lemma on_schedule_recording:
  assumes "on_schedule opts s" and "recording (lr_metrics s) m" and "\<And>p. lr_phase s \<noteq> Gate p"
  shows "on_schedule opts (s\<lparr>lr_metrics := m\<rparr>)"
  using assms by (cases "lr_phase s") (auto simp: on_schedule_def Let_def recording_def)

lemma on_schedule_gating:
  assumes "on_schedule opts s" and "gating (lr_metrics s) m"
  shows "on_schedule opts (s\<lparr>lr_metrics := m\<rparr>)"
proof (cases "lr_phase s")
  case (Gate p)
  with assms show ?thesis by (auto simp: on_schedule_def Let_def intro: load_tasks.rg_stable)
qed (use assms on_schedule_recording in \<open>auto simp: gating_def\<close>)

lemma recording_metrics:
  "recording m m' \<Longrightarrow> sound_metrics m \<Longrightarrow> sound_metrics m'"
  "recording m m' \<Longrightarrow> startTime m \<le> date_ms m \<Longrightarrow> startTime m' \<le> date_ms m'"
  by (auto simp: recording_def)

text \<open>The health check, from its first action on.\<close>

lemma answer_counted: "totalRequests (count_answer st txt l m) = Suc (totalRequests m)"
  by (simp add: count_answer_def count_error_def count_request_def Let_def)

lemma rg_recording_request:
  assumes "timed_network net"
  shows "rg gating gating (\<lambda>r m. (\<exists>x. r = Inr x) \<longrightarrow> 0 < totalRequests m)
    (http_request net i method path content token) m"
  unfolding http_request_def
  by (auto simp: rg_await comp_def answer_counted dest: timed_latency [OF assms]
      intro: indoors_gating [OF indoors_count_error] indoors_gating [OF indoors_count_answer]
      split: outcome.split option.split)

lemma load_start_invariant:
  assumes "timed_network net"
  shows "load_invariant opts (load_start net i now)"
proof -
  have "on_schedule opts (load_start net i now)"
    using rg_mono [OF rg_recording_request [OF assms]]
    by (auto simp: on_schedule_def load_start_def begun_def health_gate_def modify_def rg_try_catch rg_await checked_def
        split: sum.split)
  then show ?thesis
    by (simp add: load_invariant_def load_start_def begun_def health_gate_def modify_def initial_metrics_def
        sound_metrics_def balanced_def present_def)
qed


lemma timer_delay_pos: "1 \<le> timer_delay d"
  by (auto simp: timer_delay_def le_floor_iff split: js_number.split)

lemma next_delay: "int i * d + d = int (Suc i) * (d :: int)"
  by (simp add: algebra_simps)

text \<open>The schedule along the ramp-up.\<close>

lemma schedule_opens:
  assumes "length (lr_users s) = 0" and "0 < totalRequests (lr_metrics s)"
    and "startTime (lr_metrics s) \<le> now"
  shows "on_schedule opts (s\<lparr>lr_phase := ramp_from opts 0 now now\<rparr>)"
  using assms by (auto simp: on_schedule_def ramp_from_def Let_def full_time_def test_delay_def)

lemma schedule_ramps:
  assumes "length (lr_users s) = i" and "int i < lo_users opts" and "0 < totalRequests (lr_metrics s)"
    and "startTime (lr_metrics s) + int i * ramp_delay opts \<le> now"
  shows "on_schedule opts (s\<lparr>lr_users := lr_users s @ [p], lr_phase := after_start opts i now\<rparr>)"
proof (cases "int i < lo_users opts - 1")
  case True
  with assms next_delay [of i "ramp_delay opts"] show ?thesis
    by (simp add: on_schedule_def after_start_def ramp_from_def Let_def ramp_delay_def)
next
  case False
  with assms(2) have "lo_users opts = int i + 1" by simp
  then have n: "nat (lo_users opts) = Suc i" "full_time opts = int i * ramp_delay opts + test_delay opts"
    by (simp_all add: full_time_def)
  from False assms n show ?thesis
    by (simp add: on_schedule_def after_start_def ramp_from_def Let_def test_delay_def)
qed

lemma schedule_after_action:
  assumes "on_schedule opts s" and "lr_phase s \<noteq> Gate q" and "length qs = length (lr_users s)" and "\<And>q. lr_phase s \<noteq> Gate q"
  shows "on_schedule opts (s\<lparr>lr_users := qs, lr_phase := after_action (lr_phase s) p\<rparr>)"
  using assms by (cases "lr_phase s"; cases p) (auto simp: on_schedule_def after_action_def Let_def)

lemma not_completed:
  "ramp_from opts i due now \<noteq> Completed code" "after_start opts i now \<noteq> Completed code"
  "\<not> ended phase \<Longrightarrow> after_action phase p \<noteq> Completed code"
  by (auto simp: ramp_from_def after_start_def after_action_def split: prog.split)

lemma unticked [simp]:
  "sound_metrics (m\<lparr>endTime := e\<rparr>) = sound_metrics m"
  by (simp add: sound_metrics_def balanced_def)

lemma load_step_invariant:
  assumes "timed_network net" and "load_step net opts s t" and "load_invariant opts s"
  shows "load_invariant opts t \<and> reported opts t"
  using assms(2)
proof (cases rule: load_step.cases)
  case (gate_acts f p m)
  with assms(3) have "rg gating gating checked (Act f) (lr_metrics s)"
    by (simp add: load_invariant_def on_schedule_def)
  then have "gating (lr_metrics s) m" and "rg gating gating checked p m"
    using gate_acts(3) by (auto simp: rg_Act dest!: spec [of _ "lr_metrics s"])
  with gate_acts assms(3) show ?thesis
    by (auto simp: load_invariant_def reported_def on_schedule_def Let_def present_def gating_def dest: recording_metrics)
next
  case (gate_opens now)
  with assms(3) have "length (lr_users s) = 0" "0 < totalRequests (lr_metrics s)" "startTime (lr_metrics s) \<le> now"
    by (auto simp: load_invariant_def on_schedule_def checked_def)
  from schedule_opens [OF this] gate_opens assms(3) show ?thesis
    by (simp add: load_invariant_def reported_def not_completed)
next
  case (user_starts i due dw1 dw2 rs p m)
  from assms(3) user_starts(2,3) have i: "length (lr_users s) = i" "int i < lo_users opts" "0 < totalRequests (lr_metrics s)"
    and due: "startTime (lr_metrics s) + int i * ramp_delay opts \<le> date_ms (lr_metrics s)"
    by (auto simp: load_invariant_def on_schedule_def Let_def)
  from customer_arrives [OF assms(1) user_starts(4)] have p: "leaving p" "activeUsers m = activeUsers (lr_metrics s) + 1"
    "recording (lr_metrics s) m" "date_ms m = date_ms (lr_metrics s)" by simp_all
  have "on_schedule opts (s\<lparr>lr_metrics := m, lr_users := lr_users s @ [p], lr_phase := after_start opts i (date_ms m)\<rparr>)"
    using schedule_ramps [of "s\<lparr>lr_metrics := m\<rparr>" i opts "date_ms m" p] i due p(3,4) by (simp add: recording_def)
  with p assms(3) user_starts leaving_pending [OF p(1)] show ?thesis
    by (auto simp: load_invariant_def reported_def not_completed dest: recording_metrics)
next
  case (user_acts i f p m)
  with assms(3) nth_mem [OF user_acts(3)] have "leaving (Act f)" and gate: "lr_phase s \<noteq> Gate q" for q
    by (auto simp: load_invariant_def on_schedule_def)
  from leaving_acts [OF this(1) user_acts(5)] have m: "recording (lr_metrics s) m"
    "activeUsers m = activeUsers (lr_metrics s) - (if pending p then 0 else 1)" "pending p \<Longrightarrow> leaving p" by simp_all
  have "on_schedule opts t"
    using on_schedule_recording [OF _ m(1) gate] assms(3) schedule_after_action [of opts "s\<lparr>lr_metrics := m\<rparr>"] gate user_acts(1)
    by (simp add: load_invariant_def)
  moreover have "int (present (lr_users t)) = activeUsers m"
    using present_update [OF user_acts(3), of p] user_acts(1,4) m(2) assms(3) by (simp add: load_invariant_def)
  moreover have "\<forall>q \<in> set (lr_users t). pending q \<longrightarrow> leaving q"
    using m(3) assms(3) user_acts(1) by (auto simp: load_invariant_def dest!: set_update_subset_insert [THEN subsetD])
  ultimately show ?thesis
    using user_acts(1,2) m(1) assms(3) by (auto simp: load_invariant_def reported_def not_completed dest: recording_metrics)
next
  case (clock_advances m)
  from gating_load_time [OF clock_advances(3)] have "gating (lr_metrics s) m" .
  with clock_advances(1,2) assms(3) on_schedule_gating [of opts s m] show ?thesis
    by (auto simp: load_invariant_def reported_def gating_def dest: recording_metrics)
next
  case (time_is_up due)
  with assms(3) show ?thesis
    by (simp add: load_invariant_def reported_def on_schedule_def Let_def)
next
  case (all_settled r memUsage)
  with assms(3) present_none [OF all_settled(3)] show ?thesis
    by (auto simp: load_invariant_def reported_def on_schedule_def Let_def split: option.splits)
qed (use assms(3) in \<open>auto simp: load_invariant_def reported_def on_schedule_def Let_def\<close>)

lemma load_invariant_reached:
  assumes "timed_network net" and "load_reaches net opts i now s"
  shows "load_invariant opts s \<and> reported opts s"
  using assms(2) unfolding load_reaches_def
proof (induction rule: rtranclp_induct)
  case base
  show ?case
    using load_start_invariant [OF assms(1)] by (simp add: reported_def load_start_def begun_def health_gate_def modify_def)
next
  case (step s t)
  from step(2) show ?case
  proof
    assume "load_step net opts s t"
    with load_step_invariant [OF assms(1)] step(3) show ?thesis by blast
  next
    assume "interrupted opts s t"
    then show ?thesis
      using step(3) by cases (auto simp: load_invariant_def reported_def on_schedule_def split: option.splits)
  qed
qed


section \<open>Figures of the report\<close>

lemma ratio_threshold:
  assumes "n \<le> t" and "0 < t" and "t < 2 ^ 40"
  shows "to_double (95 / 100) \<le> to_double (of_nat n / of_nat t) \<longleftrightarrow> 95 * t \<le> 100 * n"
proof
  let ?x = "of_nat n / of_nat t :: rat"
  assume le: "to_double (95 / 100) \<le> to_double ?x"
  show "95 * t \<le> 100 * n"
  proof (rule ccontr)
    assume "\<not> 95 * t \<le> 100 * n"
    then have "100 * n + 1 \<le> 95 * t" by simp
    then have "of_nat (100 * n + 1) \<le> (of_nat (95 * t) :: rat)" by (simp only: of_nat_le_iff)
    then have gap: "?x + 1 / (100 * of_nat t) \<le> 95 / 100" using assms(2) by (simp add: field_simps)
    have "(of_nat t :: rat) < 2 ^ 40" using assms(3) by (metis of_nat_less_iff of_nat_numeral of_nat_power)
    then have "1 / (100 * 2 ^ 40) < 1 / (100 * of_nat t :: rat)" using assms(2) by (intro divide_strict_left_mono) simp_all
    with gap have x: "?x + 1 / (100 * 2 ^ 40) < 95 / 100" by linarith
    have "to_double ?x \<le> ?x + 1 / 2 ^ 54"
    proof (cases "n = 0")
      case False
      with assms(2) have "0 < ?x" by simp
      moreover have "(0 :: rat) < 1 / (100 * 2 ^ 40)" by simp
      with x have "?x < 1" by linarith
      ultimately show ?thesis using abs_le_D1 [OF to_double_error [of ?x]] by linarith
    qed (simp add: to_double_def [of 0])
    moreover have "\<bar>to_double (95 / 100) - 95 / 100\<bar> \<le> 1 / 2 ^ 54" by (rule to_double_error) simp_all
    then have "95 / 100 - 1 / 2 ^ 54 \<le> to_double (95 / 100)" by linarith
    moreover have "2 / 2 ^ 54 < (1 / (100 * 2 ^ 40) :: rat)" by simp
    ultimately show False using le x by linarith
  qed
next
  assume "95 * t \<le> 100 * n"
  then have "(of_nat (95 * t) :: rat) \<le> of_nat (100 * n)" by (simp only: of_nat_le_iff)
  then show "to_double (95 / 100) \<le> to_double (of_nat n / of_nat t)"
    using assms(2) by (intro to_double_mono) (simp_all add: field_simps)
qed

lemma exit_status_exact:
  assumes "balanced m" and "0 < totalRequests m" and "totalRequests m < 2 ^ 40"
  shows "exit_status m = (if 95 * totalRequests m \<le> 100 * successfulRequests m then 0 else 1)"
proof -
  have "successfulRequests m \<le> totalRequests m" using assms(1) by (simp add: balanced_def)
  from ratio_threshold [OF this assms(2,3)] assms(2) show ?thesis
    by (simp add: exit_status_def js_leq_def not_less)
qed

lemma latency_percentile_eq: "latency_percentile arr p = percentile (Some arr) p"
  by (cases arr) (simp_all add: latency_percentile_def percentile_def)

lemma report_printed: "length (latencies m) < 2 ^ 53 \<Longrightarrow> \<exists>r. printReport opts memUsage m = Some r"
  using percentile_defined [of 50 "Some (latencies m)"] percentile_defined [of 75 "Some (latencies m)"]
    percentile_defined [of 90 "Some (latencies m)"] percentile_defined [of 95 "Some (latencies m)"]
    percentile_defined [of 99 "Some (latencies m)"]
  by (auto simp: printReport_def Let_def latency_percentile_eq)



section \<open>A run can always go on to its end\<close>

text \<open>One way to continue: wait for each timer, and let the customers go on once all are started.\<close>

definition wait_until :: "int \<Rightarrow> load_run \<Rightarrow> load_run" where
  "wait_until due s = s\<lparr>lr_metrics := (lr_metrics s)\<lparr>date_ms := due\<rparr>\<rparr>"

definition some_draw :: load_draw where
  "some_draw = \<lparr>ld_request = [], ld_id = [], ld_key = [], ld_phrase = [], ld_uuid = []\<rparr>"

primrec drive_gate :: "load_options \<Rightarrow> nat option task \<Rightarrow> load_run \<Rightarrow> load_run" where
  "drive_gate opts (Return r) s =
     s\<lparr>lr_phase := (case r of None \<Rightarrow> ramp_from opts 0 (date_ms (lr_metrics s)) (date_ms (lr_metrics s))
                    | Some code \<Rightarrow> Stopped code)\<rparr>"
| "drive_gate opts (Throw e) s = s\<lparr>lr_phase := Stopped 1\<rparr>"
| "drive_gate opts (Act f) s = (case f (lr_metrics s) of (p, m) \<Rightarrow> s\<lparr>lr_metrics := m, lr_phase := Gate p\<rparr>)"

definition drive_users :: "load_options \<Rightarrow> load_run \<Rightarrow> load_run" where
  "drive_users opts s =
     (case dropWhile (\<lambda>p. \<not> pending p) (lr_users s) of
        Act f # ps \<Rightarrow> (case f (lr_metrics s) of (p, m) \<Rightarrow>
          s\<lparr>lr_metrics := m, lr_users := takeWhile (\<lambda>p. \<not> pending p) (lr_users s) @ p # ps, lr_phase := Settling\<rparr>)
      | _ \<Rightarrow> let r = printReport opts [] (lr_metrics s) in
          s\<lparr>lr_report := r, lr_phase := (case r of None \<Rightarrow> Stopped 1 | Some _ \<Rightarrow> Completed (exit_status (lr_metrics s)))\<rparr>)"

definition drive :: "network \<Rightarrow> load_options \<Rightarrow> load_run \<Rightarrow> load_run" where
  "drive net opts s =
     (let m = lr_metrics s in
      case lr_phase s of
        Gate p \<Rightarrow> drive_gate opts p s
      | Ramping i due \<Rightarrow>
          if due \<le> date_ms m
          then (case begun (simulateUser net (lo_duration opts) some_draw some_draw [] (''user_'' @ nat_text i)) m of
                  (p, m) \<Rightarrow> s\<lparr>lr_metrics := m, lr_users := lr_users s @ [p], lr_phase := after_start opts i (date_ms m)\<rparr>)
          else wait_until due s
      | Measuring due \<Rightarrow>
          if due \<le> date_ms m then s\<lparr>lr_metrics := m\<lparr>endTime := date_ms m\<rparr>, lr_phase := Settling\<rparr> else wait_until due s
      | Settling \<Rightarrow> drive_users opts s
      | _ \<Rightarrow> s)"

lemma head_pending: "dropWhile (\<lambda>p. \<not> pending p) xs = y # ys \<Longrightarrow> \<exists>f. y = Act f"
  using hd_dropWhile [of "\<lambda>p. \<not> pending p" xs] by (cases y) auto

lemma drive_users_step:
  assumes "lr_phase s = Settling" shows "load_step net opts s (drive_users opts s)"
proof (cases "dropWhile (\<lambda>p. \<not> pending p) (lr_users s)")
  case Nil
  then have "list_all (\<lambda>p. \<not> pending p) (lr_users s)" by (simp add: list_all_iff)
  from all_settled [OF assms this refl, of net opts "[]"] show ?thesis
    by (simp only: drive_users_def Nil list.case Let_def)
next
  case (Cons y ps)
  then obtain f where y: "y = Act f" using head_pending by blast
  let ?qs = "takeWhile (\<lambda>p. \<not> pending p) (lr_users s)"
  obtain p m where f: "f (lr_metrics s) = (p, m)" by fastforce
  have users: "lr_users s = ?qs @ Act f # ps" using takeWhile_dropWhile_id [of _ "lr_users s"] Cons y by metis
  have "length ?qs < length (lr_users s)" "lr_users s ! length ?qs = Act f" "(lr_users s)[length ?qs := p] = ?qs @ p # ps"
    by (subst users, simp)+
  with user_acts [of s "length ?qs" f p m net opts] f assms Cons y show ?thesis
    by (simp add: drive_users_def after_action_def split: prog.splits)
qed

lemma drive_step:
  assumes "\<not> ended (lr_phase s)" shows "load_step net opts s (drive net opts s)"
proof (cases "lr_phase s")
  case (Gate p)
  then show ?thesis
    by (cases p) (auto simp: drive_def simp del: One_nat_def intro: load_step.intros split: option.split prod.split)
next
  case (Ramping i due)
  then show ?thesis
    by (auto simp: drive_def Let_def wait_until_def intro!: user_starts clock_advances load_time_passes split: prod.split)
next
  case (Measuring due)
  then show ?thesis
    by (auto simp: drive_def Let_def wait_until_def intro!: time_is_up clock_advances load_time_passes)
next
  case Settling
  then show ?thesis using drive_users_step by (simp add: drive_def)
qed (use assms in simp_all)

lemma drive_ended: "ended (lr_phase s) \<Longrightarrow> drive net opts s = s"
  by (cases "lr_phase s") (simp_all add: drive_def)

lemma drive_steps: "(load_step net opts)\<^sup>*\<^sup>* s ((drive net opts ^^ n) s)"
proof (induction n)
  case (Suc n)
  then show ?case
    using drive_step drive_ended by (cases "ended (lr_phase ((drive net opts ^^ n) s))") (auto intro: rtranclp.rtrancl_into_rtrancl)
qed simp

definition finishes :: "network \<Rightarrow> load_options \<Rightarrow> load_run \<Rightarrow> bool" where
  "finishes net opts s \<longleftrightarrow> (\<exists>n. ended (lr_phase ((drive net opts ^^ n) s)))"

lemma finishes_ended: "ended (lr_phase s) \<Longrightarrow> finishes net opts s"
  unfolding finishes_def by (rule exI [of _ 0]) simp

lemma finishes_later: "finishes net opts (drive net opts s) \<Longrightarrow> finishes net opts s"
  unfolding finishes_def by (metis funpow_simps_right(2) o_apply)

lemma finishes_waiting:
  assumes "\<And>m. due \<le> date_ms m \<Longrightarrow> finishes net opts (s\<lparr>lr_metrics := m\<rparr>)"
    and "lr_phase s = Ramping i due \<or> lr_phase s = Measuring due"
  shows "finishes net opts s"
proof (cases "due \<le> date_ms (lr_metrics s)")
  case True
  with assms(1) [of "lr_metrics s"] show ?thesis by simp
next
  case False
  with assms show ?thesis by (auto simp: drive_def wait_until_def intro: finishes_later)
qed

text \<open>Each customer has finitely many actions left: driven on, it runs as it would alone.\<close>

definition outcome_of :: "'e + 'a \<Rightarrow> ('s, 'e, 'a) prog" where
  "outcome_of r = (case r of Inl e \<Rightarrow> Throw e | Inr a \<Rightarrow> Return a)"

lemma outcome_not_pending [simp]: "\<not> pending (outcome_of r)"
  by (simp add: outcome_of_def split: sum.split)

lemma drive_customer:
  assumes "lr_phase s = Settling" and "lr_users s = qs @ p # ps" and "list_all (\<lambda>q. \<not> pending q) qs"
    and "run p (lr_metrics s) = (r, m)"
  shows "\<exists>n. (drive net opts ^^ n) s = s\<lparr>lr_metrics := m, lr_users := qs @ outcome_of r # ps\<rparr>"
  using assms(1,2,4)
proof (induction p arbitrary: s)
  case (Act f)
  obtain q t where f: "f (lr_metrics s) = (q, t)" by fastforce
  let ?s = "s\<lparr>lr_metrics := t, lr_users := qs @ q # ps, lr_phase := Settling\<rparr>"
  have "drive net opts s = ?s"
    using Act.prems f assms(3) by (simp add: drive_def drive_users_def list_all_iff dropWhile_append2 takeWhile_append2)
  moreover have "run q t = (r, m)" using Act.prems(3) f by (simp add: run_Act)
  with Act.IH [OF rangeI, of q "lr_metrics s" ?s] f
  obtain n where "(drive net opts ^^ n) ?s = ?s\<lparr>lr_metrics := m, lr_users := qs @ outcome_of r # ps\<rparr>" by auto
  ultimately have "(drive net opts ^^ Suc n) s = s\<lparr>lr_metrics := m, lr_users := qs @ outcome_of r # ps\<rparr>"
    using Act.prems(1) by (simp add: funpow_swap1)
  then show ?case by blast
next
  case (Return a)
  then have "s = s\<lparr>lr_metrics := m, lr_users := qs @ outcome_of r # ps\<rparr>" by (cases s) (auto simp: outcome_of_def)
  then show ?case by (intro exI [of _ 0]) simp
next
  case (Throw e)
  then have "s = s\<lparr>lr_metrics := m, lr_users := qs @ outcome_of r # ps\<rparr>" by (cases s) (auto simp: outcome_of_def)
  then show ?case by (intro exI [of _ 0]) simp
qed

lemma finishes_funpow: "finishes net opts ((drive net opts ^^ n) s) \<Longrightarrow> finishes net opts s"
  unfolding finishes_def by (metis funpow_add o_apply)

lemma finishes_settling: "lr_phase s = Settling \<Longrightarrow> finishes net opts s"
proof (induction "present (lr_users s)" arbitrary: s)
  case 0
  then have "dropWhile (\<lambda>p. \<not> pending p) (lr_users s) = []" by (simp add: present_def filter_empty_conv)
  with 0 show ?case
    by (intro finishes_later [OF finishes_ended])
      (simp only: drive_def Let_def phase.case drive_users_def list.case, simp split: option.split)
next
  case (Suc k)
  then have "filter pending (lr_users s) \<noteq> []" by (auto simp: present_def)
  then obtain qs p ps where users: "lr_users s = qs @ p # ps" "list_all (\<lambda>q. \<not> pending q) qs" "pending p"
    using split_list_first_prop [of "lr_users s" pending] by (auto simp: filter_empty_conv list_all_iff)
  obtain r m where "run p (lr_metrics s) = (r, m)" by fastforce
  from drive_customer [OF Suc.prems users(1,2) this, of net opts] obtain n where
    n: "(drive net opts ^^ n) s = s\<lparr>lr_metrics := m, lr_users := qs @ outcome_of r # ps\<rparr>" by blast
  have "k = present (lr_users ((drive net opts ^^ n) s))"
    using Suc.hyps(2) users present_none [of qs] unfolding n by (simp add: present_def)
  from Suc.hyps(1) [OF this] Suc.prems have "finishes net opts ((drive net opts ^^ n) s)" by (simp add: n)
  then show ?case by (rule finishes_funpow)
qed

lemma finishes_measuring: "lr_phase s = Measuring due \<Longrightarrow> finishes net opts s"
  by (rule finishes_waiting [OF finishes_later [OF finishes_settling] disjI2]) (auto simp: drive_def)

lemma finishes_from_ramp:
  assumes "\<And>due. int i < lo_users opts \<Longrightarrow> lr_phase s = Ramping i due \<Longrightarrow> finishes net opts s"
    and "lr_phase s = ramp_from opts i due now"
  shows "finishes net opts s"
  using assms finishes_measuring by (auto simp: ramp_from_def split: if_splits)

lemma finishes_ramping: "lr_phase s = Ramping i due \<Longrightarrow> finishes net opts s"
proof (induction "nat (lo_users opts) - i" arbitrary: i due s rule: less_induct)
  case less
  show ?case
  proof (rule finishes_waiting [OF _ disjI1 [OF less.prems]])
    fix m :: metrics assume "due \<le> date_ms m"
    let ?s = "s\<lparr>lr_metrics := m\<rparr>"
    obtain t where t: "drive net opts ?s = t" "lr_phase t = after_start opts i (date_ms (lr_metrics t))"
      using less.prems \<open>due \<le> date_ms m\<close> by (auto simp: drive_def split: prod.split)
    have "finishes net opts t"
    proof (rule finishes_from_ramp [OF _ t(2) [unfolded after_start_def]])
      fix due assume "int (Suc i) < lo_users opts" and "lr_phase t = Ramping (Suc i) due"
      then show "finishes net opts t" by (intro less.hyps [of "Suc i"]) auto
    qed
    with t(1) finishes_later [of net opts ?s] show "finishes net opts ?s" by simp
  qed
qed

lemma finishes_gate: "lr_phase s = Gate p \<Longrightarrow> finishes net opts s"
proof (induction p arbitrary: s)
  case (Act f)
  obtain p m where f: "f (lr_metrics s) = (p, m)" by fastforce
  with Act.IH [OF rangeI, of p "lr_metrics s" "drive net opts s"] Act.prems show ?case
    by (intro finishes_later [of net opts s]) (simp add: drive_def)
next
  case (Return r)
  show ?case
  proof (cases r)
    case None
    with Return have "lr_phase (drive net opts s) = ramp_from opts 0 (date_ms (lr_metrics s)) (date_ms (lr_metrics s))"
      by (simp add: drive_def)
    from finishes_from_ramp [OF finishes_ramping this] show ?thesis by (rule finishes_later)
  next
    case (Some code)
    with Return show ?thesis by (intro finishes_later [OF finishes_ended]) (simp add: drive_def)
  qed
next
  case (Throw e)
  then show ?case by (intro finishes_later [OF finishes_ended]) (simp add: drive_def)
qed

lemma finishes_always: "finishes net opts s"
  by (cases "lr_phase s") (auto intro: finishes_gate finishes_ramping finishes_measuring finishes_settling finishes_ended)


lemma drive_reaches: "load_reaches net opts i now ((drive net opts ^^ n) (load_start net i now))"
proof -
  have "load_step net opts \<le> (\<lambda>s t. load_step net opts s t \<or> interrupted opts s t)" by auto
  from rtranclp_mono [OF this] drive_steps show ?thesis unfolding load_reaches_def by blast
qed

text \<open>A network that answers every request with 200 and no token.\<close>

definition friendly_net :: network where
  "friendly_net i c = Answered 200 [] None (Num 20)"

definition one_user :: load_options where
  "one_user = load_options_of [''node'', ''load-test.js'', ''--users=1'', ''--duration=5'', ''--rampup=2'']"

lemma friendly_timed: "timed_network friendly_net"
  by (simp add: timed_network_def friendly_net_def latency_ok_def)

lemma one_user_eq: "one_user = \<lparr>lo_users = 1, lo_duration = 5, lo_rampup = 2, lo_host = ''localhost:8443''\<rparr>"
  unfolding one_user_def by code_simp

lemma one_run:
  "\<exists>s. load_reaches friendly_net one_user ''r'' 0 s \<and> lr_phase s = Completed 0 \<and> totalRequests (lr_metrics s) = 2"
proof -
  let ?drive = "drive friendly_net one_user"
  let ?start = "load_start friendly_net ''r'' 0"
  define s where "s = (?drive ^^ 5) ?start"
  have "lr_phase s = Settling \<and> (\<exists>p r m. lr_users s = [p] \<and> run p (lr_metrics s) = (r, m) \<and>
      totalRequests m = 2 \<and> latencies m = [Num 20, Num 20] \<and> balanced m \<and> successfulRequests m = 2)"
    unfolding s_def balanced_def
    by (simp add: eval_nat_numeral drive_def load_start_def begun_def health_gate_def http_request_def modify_def
      friendly_net_def one_user_eq ramp_from_def after_start_def timer_delay_def simulateUser_def wait_until_def
      initial_metrics_def count_answer_def count_request_def succeeded_def Let_def registerUser_def loginUser_def
      finally_do_def run_simps)
  then obtain p r m where settling: "lr_phase s = Settling" "lr_users s = [] @ p # []" "run p (lr_metrics s) = (r, m)"
    and m: "totalRequests m = 2" "latencies m = [Num 20, Num 20]" "balanced m" "successfulRequests m = 2" by auto
  from drive_customer [OF settling(1,2) _ settling(3), of friendly_net one_user] obtain n where
    n: "(?drive ^^ n) s = s\<lparr>lr_metrics := m, lr_users := [outcome_of r]\<rparr>" by auto
  have "exit_status m = 0" using exit_status_exact [OF m(3)] m by simp
  moreover obtain rt where "printReport one_user [] m = Some rt" using report_printed [of m one_user "[]"] m(2) by auto
  ultimately have "lr_phase (?drive ((?drive ^^ n) s)) = Completed 0" "totalRequests (lr_metrics (?drive ((?drive ^^ n) s))) = 2"
    unfolding n using settling(1) m(1) by (simp_all add: drive_def drive_users_def Let_def)
  moreover have "?drive ((?drive ^^ n) s) = (?drive ^^ (Suc n + 5)) ?start"
    by (simp only: s_def funpow_add funpow.simps o_apply)
  ultimately show ?thesis using drive_reaches [of friendly_net one_user "''r''" 0 "Suc n + 5"] by metis
qed



section \<open>Against this server\<close>

lemma interrupted_keeps: "interrupted opts s t \<Longrightarrow> lr_users t = lr_users s \<and> (\<exists>code. lr_phase t = Stopped code)"
  by (auto elim!: interruptedE split: option.splits)


text \<open>The health check is refused, so the program ends before a customer starts.\<close>

lemma rg_gate_refused:
  assumes "network_of_server E order net"
  shows "rg (\<lambda>_ _. True) (\<lambda>_ _. True) (\<lambda>r _. r = Inr (Some 1)) (health_gate net i) m"
  unfolding health_gate_def http_request_def
  by (auto simp: rg_try_catch rg_await comp_def dest: health_unrouted [OF assms] split: outcome.split option.split)

definition never_opened :: "load_run \<Rightarrow> bool" where
  "never_opened s \<longleftrightarrow> lr_users s = [] \<and>
     (case lr_phase s of
        Gate p \<Rightarrow> rg (\<lambda>_ _. True) (\<lambda>_ _. True) (\<lambda>r _. r = Inr (Some 1)) p (lr_metrics s)
      | Stopped code \<Rightarrow> True
      | _ \<Rightarrow> False)"

lemma rg_anywhere: "rg (\<lambda>_ _. True) G Q p m \<Longrightarrow> (\<And>r m m'. Q r m \<Longrightarrow> Q r m') \<Longrightarrow> rg (\<lambda>_ _. True) G Q p m'"
  by (cases p) (auto simp: rg_Act)

lemma never_opened_step:
  assumes "load_step net opts s t" and "never_opened s" shows "never_opened t"
  using assms
  by cases (auto simp: never_opened_def rg_Act dest!: spec [of _ "lr_metrics s"] intro: rg_anywhere split: phase.splits)

lemma load_test_never_starts:
  assumes "network_of_server E order net" and "load_reaches net opts i now s"
  shows "lr_users s = [] \<and> (\<forall>code. lr_phase s \<noteq> Completed code)"
proof -
  have "never_opened s"
    using assms(2) unfolding load_reaches_def
  proof (induction rule: rtranclp_induct)
    case base
    from rg_gate_refused [OF assms(1), of i "initial_metrics\<lparr>date_ms := now\<rparr>"] show ?case
      by (auto simp: never_opened_def load_start_def begun_def rg_Act dest!: spec [of _ "initial_metrics\<lparr>date_ms := now\<rparr>"]
          split: prog.split prod.split)
  next
    case (step s t)
    then show ?case
      using never_opened_step by (auto simp: never_opened_def dest!: interrupted_keeps)
  qed
  then show ?thesis by (auto simp: never_opened_def)
qed

end
