(* ===== verification/K6.thy ===== *)
theory K6
  imports LoadTest
begin

text \<open>
  \<open>loadtest/k6-load-test.js\<close>: the setup and the iterations of one virtual user, against the
  server.  The random texts are drawn, the requests and the metrics are those of the k6 tool:
  a request that fails on the way has status 0, \<open>check\<close> evaluates all its conditions, and
  \<open>json()\<close> throws where the body is not JSON, which ends the iteration.
\<close>

section \<open>Requests and metrics\<close>

record k6_response =
  kr_status :: nat
  kr_json :: "json option"
  kr_duration :: js_number

type_synonym k6_network = "string \<Rightarrow> call \<Rightarrow> k6_response"

definition k6_network_of_server :: "externals \<Rightarrow> node_order \<Rightarrow> k6_network \<Rightarrow> bool" where
  "k6_network_of_server E order net \<longleftrightarrow>
     (\<forall>i c. kr_status (net i c) = 0 \<or>
        (\<exists>admitted dw r. may_return (serve E order admitted dw (request_of c)) r \<and> status r = kr_status (net i c)))"

text \<open>The samples of the rates, and the tokens the virtual user holds.\<close>

record k6_state =
  k_errors :: "bool list"
  k_login :: "bool list"
  k_register :: "bool list"
  k_message :: "bool list"
  k_latency :: "js_number list"
  k_active :: nat
  k_tokens :: "nat \<Rightarrow> json option"

type_synonym 'a k6 = "(k6_state, unit, 'a) prog"

definition k6_initial :: k6_state where
  "k6_initial = \<lparr>k_errors = [], k_login = [], k_register = [], k_message = [], k_latency = [], k_active = 0,
     k_tokens = Map.empty\<rparr>"

record k6_user =
  ku_id :: nat
  ku_chhayaId :: string
  ku_displayName :: string
  ku_publicKey :: string
  ku_recoveryPhraseHash :: string
  ku_deviceId :: string

text \<open>The test users: 16 random bytes after a prefix that no identifier of the server has, 33 for the key.\<close>

definition test_user :: "nat \<Rightarrow> load_draw \<Rightarrow> k6_user" where
  "test_user i dw =
     \<lparr>ku_id = i, ku_chhayaId = ''chhaya_'' @ to_hex (ld_id dw), ku_displayName = ''User'' @ nat_text i,
      ku_publicKey = to_hex (ld_key dw), ku_recoveryPhraseHash = to_hex (ld_phrase dw), ku_deviceId = ld_uuid dw\<rparr>"

definition register_fields :: "k6_user \<Rightarrow> (string \<times> string) list" where
  "register_fields u =
     [(''chhayaId'', ku_chhayaId u), (''displayName'', ku_displayName u), (''publicKey'', ku_publicKey u),
      (''encryptedPrivateKey'', ''encrypted''), (''recoveryPhraseHash'', ku_recoveryPhraseHash u),
      (''deviceId'', ku_deviceId u), (''deviceName'', ''LoadTest Device''), (''platform'', ''android'')]"

text \<open>\<open>r.json('token') !== undefined\<close>\<close>

definition has_token :: "k6_response \<Rightarrow> bool k6" where
  "has_token r = (case kr_json r of None \<Rightarrow> Throw () | Some j \<Rightarrow> Return (json_prop ''token'' (Some j) \<noteq> None))"

definition token_of :: "k6_response \<Rightarrow> json option k6" where
  "token_of r = (case kr_json r of None \<Rightarrow> Throw () | Some j \<Rightarrow> Return (json_prop ''token'' (Some j)))"

section \<open>Setup\<close>

fun pre_register :: "k6_network \<Rightarrow> (string \<times> k6_user) list \<Rightarrow> (k6_user \<times> json) list k6" where
  "pre_register net [] = Return []"
| "pre_register net ((i, u) # us) =
     (let res = net i (api_call ''POST'' ''/auth/register'' (post_fields (register_fields u)) None) in
      await (if kr_status res = 201 then token_of res else Return None) (\<lambda>token.
      await (pre_register net us) (\<lambda>rest.
      Return (if truthy token then (u, the token) # rest else rest))))"

section \<open>One iteration\<close>

record k6_draw =
  kd_request :: string
  kd_user :: k6_user
  kd_rand :: rat
  kd_bytes :: bytes
  kd_uuid :: string
  kd_now :: nat

definition add_rate :: "((bool list \<Rightarrow> bool list) \<Rightarrow> k6_state \<Rightarrow> k6_state) \<Rightarrow> bool \<Rightarrow> unit k6" where
  "add_rate field b = modify (field (\<lambda>bs. bs @ [b]))"

definition add_latency :: "k6_response \<Rightarrow> unit k6" where
  "add_latency r = modify (\<lambda>s. s\<lparr>k_latency := k_latency s @ [kr_duration r]\<rparr>)"

text \<open>The scenarios that need a token: the request, the success that is checked, the error that is
  counted.\<close>

definition with_token_do ::
  "k6_network \<Rightarrow> (k6_user \<times> json) list \<Rightarrow> k6_draw \<Rightarrow> string \<Rightarrow> string \<Rightarrow> json option \<Rightarrow> (nat \<Rightarrow> bool) \<Rightarrow>
   (bool \<Rightarrow> unit k6) \<Rightarrow> unit k6" where
  "with_token_do net pre dw method path content is_error record_more =
     await (gets (\<lambda>s. k_tokens s (ku_id (kd_user dw)))) (\<lambda>own.
     let token = (if truthy own then own
                  else map_option snd (find (\<lambda>(u, t). ku_id u = ku_id (kd_user dw)) pre)) in
     if \<not> truthy token then Return ()
     else
       let res = net (kd_request dw) (api_call method path content token) in
       await (record_more (kr_status res = 201)) (\<lambda>_.
       await (add_rate k_errors_update (is_error (kr_status res))) (\<lambda>_.
       add_latency res)))"

definition k6_register :: "k6_network \<Rightarrow> k6_draw \<Rightarrow> unit k6" where
  "k6_register net dw =
     (let newUser = (kd_user dw)\<lparr>ku_chhayaId := ''chhaya_'' @ to_hex (kd_bytes dw)\<rparr>;
          res = net (kd_request dw) (api_call ''POST'' ''/auth/register'' (post_fields (register_fields newUser)) None) in
      await (has_token res) (\<lambda>token.
      let success = (kr_status res = 201 \<and> token) in
      await (add_rate k_register_update success) (\<lambda>_.
      await (add_rate k_errors_update (\<not> success)) (\<lambda>_.
      add_latency res))))"

definition k6_login :: "k6_network \<Rightarrow> k6_draw \<Rightarrow> unit k6" where
  "k6_login net dw =
     (let user = kd_user dw;
          res = net (kd_request dw) (api_call ''POST'' ''/auth/login'' (post_fields
            [(''chhayaId'', ku_chhayaId user), (''recoveryPhraseHash'', ku_recoveryPhraseHash user),
             (''deviceId'', ku_deviceId user), (''deviceName'', ''LoadTest Device''),
             (''platform'', ''android'')]) None) in
      await (has_token res) (\<lambda>token.
      let success = (kr_status res = 200 \<and> token) in
      await (add_rate k_login_update success) (\<lambda>_.
      await (add_rate k_errors_update (\<not> success)) (\<lambda>_.
      await (add_latency res) (\<lambda>_.
      await (if success then token_of res else Return None) (\<lambda>token.
      if truthy token then modify (\<lambda>s. s\<lparr>k_tokens := (k_tokens s)(ku_id user := token)\<rparr>) else Return ()))))))"

definition k6_iteration :: "k6_network \<Rightarrow> (k6_user \<times> json) list \<Rightarrow> k6_draw \<Rightarrow> unit k6" where
  "k6_iteration net pre dw =
     (let rand = kd_rand dw; user = kd_user dw; call = with_token_do net pre dw in
      await (modify (\<lambda>s. s\<lparr>k_active := k_active s + 1\<rparr>)) (\<lambda>_.
      if rand < 15 then k6_register net dw
      else if rand < 35 then k6_login net dw
      else if rand < 45 then call ''GET'' ''/users/me'' None (\<lambda>st. st \<noteq> 200) (\<lambda>_. Return ())
      else if rand < 60 then call ''POST'' ''/contacts'' (post_fields
        [(''chhayaId'', ''chhaya_'' @ to_hex (kd_bytes dw)), (''displayName'', ''Contact'' @ nat_text (ku_id user))])
        (\<lambda>st. 500 \<le> st) (\<lambda>_. Return ())
      else if rand < 70 then call ''GET'' ''/contacts'' None (\<lambda>st. st \<noteq> 200) (\<lambda>_. Return ())
      else if rand < 80 then call ''POST'' ''/conversations''
        (Some (JObj [(''type'', JStr ''direct''), (''participantIds'', JArr [JStr (kd_uuid dw)])]))
        (\<lambda>st. st \<noteq> 201) (\<lambda>_. Return ())
      else if rand < 90 then call ''GET'' ''/conversations'' None (\<lambda>st. st \<noteq> 200) (\<lambda>_. Return ())
      else if rand < 95 then call ''POST'' ''/messages'' (post_fields
        [(''conversationId'', kd_uuid dw),
         (''content'', ''Test message from user '' @ nat_text (ku_id user) @ '' at '' @ nat_text (kd_now dw)),
         (''messageType'', ''text'')]) (\<lambda>st. st \<noteq> 201) (add_rate k_message_update)
      else call ''GET'' (''/messages/'' @ kd_uuid dw) None (\<lambda>st. st \<noteq> 200) (\<lambda>_. Return ())))"

text \<open>The iterations of one virtual user; an exception ends the iteration.\<close>

definition k6_iterations :: "k6_network \<Rightarrow> (k6_user \<times> json) list \<Rightarrow> k6_draw list \<Rightarrow> unit k6" where
  "k6_iterations net pre dws = for_each dws (\<lambda>dw. try_catch (k6_iteration net pre dw) (\<lambda>_. Return ()))"

section \<open>No session\<close>

lemma k6_refused_by_server:
  assumes "k6_network_of_server E order net"
    and "\<And>dw. route E order dw (request_of c) (case hc_body c of None \<Rightarrow> JNull | Some j \<Rightarrow> j) = Return x"
    and "status x \<in> {400, 404}"
  shows "kr_status (net i c) \<in> {0, 400, 404, 429}"
proof (cases "kr_status (net i c) = 0")
  case False
  then obtain admitted dw r where r: "may_return (serve E order admitted dw (request_of c)) r"
      "status r = kr_status (net i c)"
    using assms(1) unfolding k6_network_of_server_def by metis
  from may_return_refused [OF r(1) _ _ assms(3)] assms(2) r(2) show ?thesis
    by (force simp: request_of_def)
qed simp

lemma k6_unproved:
  assumes "k6_network_of_server E order net" and "\<And>v. (''challengeId'', v) \<notin> set fs"
  shows "kr_status (net i (api_call ''POST'' ''/auth/register'' (post_fields fs) None)) \<in> {0, 400, 404, 429}"
    and "kr_status (net i (api_call ''POST'' ''/auth/login'' (post_fields fs) None)) \<in> {0, 400, 404, 429}"
  by (rule k6_refused_by_server [OF assms(1), where x = "\<lparr>status = 400, body = BInvalidInput\<rparr>"];
      simp add: route_simps auth_register_def auth_login_def no_challenge_id [OF assms(2)])+

definition locked_out :: "k6_state \<Rightarrow> bool" where
  "locked_out s \<longleftrightarrow> k_tokens s = Map.empty \<and> \<not> list_ex id (k_register s) \<and> \<not> list_ex id (k_login s) \<and>
     k_message s = [] \<and> list_all id (k_errors s) \<and> length (k_errors s) = length (k_register s) + length (k_login s)"

lemma no_challenge_fields: "(''challengeId'', v) \<notin> set (register_fields u)"
  by (simp add: register_fields_def)

lemma k6_register_status:
  assumes "k6_network_of_server E order net"
  shows "kr_status (net i (api_call ''POST'' ''/auth/register'' (post_fields (register_fields u)) None)) \<noteq> 201"
  using k6_unproved(1) [OF assms, of "register_fields u" i] no_challenge_fields [of _ u] by auto

lemma pre_register_none:
  assumes "k6_network_of_server E order net"
  shows "pre_register net us = Return []"
  by (induction us) (auto simp: Let_def k6_register_status [OF assms])

lemma with_token_locked: "locked_out s \<Longrightarrow> run (with_token_do net [] dw method path content err record_it) s = (Inr (), s)"
  by (simp add: with_token_do_def run_simps locked_out_def)

lemma locked_out_frame:
  "locked_out (s\<lparr>k_active := n\<rparr>) = locked_out s" "locked_out (s\<lparr>k_latency := ls\<rparr>) = locked_out s"
  by (simp_all add: locked_out_def)

lemma k6_register_locked:
  assumes "k6_network_of_server E order net" and "locked_out s"
  shows "locked_out (snd (run (k6_register net dw) s))"
  using k6_register_status [OF assms(1)] assms(2)
  by (auto simp: k6_register_def Let_def run_simps has_token_def add_rate_def add_latency_def locked_out_def
      split: option.split)

lemma k6_login_locked:
  assumes "k6_network_of_server E order net" and "locked_out s"
  shows "locked_out (snd (run (k6_login net dw) s))"
proof -
  let ?u = "kd_user dw"
  let ?fs = "[(''chhayaId'', ku_chhayaId ?u), (''recoveryPhraseHash'', ku_recoveryPhraseHash ?u),
             (''deviceId'', ku_deviceId ?u), (''deviceName'', ''LoadTest Device''), (''platform'', ''android'')]"
  have "kr_status (net (kd_request dw) (api_call ''POST'' ''/auth/login'' (post_fields ?fs) None)) \<noteq> 200"
    using k6_unproved(2) [OF assms(1), of ?fs "kd_request dw"] by auto
  with assms(2) show ?thesis
    by (auto simp: k6_login_def Let_def run_simps has_token_def add_rate_def add_latency_def locked_out_def
        split: option.split)
qed

lemma k6_iteration_locked:
  assumes "k6_network_of_server E order net" and "locked_out s"
  shows "locked_out (snd (run (k6_iteration net [] dw) s))"
proof -
  have "locked_out (s\<lparr>k_active := k_active s + 1\<rparr>)" using assms(2) by (simp add: locked_out_frame)
  then show ?thesis
    by (simp add: k6_iteration_def Let_def run_simps with_token_locked k6_register_locked [OF assms(1)]
        k6_login_locked [OF assms(1)] cong: if_cong)
qed

lemma k6_iterations_locked:
  assumes "k6_network_of_server E order net" and "locked_out s"
  shows "locked_out (snd (run (k6_iterations net [] dws) s))"
  using assms(2)
proof (induction dws arbitrary: s)
  case (Cons dw dws)
  have "locked_out (snd (run (try_catch (k6_iteration net [] dw) (\<lambda>_. Return ())) s))"
    using k6_iteration_locked [OF assms(1) Cons.prems, of dw] by (auto simp: run_simps split: prod.split sum.split)
  with Cons.IH show ?case
    by (auto simp: k6_iterations_def run_simps split: prod.split sum.split)
qed (simp add: k6_iterations_def)

text \<open>Against this server the k6 script measures nothing: its setup registers nobody, and in any number
  of iterations every registration and every login fails, no message is sent, and each sample
  of the error rate is an error.\<close>

lemma k6_measures_nothing:
  assumes "k6_network_of_server E order net"
  shows "run (await (pre_register net us) (\<lambda>pre. k6_iterations net pre dws)) k6_initial =
      run (k6_iterations net [] dws) k6_initial \<and>
    (let s = snd (run (k6_iterations net [] dws) k6_initial) in
      k_tokens s = Map.empty \<and> \<not> list_ex id (k_register s) \<and> \<not> list_ex id (k_login s) \<and>
      k_message s = [] \<and> list_all id (k_errors s) \<and> length (k_errors s) = length (k_register s) + length (k_login s))"
proof -
  have "locked_out k6_initial" by (simp add: locked_out_def k6_initial_def)
  from k6_iterations_locked [OF assms this] show ?thesis
    by (simp add: pre_register_none [OF assms] locked_out_def Let_def)
qed

definition sample_k6_net :: k6_network where
  "sample_k6_net i c =
     (case run (serve sample_externals id True sample_draw (request_of c)) sample_world of
        (Inr r, _) \<Rightarrow> \<lparr>kr_status = status r, kr_json = Some JNull, kr_duration = Num 3\<rparr>
      | (Inl e, _) \<Rightarrow> \<lparr>kr_status = 0, kr_json = None, kr_duration = Num 3\<rparr>)"

lemma sample_k6_net_ok: "k6_network_of_server sample_externals id sample_k6_net"
  unfolding k6_network_of_server_def sample_k6_net_def
  by (auto split: sum.splits prod.splits dest!: may_return_run)

definition sample_k6_draw :: "rat \<Rightarrow> k6_draw" where
  "sample_k6_draw rand =
     \<lparr>kd_request = ''r'', kd_user = test_user 7 sample_load, kd_rand = rand, kd_bytes = replicate 16 3,
      kd_uuid = uuid (CHR ''f''), kd_now = 5\<rparr>"

lemma k6_measures_nothing_witness:
  "k_message (snd (run (await (pre_register sample_k6_net [(''p'', test_user 7 sample_load)])
     (\<lambda>pre. k6_iterations sample_k6_net pre [sample_k6_draw 3, sample_k6_draw 20, sample_k6_draw 92])) k6_initial)) = []"
  using k6_measures_nothing [OF sample_k6_net_ok, of "[(''p'', test_user 7 sample_load)]"
      "[sample_k6_draw 3, sample_k6_draw 20, sample_k6_draw 92]"]
  by (simp only: Let_def)

end
