(* ===== verification/Spec2Isabelle.thy ===== *)
theory Spec2Isabelle
  imports Answers Social Calls Sessions Relay Accounts Startup Results LoadRun K6
begin

text \<open>
  The Chhaya server, \<open>src/backend/server\<close>: a messaging back end in TypeScript.

  \<^bold>\<open>The program.\<close>  \<open>index.ts\<close> serves an HTTP interface; its handlers, in \<open>routes.ts\<close>, read and
  write a PostgreSQL database whose schema is in \<open>db.ts\<close>.  An account is the owner of an
  X25519 key: registration and login answer a challenge of \<open>identity-proof.ts\<close> and receive
  a bearer token of \<open>session.ts\<close>, which the middleware of \<open>routes.ts\<close> and the WebSocket
  service of \<open>signaling.ts\<close> turn back into an account.  Messages are announced through
  \<open>push.ts\<close>; \<open>onion-relay.ts\<close> keeps a table of relays, selects paths and simulates the relay;
  \<open>config.ts\<close> validates the environment.  \<open>loadtest\<close> holds a client that measures the server
  and an analysis of the measurements.

  \<^bold>\<open>How it is modelled.\<close>  A handler is a tree of atomic actions on the state of the world
  (\<open>Async\<close>): what runs between two \<open>await\<close>s of the source is one action, and exceptions are a
  constructor of the tree.  \<open>run\<close> executes a program alone; \<open>pool_steps\<close> interleaves any
  number of programs with an environment at every action.  The world (\<open>World\<close>) holds the
  database, the registry of the signaling service, the open sockets, the frames written and
  the notifications that were started and not awaited.  A statement of SQL (\<open>Database\<close>) is a function from
  the time and the database to an error or a result with the new database; the constraints
  of the schema are checked as PostgreSQL checks them, and a transaction is a statement that
  leaves nothing behind when it fails.  Code that is not in the repository is a
  parameter with the documented behaviour as its hypothesis: the \<open>externals\<close> (formats of the validation package,
  input syntax of PostgreSQL, cryptographic primitives), the push service, the order a
  random shuffle produces, the probes of relays, the network of the load test.  Random values
  are arguments (\<open>draw\<close>).

  \<^bold>\<open>Theories and sources.\<close>
  \<^item> \<open>Prelude\<close>, \<open>Async\<close>, \<open>Numbers\<close>, \<open>Externals\<close>: strings and bytes, programs, doubles
    with rounding to even, and the parameters.
  \<^item> \<open>Validation\<close>: the schemas of \<open>routes.ts\<close> as parsers of JSON.
  \<^item> \<open>Database\<close>: the tables of \<open>db.ts\<close>, \<open>query\<close> and \<open>withTransaction\<close>; \<open>World\<close>: the state.
  \<^item> \<open>Session\<close>, \<open>Identity\<close>, \<open>Push\<close>, \<open>Signaling\<close>, \<open>Onion\<close>, \<open>Config\<close>: the files of these names.
  \<^item> \<open>Routes_Auth\<close>, \<open>Routes_Account\<close>, \<open>Routes_Social\<close>, \<open>Routes_Messages\<close>: the handlers of \<open>routes.ts\<close>.
  \<^item> \<open>Server\<close>: the route table, the pipeline of \<open>index.ts\<close> and the event loop
    (\<open>server_reaches\<close>).
  \<^item> \<open>Startup\<close>: the migrations of \<open>db.ts\<close> as statements on the catalog, its connection pool, and
    the start of \<open>index.ts\<close>.
  \<^item> \<open>Relay\<close>: the start of the relay service of \<open>onion-relay.ts\<close>, and what its connections and
    timers do.
  \<^item> \<open>Scoring\<close>, \<open>Analysis\<close> and \<open>Results\<close>: \<open>analyze-results.js\<close> of \<open>loadtest\<close>; \<open>LoadTest\<close> and \<open>LoadRun\<close>:
    \<open>load-test.js\<close>, its customers and its main program; \<open>K6\<close>: \<open>k6-load-test.js\<close>.

  \<^bold>\<open>What is shown.\<close>
  \<^item> \<open>Guarantees\<close> goes through every statement and handler once, inside locales; an invariant
    of all interleavings is an interpretation of them: the constraints of the schema
    (\<open>Integrity\<close>), what no execution undoes (\<open>Evolution\<close>), authorship, which rests on the
    stability of memberships between two queries (\<open>Membership\<close>), and the registry of the
    signaling service (\<open>Registry\<close>).  \<open>Executions\<close> and \<open>Calls\<close> state them for executions;
    \<open>Answers\<close> adds that no program of the server ends with an unhandled exception and with which
    statuses requests are answered.
  \<^item> \<open>Runs\<close> takes finished runs apart, and \<open>Access\<close>, \<open>Accounts\<close>, \<open>Social\<close> and \<open>Messaging\<close> give
    the effect of single requests: accounts and sessions, settings, devices and notifications, contacts
    and conversations, and messages with retries, paging and receipts.
  \<^item> \<open>Sessions\<close> refines the session table to a map from tokens to an account and an expiry
    (\<open>session_store\<close> is the interface, interpreted on the statements of \<open>Session\<close>).
  \<^item> \<open>Calls\<close> says who joins, who receives a signal or an announcement and when a client is
    dropped, and what late and interrupted joins leave behind; \<open>Paths\<close> compares path selection
    with a reference and follows health checks and the relay; \<open>Relay\<close> says which messages are
    answered and which nodes a running service knows.
  \<^item> \<open>Config\<close> bounds what a configuration can be; \<open>Startup\<close> shows that the migrations can be
    repeated after any interruption and that nothing listens before they are complete, and
    compares the unique indexes they create with those \<open>Database\<close> and \<open>Push\<close> check.
  \<^item> \<open>Scoring\<close> and \<open>Analysis\<close> bound what the analysis reports, down to the rounding of doubles, \<open>Results\<close>
    says which files it writes;
    \<open>LoadTest\<close> and \<open>K6\<close> run the two clients against the model of the server.  \<open>LoadRun\<close> gives the
    main program of the first as a step relation (\<open>load_step\<close>) with an invariant: what its report
    says under any network, that it can always go on to its end (\<open>drive\<close> is one way to go on), and
    that against this server it stops before the first customer.
  \<^item> \<open>Samples\<close> holds the concrete state on which the properties are evaluated.

  \<^bold>\<open>Bounds and fuel.\<close>  \<open>relay_chain\<close> takes the number of hops as fuel; that no fuel suffices is
  what is proved of it.  \<open>health_rounds\<close> and \<open>user_loop\<close> take the list of rounds, since the
  loops of the source end by the clock; the number of requests of a run is taken below \<open>2^40\<close>,
  so that the comparison with 95 per cent is exact in doubles.  Columns \<open>DECIMAL(3,2)\<close> are integers in hundredths;
  time is in microseconds in the database and in milliseconds in JavaScript.  All
  other recursion is structural or by a measure, so every handler returns.

  \<^bold>\<open>Not modelled.\<close>  The log lines (\<open>log.ts\<close>) and the slow-query log of \<open>db.ts\<close>, the text
  of the metrics, the process signals and the headers set by \<open>helmet\<close> and \<open>cors\<close> in \<open>index.ts\<close>, and the
  listening sockets, which are input, output or third-party code; from the rate limiter only
  the verdict is taken.  The layout of the printed reports (their figures are modelled), the order of the
  entries of \<open>errors\<close> and \<open>scenarioMetrics\<close> in them,
  and the options and thresholds that the k6 tool reads.  The clients in other languages.
\<close>

end
